theory Spec2Isabelle
  imports Complex_Main "HOL-Library.While_Combinator" "HOL-Library.Monad_Syntax"
begin

section \<open>Numbers, vectors and matrices\<close>

text \<open>
  The program is TypeScript over the three.js vector library.  A JavaScript number is
  modelled as a real: the theorems below are about the exact arithmetic the code
  writes down, and rounding (of doubles, and of the 32-bit float buffers) is outside
  the model.  A real is finite; where the lattice code can produce a number that is
  not (\<open>Infinity\<close> or \<open>NaN\<close>: a division by zero in \<open>applyMatrix4\<close>, an overflow in
  \<open>binomial\<close>), the model says so and carries the value \<open>None\<close> instead of a number.
  Integer quantities (indices, counts, subdivision numbers) are naturals or integers.
  A buffer of three floats per vertex is a list of \<open>Vector3\<close>, and an index buffer of
  three indices per triangle is a list of index triples.
\<close>

datatype Vector3 = Vector3 (vx: real) (vy: real) (vz: real)

definition add_v :: "Vector3 \<Rightarrow> Vector3 \<Rightarrow> Vector3" where
  "add_v a b = Vector3 (vx a + vx b) (vy a + vy b) (vz a + vz b)"

definition sub_v :: "Vector3 \<Rightarrow> Vector3 \<Rightarrow> Vector3" where
  "sub_v a b = Vector3 (vx a - vx b) (vy a - vy b) (vz a - vz b)"

definition multiplyScalar :: "Vector3 \<Rightarrow> real \<Rightarrow> Vector3" where
  "multiplyScalar a s = Vector3 (vx a * s) (vy a * s) (vz a * s)"

definition divideScalar :: "Vector3 \<Rightarrow> real \<Rightarrow> Vector3" where
  "divideScalar a s = Vector3 (vx a / s) (vy a / s) (vz a / s)"

text \<open>
  \<open>THREE.Matrix4\<close>: the sixteen entries of its \<open>elements\<close> array, in the array's
  (column-major) order, so that \<open>e3, e7, e11, e15\<close> is the bottom row.
\<close>

datatype Matrix4 = Matrix4
  (e0: real) (e1: real) (e2: real) (e3: real)
  (e4: real) (e5: real) (e6: real) (e7: real)
  (e8: real) (e9: real) (e10: real) (e11: real)
  (e12: real) (e13: real) (e14: real) (e15: real)

text \<open>\<open>new THREE.Matrix4()\<close> is the identity.\<close>

definition identity4 :: Matrix4 where
  "identity4 = Matrix4 1 0 0 0  0 1 0 0  0 0 1 0  0 0 0 1"

text \<open>\<open>Matrix4.equals\<close> compares the sixteen entries.\<close>

definition equals4 :: "Matrix4 \<Rightarrow> Matrix4 \<Rightarrow> bool" where
  "equals4 a b \<longleftrightarrow> a = b"

text \<open>
  A vector object of the lattice code: a vector, or \<open>None\<close> when its coordinates are
  not finite.  The two sources of such values leave no coordinate finite, and neither
  does anything computed from them: a product with \<open>Infinity\<close> or \<open>NaN\<close> is \<open>Infinity\<close>
  or \<open>NaN\<close>, and so is a sum with such a term.
\<close>

type_synonym point = "Vector3 option"

text \<open>
  \<open>Vector3.applyMatrix4\<close>: the vector is extended by a fourth coordinate 1, multiplied
  by the matrix and divided by the fourth coordinate of the product.  When that
  coordinate is 0 the factor \<open>w = 1 / 0\<close> is \<open>Infinity\<close> and the three products with it
  are \<open>Infinity\<close> or \<open>NaN\<close>.
\<close>

definition applyMatrix4 :: "point \<Rightarrow> Matrix4 \<Rightarrow> point" where
  "applyMatrix4 p t =
     (case p of
        None \<Rightarrow> None
      | Some v \<Rightarrow>
          (let x = vx v; y = vy v; z = vz v;
               d = e3 t * x + e7 t * y + e11 t * z + e15 t
           in if d = 0 then None
              else
                let w = 1 / d
                in Some (Vector3 ((e0 t * x + e4 t * y + e8 t * z + e12 t) * w)
                                 ((e1 t * x + e5 t * y + e9 t * z + e13 t) * w)
                                 ((e2 t * x + e6 t * y + e10 t * z + e14 t) * w))))"

text \<open>
  \<open>Matrix4.invert\<close>: the adjugate divided by the determinant; a matrix of
  determinant 0 is replaced by the zero matrix.
\<close>

definition determinant4 :: "Matrix4 \<Rightarrow> real" where
  "determinant4 t =
     (let n11 = e0 t; n21 = e1 t; n31 = e2 t; n41 = e3 t;
          n12 = e4 t; n22 = e5 t; n32 = e6 t; n42 = e7 t;
          n13 = e8 t; n23 = e9 t; n33 = e10 t; n43 = e11 t;
          n14 = e12 t; n24 = e13 t; n34 = e14 t; n44 = e15 t;
          t11 = n23 * n34 * n42 - n24 * n33 * n42 + n24 * n32 * n43
              - n22 * n34 * n43 - n23 * n32 * n44 + n22 * n33 * n44;
          t12 = n14 * n33 * n42 - n13 * n34 * n42 - n14 * n32 * n43
              + n12 * n34 * n43 + n13 * n32 * n44 - n12 * n33 * n44;
          t13 = n13 * n24 * n42 - n14 * n23 * n42 + n14 * n22 * n43
              - n12 * n24 * n43 - n13 * n22 * n44 + n12 * n23 * n44;
          t14 = n14 * n23 * n32 - n13 * n24 * n32 - n14 * n22 * n33
              + n12 * n24 * n33 + n13 * n22 * n34 - n12 * n23 * n34
      in n11 * t11 + n21 * t12 + n31 * t13 + n41 * t14)"

definition invert :: "Matrix4 \<Rightarrow> Matrix4" where
  "invert t =
     (let n11 = e0 t; n21 = e1 t; n31 = e2 t; n41 = e3 t;
          n12 = e4 t; n22 = e5 t; n32 = e6 t; n42 = e7 t;
          n13 = e8 t; n23 = e9 t; n33 = e10 t; n43 = e11 t;
          n14 = e12 t; n24 = e13 t; n34 = e14 t; n44 = e15 t;
          t11 = n23 * n34 * n42 - n24 * n33 * n42 + n24 * n32 * n43
              - n22 * n34 * n43 - n23 * n32 * n44 + n22 * n33 * n44;
          t12 = n14 * n33 * n42 - n13 * n34 * n42 - n14 * n32 * n43
              + n12 * n34 * n43 + n13 * n32 * n44 - n12 * n33 * n44;
          t13 = n13 * n24 * n42 - n14 * n23 * n42 + n14 * n22 * n43
              - n12 * n24 * n43 - n13 * n22 * n44 + n12 * n23 * n44;
          t14 = n14 * n23 * n32 - n13 * n24 * n32 - n14 * n22 * n33
              + n12 * n24 * n33 + n13 * n22 * n34 - n12 * n23 * n34;
          det = n11 * t11 + n21 * t12 + n31 * t13 + n41 * t14
      in if det = 0 then Matrix4 0 0 0 0  0 0 0 0  0 0 0 0  0 0 0 0
         else let detInv = 1 / det in Matrix4
          (t11 * detInv)
          ((n24 * n33 * n41 - n23 * n34 * n41 - n24 * n31 * n43
            + n21 * n34 * n43 + n23 * n31 * n44 - n21 * n33 * n44) * detInv)
          ((n22 * n34 * n41 - n24 * n32 * n41 + n24 * n31 * n42
            - n21 * n34 * n42 - n22 * n31 * n44 + n21 * n32 * n44) * detInv)
          ((n23 * n32 * n41 - n22 * n33 * n41 - n23 * n31 * n42
            + n21 * n33 * n42 + n22 * n31 * n43 - n21 * n32 * n43) * detInv)
          (t12 * detInv)
          ((n13 * n34 * n41 - n14 * n33 * n41 + n14 * n31 * n43
            - n11 * n34 * n43 - n13 * n31 * n44 + n11 * n33 * n44) * detInv)
          ((n14 * n32 * n41 - n12 * n34 * n41 - n14 * n31 * n42
            + n11 * n34 * n42 + n12 * n31 * n44 - n11 * n32 * n44) * detInv)
          ((n12 * n33 * n41 - n13 * n32 * n41 + n13 * n31 * n42
            - n11 * n33 * n42 - n12 * n31 * n43 + n11 * n32 * n43) * detInv)
          (t13 * detInv)
          ((n14 * n23 * n41 - n13 * n24 * n41 - n14 * n21 * n43
            + n11 * n24 * n43 + n13 * n21 * n44 - n11 * n23 * n44) * detInv)
          ((n12 * n24 * n41 - n14 * n22 * n41 + n14 * n21 * n42
            - n11 * n24 * n42 - n12 * n21 * n44 + n11 * n22 * n44) * detInv)
          ((n13 * n22 * n41 - n12 * n23 * n41 - n13 * n21 * n42
            + n11 * n23 * n42 + n12 * n21 * n43 - n11 * n22 * n43) * detInv)
          (t14 * detInv)
          ((n13 * n24 * n31 - n14 * n23 * n31 + n14 * n21 * n33
            - n11 * n24 * n33 - n13 * n21 * n34 + n11 * n23 * n34) * detInv)
          ((n14 * n22 * n31 - n12 * n24 * n31 - n14 * n21 * n32
            + n11 * n24 * n32 + n12 * n21 * n34 - n11 * n22 * n34) * detInv)
          ((n12 * n23 * n31 - n13 * n22 * n31 + n13 * n21 * n32
            - n11 * n23 * n32 - n12 * n21 * n33 + n11 * n22 * n33) * detInv))"


text \<open>
  \<open>THREE.Box3\<close>.  \<open>setFromBufferAttribute\<close> starts from the empty box and expands it by
  every vertex; for a buffer with at least one vertex the result is the componentwise
  minimum and maximum.  The empty box has corners at plus and minus infinity, which
  a real-valued vector cannot carry, so \<open>setFromBufferAttribute\<close> answers \<open>None\<close> for a
  buffer without vertices.
\<close>

datatype Box3 = Box3 (bmin: Vector3) (bmax: Vector3)

definition expandByPoint :: "Vector3 \<Rightarrow> Box3 \<Rightarrow> Box3" where
  "expandByPoint p b =
     Box3 (Vector3 (min (vx (bmin b)) (vx p)) (min (vy (bmin b)) (vy p)) (min (vz (bmin b)) (vz p)))
          (Vector3 (max (vx (bmax b)) (vx p)) (max (vy (bmax b)) (vy p)) (max (vz (bmax b)) (vz p)))"

definition setFromBufferAttribute :: "Vector3 list \<Rightarrow> Box3 option" where
  "setFromBufferAttribute ps =
     (case ps of [] \<Rightarrow> None | p # qs \<Rightarrow> Some (fold expandByPoint qs (Box3 p p)))"

definition isEmpty :: "Box3 \<Rightarrow> bool" where
  "isEmpty b \<longleftrightarrow> vx (bmax b) < vx (bmin b) \<or> vy (bmax b) < vy (bmin b) \<or> vz (bmax b) < vz (bmin b)"

definition getSize :: "Box3 \<Rightarrow> Vector3" where
  "getSize b = (if isEmpty b then Vector3 0 0 0 else sub_v (bmax b) (bmin b))"

section \<open>Mesh buffers\<close>

text \<open>
  \<open>THREE.BufferGeometry\<close>: the position attribute (absent on a geometry without
  position data), the optional index buffer, the normal attribute, and the other
  attributes by name.
\<close>

record BufferGeometry =
  position :: "Vector3 list option"
  index :: "(nat \<times> nat \<times> nat) list option"
  normal :: "Vector3 list option"
  attributes :: "(string \<times> real list) list"

definition cross :: "Vector3 \<Rightarrow> Vector3 \<Rightarrow> Vector3" where
  "cross a b = Vector3 (vy a * vz b - vz a * vy b) (vz a * vx b - vx a * vz b)
                       (vx a * vy b - vy a * vx b)"

definition length_v :: "Vector3 \<Rightarrow> real" where
  "length_v a = sqrt (vx a * vx a + vy a * vy a + vz a * vz a)"

text \<open>\<open>Vector3.normalize\<close> divides by the length, or by 1 when the length is 0.\<close>

definition normalize :: "Vector3 \<Rightarrow> Vector3" where
  "normalize a = divideScalar a (if length_v a = 0 then 1 else length_v a)"

text \<open>
  \<open>BufferGeometry.computeVertexNormals\<close> does nothing without a position attribute.
  Otherwise every vertex gets the normalised sum of the cross products
  \<open>(pC - pB) \<times> (pA - pB)\<close> of the triangles it belongs to: the triangles of the index
  buffer, or every three consecutive vertices.  Only the normal attribute changes.
\<close>

fun chunk3 :: "nat \<Rightarrow> nat \<Rightarrow> (nat \<times> nat \<times> nat) list" where
  "chunk3 i 0 = []"
| "chunk3 i (Suc c) = (i, i + 1, i + 2) # chunk3 (i + 3) c"

definition face_cb :: "Vector3 list \<Rightarrow> nat \<times> nat \<times> nat \<Rightarrow> Vector3" where
  "face_cb ps f = (case f of (a, b, c) \<Rightarrow>
     cross (sub_v (ps ! c) (ps ! b)) (sub_v (ps ! a) (ps ! b)))"

definition vertex_normals :: "(nat \<times> nat \<times> nat) list option \<Rightarrow> Vector3 list \<Rightarrow> Vector3 list" where
  "vertex_normals idx ps =
     (let faces = (case idx of Some fs \<Rightarrow> fs | None \<Rightarrow> chunk3 0 (length ps div 3))
      in map (\<lambda>v. normalize (fold (\<lambda>f acc.
                 (case f of (a, b, c) \<Rightarrow>
                    if v = a \<or> v = b \<or> v = c
                    then add_v acc (multiplyScalar (face_cb ps f)
                           (real ((if v = a then 1 else 0) + (if v = b then 1 else 0)
                                  + (if v = c then 1 else (0::nat)))))
                    else acc)) faces (Vector3 0 0 0)))
           [0..<length ps])"

definition computeVertexNormals :: "BufferGeometry \<Rightarrow> BufferGeometry" where
  "computeVertexNormals g =
     (case position g of None \<Rightarrow> g
      | Some ps \<Rightarrow> g\<lparr>normal := Some (vertex_normals (index g) ps)\<rparr>)"

text \<open>\<open>clone\<close> copies every buffer; values have no identity, so the copy is the value.\<close>

definition clone :: "BufferGeometry \<Rightarrow> BufferGeometry" where
  "clone g = g"


section \<open>The control lattice (FFD.ts)\<close>

record FFDSettings =
  lengthSubdivisions :: int
  widthSubdivisions :: int
  heightSubdivisions :: int

text \<open>
  The exceptions the code can throw.  \<open>TypeError\<close> is what JavaScript throws when a
  property of \<open>undefined\<close> is read, as in \<open>geometry.attributes.position.array\<close> on a
  geometry without a position attribute; the source has no error class of its own,
  and \<open>InvalidGeometry\<close> (the specification's name) is raised nowhere.
\<close>

datatype error = TypeError | InvalidGeometry

text \<open>
  The state of an \<open>FFD\<close> object.  A control point is a vector object and may come to
  hold coordinates that are not finite; so may a vertex of the lattice's private
  geometry.  Of that geometry the model keeps the position attribute, the only part
  the lattice reads (\<open>deform\<close> also recomputes its normals from the positions).  The
  bounding box of a position attribute without vertices is the empty box (\<open>None\<close>).
  The subscribers are callbacks of the user interface and hold no state of the
  lattice.
\<close>

type_synonym grid = "point list list list"

record FFD =
  controlPoints :: grid
  originalControlPoints :: "grid option"
  initialControlPoints :: "grid option"
  bbox :: "Box3 option"
  geometry :: "point list"
  originalPositions :: "Vector3 list"
  ffd_l :: nat
  ffd_m :: nat
  ffd_n :: nat
  size_v :: Vector3
  currentTransform :: Matrix4
  lastDeformedGeometry :: "point list option"

text \<open>\<open>Math.max(2, settings?.lengthSubdivisions || 2)\<close>: an absent or zero setting is 2.\<close>

definition subdivisions :: "int option \<Rightarrow> nat" where
  "subdivisions s = nat (max 2 (case s of None \<Rightarrow> 2 | Some c \<Rightarrow> if c = 0 then 2 else c))"

text \<open>
  \<open>Box3.getSize\<close> of the lattice's box: the zero vector for the empty box.
\<close>

definition boxSize :: "Box3 option \<Rightarrow> Vector3" where
  "boxSize box = (case box of None \<Rightarrow> Vector3 0 0 0 | Some b \<Rightarrow> getSize b)"

text \<open>
  \<open>initializeControlPoints\<close>.  The minimum corner of the empty box is plus infinity,
  and so is every point built from it.
\<close>

definition initializeControlPoints :: "FFD \<Rightarrow> FFD" where
  "initializeControlPoints st =
     (let extent = size_v st;
          paddedMin = map_option bmin (bbox st);
          stepX = vx extent / real (ffd_l st);
          stepY = vy extent / real (ffd_m st);
          stepZ = vz extent / real (ffd_n st)
      in st\<lparr>controlPoints :=
           map (\<lambda>i. map (\<lambda>j. map (\<lambda>k.
                  map_option (\<lambda>pm. Vector3 (vx pm + real i * stepX)
                                         (vy pm + real j * stepY)
                                         (vz pm + real k * stepZ)) paddedMin)
                [0..<Suc (ffd_n st)]) [0..<Suc (ffd_m st)]) [0..<Suc (ffd_l st)]\<rparr>)"

definition construct :: "BufferGeometry \<Rightarrow> FFDSettings option \<Rightarrow> error + FFD" where
  "construct g settings =
     (case position g of
        None \<Rightarrow> Inl TypeError
      | Some ps \<Rightarrow>
          (let box = setFromBufferAttribute ps;
               st = initializeControlPoints
                     \<lparr>controlPoints = [], originalControlPoints = None,
                      initialControlPoints = None, bbox = box, geometry = map Some ps,
                      originalPositions = ps,
                      ffd_l = subdivisions (map_option lengthSubdivisions settings),
                      ffd_m = subdivisions (map_option heightSubdivisions settings),
                      ffd_n = subdivisions (map_option widthSubdivisions settings),
                      size_v = boxSize box, currentTransform = identity4,
                      lastDeformedGeometry = None\<rparr>
           in Inr (st\<lparr>originalControlPoints := Some (controlPoints st),
                      initialControlPoints := Some (controlPoints st)\<rparr>)))"

text \<open>
  \<open>Number.MAX_VALUE\<close>, the largest double.  A product that exceeds it is \<open>Infinity\<close>.
\<close>

definition MAX_VALUE :: real where
  "MAX_VALUE = (2 - 1 / 2 ^ 52) * 2 ^ 1023"

text \<open>
  \<open>binomial\<close>: the product of \<open>n - k + 1, ..., n\<close>, divided in turn by \<open>1, ..., k\<close>.  The
  product is formed first and overflows to \<open>Infinity\<close> (\<open>None\<close>) when it exceeds the
  largest double; \<open>Infinity\<close> divided by a positive number is \<open>Infinity\<close>.  (The test is
  made on the exact product.  The function is called with \<open>k \<le> n\<close> only.)
\<close>

definition binomial :: "nat \<Rightarrow> nat \<Rightarrow> real option" where
  "binomial n k =
     fold (\<lambda>i coeff. map_option (\<lambda>c. c / real i) coeff) [1..<Suc k]
       (fold (\<lambda>i coeff. case coeff of
                           None \<Rightarrow> None
                         | Some c \<Rightarrow> if c * real i > MAX_VALUE then None else Some (c * real i))
          [n - k + 1..<Suc n] (Some 1))"

text \<open>
  \<open>bernstein\<close>: an infinite binomial coefficient times the two powers is \<open>Infinity\<close> or,
  when a power is 0, \<open>NaN\<close>.
\<close>

definition bernstein :: "nat \<Rightarrow> nat \<Rightarrow> real \<Rightarrow> real option" where
  "bernstein n i t = map_option (\<lambda>b. b * t ^ i * (1 - t) ^ (n - i)) (binomial n i)"

definition epsilon :: real where
  "epsilon = 1 / 1000000"

text \<open>
  One parametric coordinate of \<open>calculateLocalCoordinates\<close>: the quotient (0 on an axis of
  size 0), snapped to 0 and to 1 within \<open>epsilon\<close>.  The quotient of two reals by a
  size that is not 0 is finite, so the last test of the source (\<open>isFinite\<close>) never
  fires.
\<close>

definition localCoordinate :: "real \<Rightarrow> real \<Rightarrow> real" where
  "localCoordinate loc extent =
     (let s = (if extent \<noteq> 0 then loc / extent else 0);
          s = (if \<bar>s\<bar> < epsilon then 0 else s);
          s = (if \<bar>s - 1\<bar> < epsilon then 1 else s)
      in s)"

text \<open>
  \<open>calculateLocalCoordinates\<close>.  The empty box has size 0 on every axis, which makes
  all three coordinates 0.
\<close>

definition calculateLocalCoordinates :: "FFD \<Rightarrow> Vector3 \<Rightarrow> real \<times> real \<times> real" where
  "calculateLocalCoordinates st vertex =
     (case bbox st of
        None \<Rightarrow> (0, 0, 0)
      | Some box \<Rightarrow>
          (let local = sub_v vertex (bmin box);
               extent = getSize box
           in (localCoordinate (vx local) (vx extent),
               localCoordinate (vy local) (vy extent),
               localCoordinate (vz local) (vz extent))))"

text \<open>
  \<open>calculateDeformedPosition\<close>: the three nested loops carry the running sum and the
  running total weight.  A weight or a control point that is not finite makes the
  sum, and with it the result, not finite: the sum is then \<open>Infinity\<close> or \<open>NaN\<close> in
  every coordinate, and dividing it by the total weight (itself \<open>Infinity\<close> or \<open>NaN\<close>
  when a weight is) does not change that.
\<close>

definition calculateDeformedPosition :: "FFD \<Rightarrow> real \<Rightarrow> real \<Rightarrow> real \<Rightarrow> point" where
  "calculateDeformedPosition st s t u =
     (case
        fold (\<lambda>i acc.
          let bx = bernstein (ffd_l st) i s in
          fold (\<lambda>j acc.
            let by = bernstein (ffd_m st) j t in
            fold (\<lambda>k acc.
              let bz = bernstein (ffd_n st) k u;
                  weight = do { x \<leftarrow> bx; y \<leftarrow> by; z \<leftarrow> bz; Some (x * y * z) };
                  controlPoint = controlPoints st ! i ! j ! k
              in do {
                   (result, totalWeight) \<leftarrow> acc;
                   w \<leftarrow> weight;
                   c \<leftarrow> controlPoint;
                   Some (add_v result (multiplyScalar c w), totalWeight + w)
                 })
            [0..<Suc (ffd_n st)] acc)
          [0..<Suc (ffd_m st)] acc)
        [0..<Suc (ffd_l st)] (Some (Vector3 0 0 0, 0))
      of
        None \<Rightarrow> None
      | Some (result, totalWeight) \<Rightarrow>
          Some (if totalWeight > 0 then divideScalar result totalWeight else result))"

text \<open>
  \<open>deform\<close>: every vertex of the geometry is recomputed from its original position.
  The new buffer has the length of \<open>originalPositions\<close> and is zero past the
  geometry's vertex count.
\<close>

definition deformVertex :: "FFD \<Rightarrow> Matrix4 \<Rightarrow> Vector3 \<Rightarrow> point" where
  "deformVertex st invTransform vertex =
     (case calculateLocalCoordinates st vertex of
        (s, t, u) \<Rightarrow> applyMatrix4 (calculateDeformedPosition st s t u) invTransform)"

definition deform :: "FFD \<Rightarrow> FFD" where
  "deform st =
     (if controlPoints st = [] then st
      else
        let positions = geometry st;
            invTransform = invert (currentTransform st);
            deformedPositions =
              map (\<lambda>i. if i < length positions
                        then deformVertex st invTransform (originalPositions st ! i)
                        else Some (Vector3 0 0 0))
                  [0..<length (originalPositions st)]
        in st\<lparr>geometry := deformedPositions, lastDeformedGeometry := Some deformedPositions\<rparr>)"

text \<open>
  \<open>updateTransform\<close>.  The working points become the local points with the matrix
  applied; the loops of the source run over the whole grid.
\<close>

definition map_grid :: "('a \<Rightarrow> 'b) \<Rightarrow> 'a list list list \<Rightarrow> 'b list list list" where
  "map_grid f cps = map (map (map f)) cps"

definition updateTransform :: "Matrix4 \<Rightarrow> FFD \<Rightarrow> FFD" where
  "updateTransform matrix st =
     (let st = st\<lparr>currentTransform := matrix\<rparr>;
          st = (case originalControlPoints st of
                  None \<Rightarrow> st
                | Some original \<Rightarrow>
                    st\<lparr>controlPoints :=
                         map_grid (\<lambda>point. applyMatrix4 point (currentTransform st)) original\<rparr>)
      in deform st)"

text \<open>
  \<open>moveControlPoint\<close>.  An index outside the grid reads \<open>undefined\<close> and the call
  returns at once.  The new position is a vector the caller passes.
\<close>

definition in_grid :: "'a list list list \<Rightarrow> nat \<Rightarrow> nat \<Rightarrow> nat \<Rightarrow> bool" where
  "in_grid cps i j k \<longleftrightarrow> i < length cps \<and> j < length (cps ! i) \<and> k < length (cps ! i ! j)"

definition set_point :: "'a list list list \<Rightarrow> nat \<Rightarrow> nat \<Rightarrow> nat \<Rightarrow> 'a \<Rightarrow> 'a list list list" where
  "set_point cps i j k p = cps[i := (cps ! i)[j := (cps ! i ! j)[k := p]]]"

definition moveControlPoint :: "nat \<Rightarrow> nat \<Rightarrow> nat \<Rightarrow> Vector3 \<Rightarrow> FFD \<Rightarrow> FFD" where
  "moveControlPoint i j k newPosition st =
     (if \<not> in_grid (controlPoints st) i j k then st
      else
        let st = st\<lparr>controlPoints := set_point (controlPoints st) i j k (Some newPosition)\<rparr>;
            st = (case originalControlPoints st of
                    None \<Rightarrow> st
                  | Some original \<Rightarrow>
                     (let localPosition =
                            (if \<not> equals4 (currentTransform st) identity4
                             then applyMatrix4 (Some newPosition) (invert (currentTransform st))
                             else Some newPosition)
                      in st\<lparr>originalControlPoints :=
                              Some (set_point original i j k localPosition)\<rparr>))
        in deform st)"

text \<open>
  \<open>reset\<close> writes the cached original positions into the geometry, restores both point
  sets and the transform, and then calls \<open>deform\<close>.
\<close>

definition reset :: "FFD \<Rightarrow> FFD" where
  "reset st =
     (case initialControlPoints st of
        None \<Rightarrow> st
      | Some initial \<Rightarrow>
          deform (st\<lparr>geometry := map Some (originalPositions st),
                     controlPoints := initial,
                     originalControlPoints := Some initial,
                     currentTransform := identity4,
                     lastDeformedGeometry := None\<rparr>))"

section \<open>Notions used to state and prove the lattice theorems\<close>


text \<open>
  \<open>finite_image t v\<close>: \<open>applyMatrix4\<close> does not divide by zero at \<open>v\<close>; \<open>transformed v t\<close>
  is then the vector it returns.  Under a matrix with bottom row \<open>(0, 0, 0, w)\<close>
  (\<open>affine4\<close>: every rigid or affine placement) that is so at every vector.
\<close>

definition finite_image :: "Matrix4 \<Rightarrow> Vector3 \<Rightarrow> bool" where
  "finite_image t v \<longleftrightarrow> e3 t * vx v + e7 t * vy v + e11 t * vz v + e15 t \<noteq> 0"

definition transformed :: "Vector3 \<Rightarrow> Matrix4 \<Rightarrow> Vector3" where
  "transformed v t =
     (let x = vx v; y = vy v; z = vz v;
          w = 1 / (e3 t * x + e7 t * y + e11 t * z + e15 t)
      in Vector3 ((e0 t * x + e4 t * y + e8 t * z + e12 t) * w)
                 ((e1 t * x + e5 t * y + e9 t * z + e13 t) * w)
                 ((e2 t * x + e6 t * y + e10 t * z + e14 t) * w))"

definition affine4 :: "Matrix4 \<Rightarrow> bool" where
  "affine4 t \<longleftrightarrow> e3 t = 0 \<and> e7 t = 0 \<and> e11 t = 0"

text \<open>A finite sequence of \<open>moveControlPoint\<close> calls, in order.\<close>

definition sculpt :: "(nat \<times> nat \<times> nat \<times> Vector3) list \<Rightarrow> FFD \<Rightarrow> FFD" where
  "sculpt moves st = fold (\<lambda>(i, j, k, p). moveControlPoint i j k p) moves st"

text \<open>The index set of a grid: the grid with its points erased.\<close>

definition shape :: "'a list list list \<Rightarrow> unit list list list" where
  "shape a = map (map (map (\<lambda>_. ()))) a"

text \<open>
  What the identity deform computes for one coordinate \<open>x\<close> of a vertex, on an axis
  where the box starts at \<open>lo\<close> and has size \<open>ext\<close>: the coordinate with its
  parametric value snapped by \<open>localCoordinate\<close>.
\<close>

definition snapCoordinate :: "real \<Rightarrow> real \<Rightarrow> real \<Rightarrow> real" where
  "snapCoordinate lo ext x = lo + localCoordinate (x - lo) ext * ext"

definition snapVertex :: "Box3 \<Rightarrow> Vector3 \<Rightarrow> Vector3" where
  "snapVertex box v =
     Vector3 (snapCoordinate (vx (bmin box)) (vx (getSize box)) (vx v))
             (snapCoordinate (vy (bmin box)) (vy (getSize box)) (vy v))
             (snapCoordinate (vz (bmin box)) (vz (getSize box)) (vz v))"

text \<open>
  A grid of vectors, and the grid of \<open>initializeControlPoints\<close> as a function of the
  box and the counts.
\<close>

type_synonym vgrid = "Vector3 list list list"

definition evenGrid :: "Vector3 \<Rightarrow> Vector3 \<Rightarrow> nat \<Rightarrow> nat \<Rightarrow> nat \<Rightarrow> vgrid" where
  "evenGrid lo ext L M N =
     map (\<lambda>i. map (\<lambda>j. map (\<lambda>k.
            Vector3 (vx lo + real i * (vx ext / real L))
                    (vy lo + real j * (vy ext / real M))
                    (vz lo + real k * (vz ext / real N)))
          [0..<Suc N]) [0..<Suc M]) [0..<Suc L]"

text \<open>
  The Bernstein polynomial, and the blend that \<open>calculateDeformedPosition\<close> computes
  over a grid of vectors when no binomial coefficient overflows: the weighted sum of
  the control points, divided by the total weight when that is positive.
\<close>

definition basis :: "nat \<Rightarrow> nat \<Rightarrow> real \<Rightarrow> real" where
  "basis n i t = real (n choose i) * t ^ i * (1 - t) ^ (n - i)"

definition sum_v :: "(nat \<Rightarrow> Vector3) \<Rightarrow> nat \<Rightarrow> Vector3" where
  "sum_v V n = Vector3 (\<Sum>k<n. vx (V k)) (\<Sum>k<n. vy (V k)) (\<Sum>k<n. vz (V k))"

definition blend :: "vgrid \<Rightarrow> nat \<Rightarrow> nat \<Rightarrow> nat \<Rightarrow> real \<Rightarrow> real \<Rightarrow> real \<Rightarrow> Vector3" where
  "blend cps L M N s t u =
     (let result = sum_v (\<lambda>i. sum_v (\<lambda>j. sum_v (\<lambda>k.
                multiplyScalar (cps ! i ! j ! k) (basis L i s * basis M j t * basis N k u))
              (Suc N)) (Suc M)) (Suc L);
          totalWeight = (\<Sum>i<Suc L. \<Sum>j<Suc M. \<Sum>k<Suc N.
                basis L i s * basis M j t * basis N k u)
      in if totalWeight > 0 then divideScalar result totalWeight else result)"

text \<open>
  The largest subdivision count for which no binomial coefficient overflows:
  \<open>170! < MAX_VALUE < 171!\<close>.
\<close>

definition MAX_COUNT :: nat where
  "MAX_COUNT = 170"

text \<open>Auxiliary algebra: the adjugate, scaling and the homogeneous product.\<close>

definition adjugate :: "Matrix4 \<Rightarrow> Matrix4" where
  "adjugate t =
     (let n11 = e0 t; n21 = e1 t; n31 = e2 t; n41 = e3 t;
          n12 = e4 t; n22 = e5 t; n32 = e6 t; n42 = e7 t;
          n13 = e8 t; n23 = e9 t; n33 = e10 t; n43 = e11 t;
          n14 = e12 t; n24 = e13 t; n34 = e14 t; n44 = e15 t
      in Matrix4
          (n23 * n34 * n42 - n24 * n33 * n42 + n24 * n32 * n43
              - n22 * n34 * n43 - n23 * n32 * n44 + n22 * n33 * n44)
          ((n24 * n33 * n41 - n23 * n34 * n41 - n24 * n31 * n43
            + n21 * n34 * n43 + n23 * n31 * n44 - n21 * n33 * n44))
          ((n22 * n34 * n41 - n24 * n32 * n41 + n24 * n31 * n42
            - n21 * n34 * n42 - n22 * n31 * n44 + n21 * n32 * n44))
          ((n23 * n32 * n41 - n22 * n33 * n41 - n23 * n31 * n42
            + n21 * n33 * n42 + n22 * n31 * n43 - n21 * n32 * n43))
          (n14 * n33 * n42 - n13 * n34 * n42 - n14 * n32 * n43
              + n12 * n34 * n43 + n13 * n32 * n44 - n12 * n33 * n44)
          ((n13 * n34 * n41 - n14 * n33 * n41 + n14 * n31 * n43
            - n11 * n34 * n43 - n13 * n31 * n44 + n11 * n33 * n44))
          ((n14 * n32 * n41 - n12 * n34 * n41 - n14 * n31 * n42
            + n11 * n34 * n42 + n12 * n31 * n44 - n11 * n32 * n44))
          ((n12 * n33 * n41 - n13 * n32 * n41 + n13 * n31 * n42
            - n11 * n33 * n42 - n12 * n31 * n43 + n11 * n32 * n43))
          (n13 * n24 * n42 - n14 * n23 * n42 + n14 * n22 * n43
              - n12 * n24 * n43 - n13 * n22 * n44 + n12 * n23 * n44)
          ((n14 * n23 * n41 - n13 * n24 * n41 - n14 * n21 * n43
            + n11 * n24 * n43 + n13 * n21 * n44 - n11 * n23 * n44))
          ((n12 * n24 * n41 - n14 * n22 * n41 + n14 * n21 * n42
            - n11 * n24 * n42 - n12 * n21 * n44 + n11 * n22 * n44))
          ((n13 * n22 * n41 - n12 * n23 * n41 - n13 * n21 * n42
            + n11 * n23 * n42 + n12 * n21 * n43 - n11 * n22 * n43))
          (n14 * n23 * n32 - n13 * n24 * n32 - n14 * n22 * n33
              + n12 * n24 * n33 + n13 * n22 * n34 - n12 * n23 * n34)
          ((n13 * n24 * n31 - n14 * n23 * n31 + n14 * n21 * n33
            - n11 * n24 * n33 - n13 * n21 * n34 + n11 * n23 * n34))
          ((n14 * n22 * n31 - n12 * n24 * n31 - n14 * n21 * n32
            + n11 * n24 * n32 + n12 * n21 * n34 - n11 * n22 * n34))
          ((n12 * n23 * n31 - n13 * n22 * n31 + n13 * n21 * n32
            - n11 * n23 * n32 - n12 * n21 * n33 + n11 * n22 * n33)))"

definition scale4 :: "real \<Rightarrow> Matrix4 \<Rightarrow> Matrix4" where
  "scale4 c a = Matrix4 (e0 a * c) (e1 a * c) (e2 a * c) (e3 a * c) (e4 a * c) (e5 a * c) (e6 a * c) (e7 a * c)
     (e8 a * c) (e9 a * c) (e10 a * c) (e11 a * c) (e12 a * c) (e13 a * c) (e14 a * c) (e15 a * c)"

definition hom :: "Matrix4 \<Rightarrow> real \<Rightarrow> real \<Rightarrow> real \<Rightarrow> real \<Rightarrow> real \<times> real \<times> real \<times> real" where
  "hom t x y z w = (e0 t * x + e4 t * y + e8 t * z + e12 t * w,
                    e1 t * x + e5 t * y + e9 t * z + e13 t * w,
                    e2 t * x + e6 t * y + e10 t * z + e14 t * w,
                    e3 t * x + e7 t * y + e11 t * z + e15 t * w)"

section \<open>The seam-repair pipeline (seamSmoothing.ts)\<close>

text \<open>
  Inside the pipeline the mesh is a list of vertex positions and a list of faces, a
  face being a triple of vertex indices.  The string keys \<open>"a_b"\<close> of the source's
  edge maps are pairs (smaller index first), and a JavaScript \<open>Map\<close> or \<open>Set\<close> whose
  iteration order the code relies on is an association list or a list in insertion
  order.
\<close>

type_synonym face = "nat \<times> nat \<times> nat"

type_synonym edge_key = "nat \<times> nat"

definition edge_key :: "nat \<Rightarrow> nat \<Rightarrow> edge_key" where
  "edge_key a b = (min a b, max a b)"

text \<open>The three directed edges \<open>[[i0, i1], [i1, i2], [i2, i0]]\<close> of a face.\<close>

definition face_edges :: "face \<Rightarrow> (nat \<times> nat) list" where
  "face_edges f = (case f of (i0, i1, i2) \<Rightarrow> [(i0, i1), (i1, i2), (i2, i0)])"

record SmoothingOptions =
  strength :: real
  iterations :: real
  radius :: real

definition DEFAULT_OPTIONS :: SmoothingOptions where
  "DEFAULT_OPTIONS = \<lparr>strength = 8 / 10, iterations = 0, radius = 2 / 100\<rparr>"

text \<open>\<open>Partial<SmoothingOptions>\<close>: every field may be absent.\<close>

record PartialOptions =
  strength_opt :: "real option"
  iterations_opt :: "real option"
  radius_opt :: "real option"

text \<open>\<open>{ ...DEFAULT_OPTIONS, ...options }\<close>\<close>

definition merge_options :: "PartialOptions option \<Rightarrow> SmoothingOptions" where
  "merge_options options =
     (case options of
        None \<Rightarrow> DEFAULT_OPTIONS
      | Some opts \<Rightarrow>
          \<lparr>strength = (case strength_opt opts of None \<Rightarrow> strength DEFAULT_OPTIONS | Some v \<Rightarrow> v),
           iterations = (case iterations_opt opts of None \<Rightarrow> iterations DEFAULT_OPTIONS | Some v \<Rightarrow> v),
           radius = (case radius_opt opts of None \<Rightarrow> radius DEFAULT_OPTIONS | Some v \<Rightarrow> v)\<rparr>)"

datatype SeamSegment = SeamSegment (p0: Vector3) (p1: Vector3)

subsection \<open>Distances and weights\<close>

definition pointToSegmentDistance ::
  "real \<Rightarrow> real \<Rightarrow> real \<Rightarrow> real \<Rightarrow> real \<Rightarrow> real \<Rightarrow> real \<Rightarrow> real \<Rightarrow> real \<Rightarrow> real" where
  "pointToSegmentDistance px py pz s0x s0y s0z s1x s1y s1z =
     (let abx = s1x - s0x; aby = s1y - s0y; abz = s1z - s0z;
          apx = px - s0x; apy = py - s0y; apz = pz - s0z;
          abLenSq = abx * abx + aby * aby + abz * abz
      in if abLenSq < 1 / 10 ^ 12 then sqrt (apx * apx + apy * apy + apz * apz)
         else
           let t = max 0 (min 1 ((apx * abx + apy * aby + apz * abz) / abLenSq));
               cx = s0x + t * abx - px;
               cy = s0y + t * aby - py;
               cz = s0z + t * abz - pz
           in sqrt (cx * cx + cy * cy + cz * cz))"

definition segmentDistance :: "Vector3 \<Rightarrow> SeamSegment \<Rightarrow> real" where
  "segmentDistance p seg =
     pointToSegmentDistance (vx p) (vy p) (vz p)
       (vx (p0 seg)) (vy (p0 seg)) (vz (p0 seg)) (vx (p1 seg)) (vy (p1 seg)) (vz (p1 seg))"

text \<open>\<open>Box3.expandByScalar\<close> and \<open>Box3.containsPoint\<close>.\<close>

definition expandByScalar :: "real \<Rightarrow> Box3 \<Rightarrow> Box3" where
  "expandByScalar s b =
     Box3 (Vector3 (vx (bmin b) - s) (vy (bmin b) - s) (vz (bmin b) - s))
          (Vector3 (vx (bmax b) + s) (vy (bmax b) + s) (vz (bmax b) + s))"

definition containsPoint :: "Box3 \<Rightarrow> Vector3 \<Rightarrow> bool" where
  "containsPoint b p \<longleftrightarrow>
     vx (bmin b) \<le> vx p \<and> vx p \<le> vx (bmax b) \<and>
     vy (bmin b) \<le> vy p \<and> vy p \<le> vy (bmax b) \<and>
     vz (bmin b) \<le> vz p \<and> vz p \<le> vz (bmax b)"

text \<open>
  A distance of the distance field is a real or \<open>Infinity\<close> (\<open>None\<close>).  The inner loop
  of \<open>computeDistanceField\<close> keeps the running minimum and leaves as soon as it is
  below \<open>1e-8\<close>.
\<close>

fun minSegmentDistance :: "Vector3 \<Rightarrow> SeamSegment list \<Rightarrow> real option \<Rightarrow> real option" where
  "minSegmentDistance p [] minD = minD"
| "minSegmentDistance p (seg # segs) minD =
     (let d = segmentDistance p seg;
          minD' = (case minD of None \<Rightarrow> d | Some m \<Rightarrow> if d < m then d else m)
      in if minD' < 1 / 10 ^ 8 then Some minD' else minSegmentDistance p segs (Some minD'))"

text \<open>
  The box around all seam segments; a box expanded by no point is empty and
  contains nothing (\<open>None\<close>).
\<close>

definition segmentsBox :: "SeamSegment list \<Rightarrow> Box3 option" where
  "segmentsBox segs = setFromBufferAttribute (concat (map (\<lambda>seg. [p0 seg, p1 seg]) segs))"

definition computeDistanceField ::
  "Vector3 list \<Rightarrow> nat \<Rightarrow> SeamSegment list \<Rightarrow> real \<Rightarrow> real option list" where
  "computeDistanceField positions vertCount seamSegments maxDistance =
     (let bbox = map_option (expandByScalar maxDistance) (segmentsBox seamSegments)
      in map (\<lambda>vi.
           let p = positions ! vi in
           (case bbox of
              None \<Rightarrow> None
            | Some b \<Rightarrow> if \<not> containsPoint b p then None
                        else minSegmentDistance p seamSegments None))
         [0..<vertCount])"

definition smoothstepWeight :: "real option \<Rightarrow> real \<Rightarrow> real" where
  "smoothstepWeight d r =
     (case d of
        None \<Rightarrow> 0
      | Some d \<Rightarrow> if d \<ge> r then 0 else (let t = 1 - d / r in t * t * (3 - 2 * t)))"

definition computeSmoothstepWeights :: "real option list \<Rightarrow> real \<Rightarrow> nat \<Rightarrow> real list" where
  "computeSmoothstepWeights distField r vertCount =
     map (\<lambda>i. smoothstepWeight (distField ! i) r) [0..<vertCount]"

subsection \<open>Adjacency and the Laplacian step\<close>

text \<open>\<open>Set.add\<close> on a set kept in insertion order.\<close>

definition set_add :: "'a \<Rightarrow> 'a list \<Rightarrow> 'a list" where
  "set_add x xs = (if x \<in> set xs then xs else xs @ [x])"

definition adj_add :: "nat \<Rightarrow> nat \<Rightarrow> nat list list \<Rightarrow> nat list list" where
  "adj_add a b adj = adj[a := set_add b (adj ! a)]"

definition buildAdjacency :: "face list \<Rightarrow> nat \<Rightarrow> nat list list" where
  "buildAdjacency indices vertCount =
     fold (\<lambda>(a, b, c) adj.
             adj_add c b (adj_add c a (adj_add b c (adj_add b a (adj_add a c (adj_add a b adj))))))
          indices (replicate vertCount [])"

text \<open>
  \<open>applyLaplacianStep\<close> reads the copy \<open>prev\<close> and writes vertex \<open>vi\<close> only, so the
  new buffer is computed vertex by vertex from the old one.
\<close>

definition laplacianVertex ::
  "Vector3 list \<Rightarrow> nat list list \<Rightarrow> real list \<Rightarrow> real \<Rightarrow> real \<Rightarrow> nat \<Rightarrow> Vector3" where
  "laplacianVertex prev adjacency weights lambda maxStep vi =
     (let w = weights ! vi in
      if w \<le> 0 then prev ! vi
      else
        let nbrs = adjacency ! vi in
        if nbrs = [] then prev ! vi
        else
          let v = prev ! vi;
              a = fold (\<lambda>ni acc. add_v acc (prev ! ni)) nbrs (Vector3 0 0 0);
              n = real (length nbrs);
              a = divideScalar a n;
              f = w * lambda;
              d = multiplyScalar (sub_v a v) f;
              dispLen = length_v d;
              d = (if dispLen > maxStep then multiplyScalar d (maxStep / dispLen) else d)
          in add_v v d)"

definition applyLaplacianStep ::
  "Vector3 list \<Rightarrow> nat list list \<Rightarrow> real list \<Rightarrow> nat \<Rightarrow> real \<Rightarrow> real \<Rightarrow> Vector3 list" where
  "applyLaplacianStep pos adjacency weights vertCount lambda maxStep =
     map (laplacianVertex pos adjacency weights lambda maxStep) [0..<vertCount]
       @ drop vertCount pos"

subsection \<open>Degenerate and duplicate faces\<close>

text \<open>The canonical key of a face: its three indices in ascending order.\<close>

definition face_key :: "face \<Rightarrow> nat \<times> nat \<times> nat" where
  "face_key f = (case f of (a, b, c) \<Rightarrow>
     (let s0 = min a (min b c); s2 = max a (max b c); s1 = a + b + c - s0 - s2
      in (s0, s1, s2)))"

definition repeated_index :: "face \<Rightarrow> bool" where
  "repeated_index f = (case f of (a, b, c) \<Rightarrow> a = b \<or> b = c \<or> a = c)"

fun removeDegenerate_loop :: "face list \<Rightarrow> (nat \<times> nat \<times> nat) list \<Rightarrow> face list" where
  "removeDegenerate_loop [] seen = []"
| "removeDegenerate_loop (f # fs) seen =
     (if repeated_index f then removeDegenerate_loop fs seen
      else if face_key f \<in> set seen then removeDegenerate_loop fs seen
      else f # removeDegenerate_loop fs (face_key f # seen))"

definition removeDegenerateFaces :: "face list \<Rightarrow> face list" where
  "removeDegenerateFaces indices = removeDegenerate_loop indices []"

subsection \<open>Edge splitting in the fillet zone\<close>

text \<open>
  \<open>Map.get\<close>, \<open>Map.has\<close> and \<open>Map.set\<close> on a map kept as an association list in
  insertion order: setting an existing key replaces its value in place, a new key
  goes to the end.
\<close>

definition map_set :: "'k \<Rightarrow> 'v \<Rightarrow> ('k \<times> 'v) list \<Rightarrow> ('k \<times> 'v) list" where
  "map_set k v m =
     (if k \<in> fst ` set m then map (\<lambda>(k', v'). if k' = k then (k', v) else (k', v')) m
      else m @ [(k, v)])"

text \<open>
  The state of one splitting pass while it creates midpoints: the position buffer
  (it only grows), the seam vertices and the map from split edge to midpoint.
\<close>

record SplitState =
  positions :: "Vector3 list"
  seamVerts :: "nat list"
  edgeMidpoints :: "(edge_key \<times> nat) list"

definition distance_v :: "Vector3 \<Rightarrow> Vector3 \<Rightarrow> real" where
  "distance_v a b = length_v (sub_v b a)"

definition midpoint :: "Vector3 \<Rightarrow> Vector3 \<Rightarrow> Vector3" where
  "midpoint a b = Vector3 ((vx a + vx b) / 2) ((vy a + vy b) / 2) ((vz a + vz b) / 2)"

text \<open>
  \<open>nearSeam[vi]\<close>: some seam segment is closer than the split zone.  An index past the
  end of the typed array reads \<open>undefined\<close>, which counts as false.
\<close>

definition computeNearSeam :: "Vector3 list \<Rightarrow> SeamSegment list \<Rightarrow> real \<Rightarrow> bool list" where
  "computeNearSeam ps seamSegments splitZone =
     map (\<lambda>p. \<exists>seg \<in> set seamSegments. segmentDistance p seg < splitZone) ps"

definition isNear :: "bool list \<Rightarrow> nat \<Rightarrow> bool" where
  "isNear nearSeam a \<longleftrightarrow> a < length nearSeam \<and> nearSeam ! a"

text \<open>
  The inner loop over the three edges of one face.  \<open>continue\<close> goes on with the next
  edge; the \<open>break\<close> at the vertex cap leaves the loop over the edges of this face.
\<close>

fun splitFaceEdges ::
  "bool list \<Rightarrow> real \<Rightarrow> nat \<Rightarrow> (nat \<times> nat) list \<Rightarrow> SplitState \<Rightarrow> SplitState" where
  "splitFaceEdges nearSeam targetLength maxVertCount [] st = st"
| "splitFaceEdges nearSeam targetLength maxVertCount ((a, b) # es) st =
     (if \<not> isNear nearSeam a \<and> \<not> isNear nearSeam b
        then splitFaceEdges nearSeam targetLength maxVertCount es st
      else if edge_key a b \<in> fst ` set (edgeMidpoints st)
        then splitFaceEdges nearSeam targetLength maxVertCount es st
      else if distance_v (positions st ! a) (positions st ! b) \<le> targetLength
        then splitFaceEdges nearSeam targetLength maxVertCount es st
      else if length (positions st) \<ge> maxVertCount
        then st
      else
        let midIdx = length (positions st);
            st = st\<lparr>positions := positions st @ [midpoint (positions st ! a) (positions st ! b)],
                    edgeMidpoints := map_set (edge_key a b) midIdx (edgeMidpoints st)\<rparr>;
            st = (if a \<in> set (seamVerts st) \<and> b \<in> set (seamVerts st)
                  then st\<lparr>seamVerts := set_add midIdx (seamVerts st)\<rparr> else st)
        in splitFaceEdges nearSeam targetLength maxVertCount es st)"

text \<open>The faces that replace one face, by which of its edges were split.\<close>

definition rebuildFace :: "(edge_key \<times> nat) list \<Rightarrow> face \<Rightarrow> face list" where
  "rebuildFace mids f = (case f of (v0, v1, v2) \<Rightarrow>
     (case (map_of mids (edge_key v0 v1), map_of mids (edge_key v1 v2),
            map_of mids (edge_key v2 v0)) of
        (None, None, None) \<Rightarrow> [(v0, v1, v2)]
      | (Some m01, None, None) \<Rightarrow> [(v0, m01, v2), (m01, v1, v2)]
      | (None, Some m12, None) \<Rightarrow> [(v0, v1, m12), (v0, m12, v2)]
      | (None, None, Some m20) \<Rightarrow> [(v0, v1, m20), (m20, v1, v2)]
      | (Some m01, Some m12, None) \<Rightarrow> [(v0, m01, m12), (v0, m12, v2), (m01, v1, m12)]
      | (None, Some m12, Some m20) \<Rightarrow> [(v0, v1, m12), (v0, m12, m20), (m20, m12, v2)]
      | (Some m01, None, Some m20) \<Rightarrow> [(v0, m01, m20), (m01, v1, v2), (m20, m01, v2)]
      | (Some m01, Some m12, Some m20) \<Rightarrow>
          [(v0, m01, m20), (m01, v1, m12), (m20, m12, v2), (m01, m12, m20)]))"

text \<open>
  The mesh between passes, with a record of what the call did: the number of passes
  begun and, for every pass begun, the position buffer at its start and the edges it
  split (the contents of \<open>edgeMidpoints\<close> at its end).
\<close>

record SplitMesh =
  mesh_positions :: "Vector3 list"
  mesh_indices :: "face list"
  mesh_seamVerts :: "nat list"
  passes :: nat
  created :: "(Vector3 list \<times> (edge_key \<times> nat) list) list"

text \<open>
  The loop \<open>for (pass = 0; pass < maxPasses; pass++)\<close>, by the number of passes left.
\<close>

fun splitPasses ::
  "SeamSegment list \<Rightarrow> real \<Rightarrow> real \<Rightarrow> nat \<Rightarrow> nat \<Rightarrow> SplitMesh \<Rightarrow> SplitMesh" where
  "splitPasses seamSegments splitZone targetLength maxVertCount 0 m = m"
| "splitPasses seamSegments splitZone targetLength maxVertCount (Suc left) m =
     (if length (mesh_positions m) \<ge> maxVertCount then m
      else
        let m = m\<lparr>passes := Suc (passes m)\<rparr>;
            nearSeam = computeNearSeam (mesh_positions m) seamSegments splitZone;
            st = fold (\<lambda>f. splitFaceEdges nearSeam targetLength maxVertCount (face_edges f))
                   (mesh_indices m)
                   \<lparr>positions = mesh_positions m, seamVerts = mesh_seamVerts m,
                    edgeMidpoints = []\<rparr>;
            m = m\<lparr>created := created m @ [(mesh_positions m, edgeMidpoints st)]\<rparr>
        in if edgeMidpoints st = [] then m
           else splitPasses seamSegments splitZone targetLength maxVertCount left
                  (m\<lparr>mesh_positions := positions st,
                     mesh_indices := concat (map (rebuildFace (edgeMidpoints st)) (mesh_indices m)),
                     mesh_seamVerts := seamVerts st\<rparr>))"

definition splitSeamEdges ::
  "Vector3 list \<Rightarrow> face list \<Rightarrow> nat list \<Rightarrow> SeamSegment list \<Rightarrow> real \<Rightarrow> real \<Rightarrow> nat
     \<Rightarrow> SplitMesh" where
  "splitSeamEdges ps indices seamVs seamSegments rad targetLength maxPasses =
     (let initialVertCount = length ps;
          maxVertCount = initialVertCount * 5;
          splitZone = rad * (12 / 10)
      in splitPasses seamSegments splitZone targetLength maxVertCount maxPasses
           \<lparr>mesh_positions = ps, mesh_indices = indices, mesh_seamVerts = seamVs,
            passes = 0, created = []\<rparr>)"

subsection \<open>Welding boundary vertices\<close>

text \<open>
  \<open>edgeFaceCount\<close>: for every undirected edge, the number of face sides on it, in the
  order in which the edges are first met.
\<close>

definition lookup_count :: "(edge_key \<times> nat) list \<Rightarrow> edge_key \<Rightarrow> nat" where
  "lookup_count m k = (case map_of m k of None \<Rightarrow> 0 | Some c \<Rightarrow> c)"

definition countEdges :: "face list \<Rightarrow> (edge_key \<times> nat) list" where
  "countEdges indices =
     fold (\<lambda>f m. fold (\<lambda>(a, b) m. map_set (edge_key a b) (lookup_count m (edge_key a b) + 1) m)
                     (face_edges f) m)
          indices []"

text \<open>
  The boundary vertices: the end points of the edges with exactly one face, each
  once, in the order met.
\<close>

definition collectBoundaryVerts :: "(edge_key \<times> nat) list \<Rightarrow> nat list" where
  "collectBoundaryVerts edgeFaceCount =
     fold (\<lambda>(key, count) bv.
             if count \<noteq> 1 then bv else set_add (snd key) (set_add (fst key) bv))
          edgeFaceCount []"

text \<open>
  The union-find structure.  The parent map is a function, a vertex that is not a key
  of the source's \<open>Map\<close> being its own parent: \<open>find\<close> enters a missing vertex in this
  way before it reads the map.  \<open>find\<close> halves the path while it walks to the root;
  it is a \<open>while\<close> loop and returns \<open>None\<close> if it does not end.
\<close>

definition find_root :: "(nat \<Rightarrow> nat) \<Rightarrow> nat \<Rightarrow> ((nat \<Rightarrow> nat) \<times> nat) option" where
  "find_root parent x =
     while_option (\<lambda>(p, x). p x \<noteq> x)
                  (\<lambda>(p, x). let p = p(x := p (p x)) in (p, p x))
                  (parent, x)"

definition union_roots :: "(nat \<Rightarrow> nat) \<Rightarrow> nat \<Rightarrow> nat \<Rightarrow> (nat \<Rightarrow> nat) option" where
  "union_roots parent a b =
     do {
       (parent, ra) \<leftarrow> find_root parent a;
       (parent, rb) \<leftarrow> find_root parent b;
       Some (if ra \<noteq> rb then parent(rb := ra) else parent)
     }"

definition distanceSq :: "Vector3 \<Rightarrow> Vector3 \<Rightarrow> real" where
  "distanceSq p q =
     (let dx = vx p - vx q; dy = vy p - vy q; dz = vz p - vz q
      in dx * dx + dy * dy + dz * dz)"

text \<open>The inner loop over \<open>j > i\<close> and the outer loop over \<open>i\<close>.\<close>

fun weldInner ::
  "Vector3 list \<Rightarrow> real \<Rightarrow> nat \<Rightarrow> nat list \<Rightarrow> (nat \<Rightarrow> nat) \<times> nat
     \<Rightarrow> ((nat \<Rightarrow> nat) \<times> nat) option" where
  "weldInner ps tolSq vi [] st = Some st"
| "weldInner ps tolSq vi (vj # rest) (parent, mergeCount) =
     do {
       (parent, ri) \<leftarrow> find_root parent vi;
       (parent, rj) \<leftarrow> find_root parent vj;
       if ri = rj then weldInner ps tolSq vi rest (parent, mergeCount)
       else if distanceSq (ps ! vi) (ps ! vj) < tolSq then
         do {
           parent \<leftarrow> union_roots parent vi vj;
           weldInner ps tolSq vi rest (parent, mergeCount + 1)
         }
       else weldInner ps tolSq vi rest (parent, mergeCount)
     }"

fun weldOuter ::
  "Vector3 list \<Rightarrow> real \<Rightarrow> nat list \<Rightarrow> (nat \<Rightarrow> nat) \<times> nat
     \<Rightarrow> ((nat \<Rightarrow> nat) \<times> nat) option" where
  "weldOuter ps tolSq [] st = Some st"
| "weldOuter ps tolSq (vi # rest) st =
     do {
       st \<leftarrow> weldInner ps tolSq vi rest st;
       weldOuter ps tolSq rest st
     }"

text \<open>
  The last loop replaces every boundary index by its root, index by index (\<open>find\<close>
  goes on compressing paths).
\<close>

definition replaceIndex ::
  "nat list \<Rightarrow> nat \<Rightarrow> (nat \<Rightarrow> nat) \<Rightarrow> ((nat \<Rightarrow> nat) \<times> nat) option" where
  "replaceIndex boundaryVerts v parent =
     (if v \<in> set boundaryVerts then find_root parent v else Some (parent, v))"

fun replaceIndices ::
  "nat list \<Rightarrow> face list \<Rightarrow> (nat \<Rightarrow> nat) \<Rightarrow> face list option" where
  "replaceIndices boundaryVerts [] parent = Some []"
| "replaceIndices boundaryVerts ((a, b, c) # fs) parent =
     do {
       (parent, a') \<leftarrow> replaceIndex boundaryVerts a parent;
       (parent, b') \<leftarrow> replaceIndex boundaryVerts b parent;
       (parent, c') \<leftarrow> replaceIndex boundaryVerts c parent;
       fs' \<leftarrow> replaceIndices boundaryVerts fs parent;
       Some ((a', b', c') # fs')
     }"

text \<open>
  \<open>weldBoundaryVertices\<close> returns whether it merged anything, and the index buffer
  (changed in place in the source).  The position buffer is only read.
\<close>

definition weldBoundaryVertices ::
  "Vector3 list \<Rightarrow> face list \<Rightarrow> real \<Rightarrow> (bool \<times> face list) option" where
  "weldBoundaryVertices ps indices tolerance =
     (let edgeFaceCount = countEdges indices;
          boundaryVerts = collectBoundaryVerts edgeFaceCount
      in if boundaryVerts = [] then Some (False, indices)
         else
           do {
             (parent, mergeCount) \<leftarrow>
                weldOuter ps (tolerance * tolerance) boundaryVerts (\<lambda>x. x, 0);
             if mergeCount = 0 then Some (False, indices)
             else
               do {
                 indices' \<leftarrow> replaceIndices boundaryVerts indices parent;
                 Some (True, indices')
               }
           })"

text \<open>
  The loop \<open>for (pass = 0; pass < 3; pass++) { if (!weld(...)) break; removeDegenerateFaces(...) }\<close>
  of steps 1b and 4b, by the number of passes left.
\<close>

fun weldPasses :: "nat \<Rightarrow> Vector3 list \<Rightarrow> real \<Rightarrow> face list \<Rightarrow> face list option" where
  "weldPasses 0 ps tolerance indices = Some indices"
| "weldPasses (Suc left) ps tolerance indices =
     do {
       (merged, indices) \<leftarrow> weldBoundaryVertices ps indices tolerance;
       if \<not> merged then Some indices
       else weldPasses left ps tolerance (removeDegenerateFaces indices)
     }"

subsection \<open>Closing boundary holes\<close>

text \<open>
  \<open>edgeDirected\<close>: for every edge, the direction in which the first face that
  registers it traverses it.
\<close>

definition directEdges :: "face list \<Rightarrow> (edge_key \<times> nat \<times> nat) list" where
  "directEdges indices =
     fold (\<lambda>f m. fold (\<lambda>(a, b) m.
                            if edge_key a b \<in> fst ` set m then m else m @ [(edge_key a b, (a, b))])
                     (face_edges f) m)
          indices []"

definition boundaryKeys :: "(edge_key \<times> nat) list \<Rightarrow> edge_key list" where
  "boundaryKeys edgeFaceCount = map fst (filter (\<lambda>(key, count). count = 1) edgeFaceCount)"

text \<open>\<open>boundaryAdj.get(v) ?? []\<close>: the neighbours of \<open>v\<close> along boundary edges, in order.\<close>

definition boundaryNeighbours :: "edge_key list \<Rightarrow> nat \<Rightarrow> nat list" where
  "boundaryNeighbours keys v =
     concat (map (\<lambda>(a, b). (if a = v then [b] else []) @ (if b = v then [a] else [])) keys)"

definition pickNextByAngle :: "Vector3 list \<Rightarrow> nat \<Rightarrow> nat \<Rightarrow> nat list \<Rightarrow> nat" where
  "pickNextByAngle pos prev current candidates =
     (let iv = sub_v (pos ! current) (pos ! prev)
      in snd (fold (\<lambda>n (bestDot, best).
                let ov = sub_v (pos ! n) (pos ! current);
                    iLen = length_v iv;
                    oLen = length_v ov
                in if iLen < 1 / 10 ^ 12 \<or> oLen < 1 / 10 ^ 12 then (bestDot, best)
                   else
                     let d = (vx iv * vx ov + vy iv * vy ov + vz iv * vz ov) / (iLen * oLen)
                     in (case bestDot of
                           None \<Rightarrow> (Some d, n)
                         | Some bd \<Rightarrow> if d > bd then (Some d, n) else (bestDot, best)))
              candidates (None, hd candidates)))"

text \<open>
  The walk along unvisited boundary edges, \<open>for (safety = 0; safety < 1000; safety++)\<close>,
  by the number of rounds left.  The result is the loop, the visited edges, the
  vertex the walk stopped at, and whether it came back to its start.
\<close>

fun traceLoop ::
  "Vector3 list \<Rightarrow> edge_key list \<Rightarrow> nat \<Rightarrow> nat \<Rightarrow> nat list \<Rightarrow> edge_key list \<Rightarrow> nat \<Rightarrow> nat
     \<Rightarrow> nat list \<times> edge_key list \<times> nat \<times> bool" where
  "traceLoop pos keys startA 0 loop visitedEdges current prev =
     (loop, visitedEdges, current, False)"
| "traceLoop pos keys startA (Suc safety) loop visitedEdges current prev =
     (if current = startA then (loop, visitedEdges, current, True)
      else
        let loop = loop @ [current] in
        if length loop > 200 then (loop, visitedEdges, current, False)
        else
          let neighbors = boundaryNeighbours keys current;
              candidates = filter (\<lambda>n. edge_key current n \<notin> set visitedEdges) neighbors
          in if candidates = [] then (loop, visitedEdges, current, False)
             else
               let next = (if length candidates = 1 then hd candidates
                           else pickNextByAngle pos prev current candidates)
               in traceLoop pos keys startA safety loop
                    (edge_key current next # visitedEdges) next current)"

text \<open>The loop over the start edges; it collects the accepted loops.\<close>

fun collectLoops ::
  "Vector3 list \<Rightarrow> real \<Rightarrow> edge_key list \<Rightarrow> edge_key list \<Rightarrow> edge_key list \<Rightarrow> nat list list
     \<Rightarrow> nat list list" where
  "collectLoops pos meshScale keys [] visitedEdges loops = loops"
| "collectLoops pos meshScale keys (startKey # rest) visitedEdges loops =
     (if startKey \<in> set visitedEdges then collectLoops pos meshScale keys rest visitedEdges loops
      else
        let startA = fst startKey; startB = snd startKey
        in (case traceLoop pos keys startA 1000 [startA] (startKey # visitedEdges) startB startA of
              (loop, visitedEdges, current, isClosed) \<Rightarrow>
                let nearTolSq = (meshScale * (3 / 1000)) * (meshScale * (3 / 1000));
                    isClosed = (isClosed \<or> (length loop \<ge> 3
                                \<and> distanceSq (pos ! current) (pos ! startA) < nearTolSq))
                in collectLoops pos meshScale keys rest visitedEdges
                     (if isClosed \<and> length loop \<ge> 3 \<and> length loop \<le> 200
                      then loops @ [loop] else loops)))"

definition getWindingFromEdge ::
  "nat \<Rightarrow> nat \<Rightarrow> nat \<Rightarrow> (edge_key \<times> nat \<times> nat) list \<Rightarrow> face" where
  "getWindingFromEdge a b third edgeDirected =
     (case map_of edgeDirected (edge_key a b) of
        Some dir \<Rightarrow> if fst dir = a \<and> snd dir = b then (b, a, third) else (a, b, third)
      | None \<Rightarrow> (a, b, third))"

text \<open>
  Filling one loop: a loop of three vertices becomes one face; a longer loop gets a
  new centroid vertex and a fan of faces.  The state is the index buffer and the
  extra positions.
\<close>

definition vertexAt :: "Vector3 list \<Rightarrow> Vector3 list \<Rightarrow> nat \<Rightarrow> Vector3" where
  "vertexAt pos extraPositions vi =
     (if vi < length pos then pos ! vi else extraPositions ! (vi - length pos))"

definition fillLoop ::
  "Vector3 list \<Rightarrow> (edge_key \<times> nat \<times> nat) list \<Rightarrow> nat list \<Rightarrow> face list \<times> Vector3 list
     \<Rightarrow> face list \<times> Vector3 list" where
  "fillLoop pos edgeDirected loop st = (case st of (indices, extraPositions) \<Rightarrow>
     (if length loop = 3
      then (indices @ [getWindingFromEdge (loop ! 0) (loop ! 1) (loop ! 2) edgeDirected],
            extraPositions)
      else
        let c = fold (\<lambda>vi acc. add_v acc (vertexAt pos extraPositions vi)) loop (Vector3 0 0 0);
            c = divideScalar c (real (length loop));
            centroidIdx = length pos + length extraPositions
        in (indices @ map (\<lambda>i. getWindingFromEdge (loop ! i) (loop ! ((i + 1) mod length loop))
                                  centroidIdx edgeDirected)
                          [0..<length loop],
            extraPositions @ [c])))"

text \<open>
  \<open>findAdjacentFaceNormal\<close>: the unit normal of the first original face that shares
  an edge with the fill face and has a normal of length at least \<open>1e-12\<close>.
\<close>

definition faceNormal :: "Vector3 list \<Rightarrow> face \<Rightarrow> Vector3" where
  "faceNormal pos f = (case f of (i0, i1, i2) \<Rightarrow>
     cross (sub_v (pos ! i1) (pos ! i0)) (sub_v (pos ! i2) (pos ! i0)))"

fun firstFaceWithEdge :: "Vector3 list \<Rightarrow> edge_key \<Rightarrow> face list \<Rightarrow> Vector3 option" where
  "firstFaceWithEdge pos eKey [] = None"
| "firstFaceWithEdge pos eKey (f # fs) =
     (if \<not> (\<exists>(a, b) \<in> set (face_edges f). edge_key a b = eKey)
        then firstFaceWithEdge pos eKey fs
      else
        let n = faceNormal pos f; len = length_v n
        in if len < 1 / 10 ^ 12 then firstFaceWithEdge pos eKey fs
           else Some (divideScalar n len))"

fun findAdjacentFaceNormal_edges ::
  "Vector3 list \<Rightarrow> face list \<Rightarrow> (nat \<times> nat) list \<Rightarrow> Vector3 option" where
  "findAdjacentFaceNormal_edges pos originalFaces [] = None"
| "findAdjacentFaceNormal_edges pos originalFaces ((ea, eb) # es) =
     (case firstFaceWithEdge pos (edge_key ea eb) originalFaces of
        Some n \<Rightarrow> Some n
      | None \<Rightarrow> findAdjacentFaceNormal_edges pos originalFaces es)"

definition findAdjacentFaceNormal :: "Vector3 list \<Rightarrow> face list \<Rightarrow> face \<Rightarrow> Vector3 option" where
  "findAdjacentFaceNormal pos originalFaces f =
     findAdjacentFaceNormal_edges pos originalFaces (face_edges f)"

definition dot_v :: "Vector3 \<Rightarrow> Vector3 \<Rightarrow> real" where
  "dot_v a b = vx a * vx b + vy a * vy b + vz a * vz b"

text \<open>The winding check of one fill face: it is flipped when its normal disagrees.\<close>

definition validateFillFace :: "Vector3 list \<Rightarrow> face list \<Rightarrow> face \<Rightarrow> face" where
  "validateFillFace finalPos originalFaces f = (case f of (ia, ib, ic) \<Rightarrow>
     (let fillN = cross (sub_v (finalPos ! ib) (finalPos ! ia))
                        (sub_v (finalPos ! ic) (finalPos ! ia))
      in case findAdjacentFaceNormal finalPos originalFaces f of
           None \<Rightarrow> f
         | Some adjNormal \<Rightarrow> if dot_v fillN adjNormal < 0 then (ia, ic, ib) else f))"

text \<open>
  \<open>closeBoundaryHoles\<close> returns the final position buffer and the index buffer
  (extended in place in the source).
\<close>

definition closeBoundaryHoles ::
  "Vector3 list \<Rightarrow> face list \<Rightarrow> real \<Rightarrow> Vector3 list \<times> face list" where
  "closeBoundaryHoles pos indices meshScale =
     (let edgeFaceCount = countEdges indices;
          edgeDirected = directEdges indices;
          boundaryEdgeKeys = boundaryKeys edgeFaceCount
      in if boundaryEdgeKeys = [] then (pos, indices)
         else
           let loops = collectLoops pos meshScale boundaryEdgeKeys boundaryEdgeKeys [] []
           in if loops = [] then (pos, indices)
              else
                (case fold (fillLoop pos edgeDirected) loops (indices, []) of
                   (filled, extraPositions) \<Rightarrow>
                     let finalPos = pos @ extraPositions;
                         originalFaceCount = length indices
                     in (finalPos,
                         take originalFaceCount filled
                           @ map (validateFillFace finalPos (take originalFaceCount filled))
                               (drop originalFaceCount filled))))"

subsection \<open>Seam detection\<close>

text \<open>
  \<open>edgeMap\<close>: for every undirected edge the faces on it, in the order in which the
  edges are first met.
\<close>

definition edgeFaces :: "face list \<Rightarrow> (edge_key \<times> nat list) list" where
  "edgeFaces indices =
     fold (\<lambda>(f, face) m.
             fold (\<lambda>(a, b) m.
                     map_set (edge_key a b)
                       ((case map_of m (edge_key a b) of None \<Rightarrow> [] | Some fs \<Rightarrow> fs) @ [f]) m)
                  (face_edges face) m)
          (zip [0..<length indices] indices) []"

definition ANGLE_THRESHOLD :: real where
  "ANGLE_THRESHOLD = 25 * (pi / 180)"

definition clamp :: "real \<Rightarrow> real \<Rightarrow> real \<Rightarrow> real" where
  "clamp v lo hi = max lo (min hi v)"

definition sharpVertices :: "Vector3 list \<Rightarrow> face list \<Rightarrow> nat list" where
  "sharpVertices ps indices =
     (let faceNormals = map (\<lambda>f. normalize (faceNormal ps f)) indices
      in fold (\<lambda>(key, faces) sharpVerts.
                 if length faces \<noteq> 2 then set_add (snd key) (set_add (fst key) sharpVerts)
                 else
                   let d = clamp (dot_v (faceNormals ! (faces ! 0)) (faceNormals ! (faces ! 1)))
                                 (- 1) 1
                   in if arccos d > ANGLE_THRESHOLD
                      then set_add (snd key) (set_add (fst key) sharpVerts)
                      else sharpVerts)
              (edgeFaces indices) [])"

text \<open>
  The triangles of the tool mesh.  Reading a vertex of a geometry without position
  attribute throws a \<open>TypeError\<close>; a geometry with an empty index buffer has no
  triangle to read.
\<close>

datatype Tri3 = Tri3 (ta: Vector3) (tb: Vector3) (tc: Vector3)

definition buildTriangleList :: "BufferGeometry \<Rightarrow> error + Tri3 list" where
  "buildTriangleList geo =
     (case position geo of
        None \<Rightarrow> (if index geo = Some [] then Inr [] else Inl TypeError)
      | Some p \<Rightarrow>
          Inr (map (\<lambda>(a, b, c). Tri3 (p ! a) (p ! b) (p ! c))
                 (case index geo of Some idx \<Rightarrow> idx | None \<Rightarrow> chunk3 0 (length p div 3))))"

definition addScaledVector :: "Vector3 \<Rightarrow> Vector3 \<Rightarrow> real \<Rightarrow> Vector3" where
  "addScaledVector a v s = add_v a (multiplyScalar v s)"

definition closestPtOnTri :: "Vector3 \<Rightarrow> Vector3 \<Rightarrow> Vector3 \<Rightarrow> Vector3 \<Rightarrow> Vector3" where
  "closestPtOnTri p a b c =
     (let ab = sub_v b a; ac = sub_v c a; ap = sub_v p a;
          d1 = dot_v ab ap; d2 = dot_v ac ap
      in if d1 \<le> 0 \<and> d2 \<le> 0 then a
         else
           let bp = sub_v p b; d3 = dot_v ab bp; d4 = dot_v ac bp
           in if d3 \<ge> 0 \<and> d4 \<le> d3 then b
              else
                let cp = sub_v p c; d5 = dot_v ab cp; d6 = dot_v ac cp
                in if d6 \<ge> 0 \<and> d5 \<le> d6 then c
                   else
                     let vc = d1 * d4 - d3 * d2
                     in if vc \<le> 0 \<and> d1 \<ge> 0 \<and> d3 \<le> 0
                        then addScaledVector a ab (d1 / (d1 - d3))
                        else
                          let vb = d5 * d2 - d1 * d6
                          in if vb \<le> 0 \<and> d2 \<ge> 0 \<and> d6 \<le> 0
                             then addScaledVector a ac (d2 / (d2 - d6))
                             else
                               let va = d3 * d6 - d5 * d4
                               in if va \<le> 0 \<and> (d4 - d3) \<ge> 0 \<and> (d5 - d6) \<ge> 0
                                  then addScaledVector b (sub_v c b)
                                         ((d4 - d3) / ((d4 - d3) + (d5 - d6)))
                                  else
                                    let den = 1 / (va + vb + vc)
                                    in addScaledVector (addScaledVector a ab (vb * den))
                                         ac (vc * den))"

definition pointNearAnyTriangle :: "Vector3 \<Rightarrow> Tri3 list \<Rightarrow> real \<Rightarrow> bool" where
  "pointNearAnyTriangle pt tris tol \<longleftrightarrow>
     (\<exists>t \<in> set tris. distanceSq pt (closestPtOnTri pt (ta t) (tb t) (tc t)) \<le> tol * tol)"

text \<open>
  \<open>findSeamVertices\<close>: the sharp vertices near the tool surface, or all sharp vertices
  when none of them is near.  The tool's bounding box is empty (\<open>None\<close>) for a tool
  without vertices and then contains no point.
\<close>

definition findSeamVertices ::
  "Vector3 list \<Rightarrow> face list \<Rightarrow> BufferGeometry \<Rightarrow> error + nat list" where
  "findSeamVertices ps indices toolGeometry =
     (let sharpVerts = sharpVertices ps indices
      in if sharpVerts = [] then Inr sharpVerts
         else
           (case buildTriangleList toolGeometry of
              Inl e \<Rightarrow> Inl e
            | Inr toolTris \<Rightarrow>
                let toolBBox = map_option (expandByScalar (3 / 100))
                      (case position toolGeometry of
                         None \<Rightarrow> None | Some tp \<Rightarrow> setFromBufferAttribute tp);
                    seamVs = filter (\<lambda>vi.
                               (case toolBBox of
                                  None \<Rightarrow> False
                                | Some b \<Rightarrow> containsPoint b (ps ! vi)
                                     \<and> pointNearAnyTriangle (ps ! vi) toolTris (15 / 1000)))
                             sharpVerts
                in Inr (if seamVs \<noteq> [] then seamVs else sharpVerts)))"

definition collectSeamEdgeSegments ::
  "Vector3 list \<Rightarrow> face list \<Rightarrow> nat list \<Rightarrow> SeamSegment list" where
  "collectSeamEdgeSegments ps indices seamVs =
     snd (fold (\<lambda>f st.
            fold (\<lambda>(a, b) (seen, segments).
                    if a \<notin> set seamVs \<or> b \<notin> set seamVs then (seen, segments)
                    else if edge_key a b \<in> set seen then (seen, segments)
                    else (edge_key a b # seen, segments @ [SeamSegment (ps ! a) (ps ! b)]))
                 (face_edges f) st)
          indices ([], []))"

subsection \<open>Merging coincident vertices (three.js BufferGeometryUtils)\<close>

text \<open>
  \<open>mergeVertices\<close> of the three.js add-ons, on a geometry whose only attribute is the
  position.  Every vertex reference (of the index buffer, or every vertex in turn) is
  hashed by its coordinates divided by the tolerance, shifted by one half and
  truncated towards zero; a reference whose hash was met before is replaced by the
  first vertex with that hash.  The result is always indexed.
\<close>

definition trunc :: "real \<Rightarrow> int" where
  "trunc x = (if x \<ge> 0 then \<lfloor>x\<rfloor> else \<lceil>x\<rceil>)"

definition vertexHash :: "real \<Rightarrow> Vector3 \<Rightarrow> int \<times> int \<times> int" where
  "vertexHash tolerance v =
     (trunc (vx v * (1 / tolerance) + 1 / 2), trunc (vy v * (1 / tolerance) + 1 / 2),
      trunc (vz v * (1 / tolerance) + 1 / 2))"

fun triples :: "nat list \<Rightarrow> face list" where
  "triples (a # b # c # rest) = (a, b, c) # triples rest"
| "triples _ = []"

definition flatten :: "face list \<Rightarrow> nat list" where
  "flatten fs = concat (map (\<lambda>(a, b, c). [a, b, c]) fs)"

definition mergeVertices :: "BufferGeometry \<Rightarrow> real \<Rightarrow> error + BufferGeometry" where
  "mergeVertices g tolerance =
     (let tolerance = max tolerance (1 / 2 ^ 52) in
      case position g of
        None \<Rightarrow>
          (case index g of
             None \<Rightarrow> Inl TypeError
           | Some fs \<Rightarrow> Inr (g\<lparr>index := Some (triples (map (\<lambda>_. 0) (flatten fs)))\<rparr>))
      | Some ps \<Rightarrow>
          let refs = (case index g of Some fs \<Rightarrow> flatten fs | None \<Rightarrow> [0..<length ps]);
              (hashToIndex, newPositions, newIndices) =
                fold (\<lambda>i (hashToIndex, newPositions, newIndices).
                        let h = vertexHash tolerance (ps ! i)
                        in (case map_of hashToIndex h of
                              Some j \<Rightarrow> (hashToIndex, newPositions, newIndices @ [j])
                            | None \<Rightarrow> (hashToIndex @ [(h, length newPositions)],
                                        newPositions @ [ps ! i],
                                        newIndices @ [length newPositions])))
                     refs ([], [], [])
          in Inr (g\<lparr>position := Some newPositions, index := Some (triples newIndices)\<rparr>))"

subsection \<open>The pipeline\<close>

text \<open>
  Step 8b: faces with a repeated index, faces whose vertex set was met before and
  faces whose squared doubled area is at most \<open>1e-10\<close> are dropped.  The key of a
  face enters \<open>seen\<close> before its area is tested.
\<close>

definition AREA_SQ_THRESHOLD :: real where
  "AREA_SQ_THRESHOLD = 1 / 10 ^ 10"

fun cleanupFaces :: "Vector3 list \<Rightarrow> face list \<Rightarrow> (nat \<times> nat \<times> nat) list \<Rightarrow> face list" where
  "cleanupFaces pos [] seen = []"
| "cleanupFaces pos (f # fs) seen =
     (if repeated_index f then cleanupFaces pos fs seen
      else if face_key f \<in> set seen then cleanupFaces pos fs seen
      else
        let c = faceNormal pos f
        in if vx c * vx c + vy c * vy c + vz c * vz c \<le> AREA_SQ_THRESHOLD
           then cleanupFaces pos fs (face_key f # seen)
           else f # cleanupFaces pos fs (face_key f # seen))"

text \<open>
  The number of rounds of \<open>for (iter = 0; iter < numIterations; iter++)\<close> for a
  number that need not be whole.
\<close>

definition rounds :: "real \<Rightarrow> nat" where
  "rounds numIterations = nat \<lceil>numIterations\<rceil>"

text \<open>Steps 5 to 8: the weights and the Laplacian iterations.\<close>

definition smoothingWeights ::
  "Vector3 list \<Rightarrow> SeamSegment list \<Rightarrow> SmoothingOptions \<Rightarrow> real list" where
  "smoothingWeights ps seamSegments opts =
     (let vertCount = length ps;
          distField = computeDistanceField ps vertCount seamSegments (radius opts * (13 / 10))
      in computeSmoothstepWeights distField (radius opts) vertCount)"

definition laplacianSmoothing ::
  "Vector3 list \<Rightarrow> face list \<Rightarrow> SeamSegment list \<Rightarrow> SmoothingOptions \<Rightarrow> real \<Rightarrow> Vector3 list" where
  "laplacianSmoothing ps indices seamSegments opts targetLength =
     (let vertCount = length ps;
          adjacency = buildAdjacency indices vertCount;
          weights = smoothingWeights ps seamSegments opts;
          numIterations = (if iterations opts > 0 then iterations opts
                           else max 20 (min 150 (real_of_int \<lfloor>radius opts * 120\<rfloor>)));
          lambda = 4 / 10 + (4 / 10) * strength opts;
          maxStep = targetLength * (4 / 10)
      in ((\<lambda>pos. applyLaplacianStep pos adjacency weights vertCount lambda maxStep)
            ^^ rounds numIterations) ps)"

text \<open>
  Step 4, the main fillet-zone call of \<open>splitSeamEdges\<close>: the split zone follows the
  fillet radius, the target length is \<open>max(radius / 12, 0.003)\<close>, and at most 8
  passes are made.
\<close>

definition filletTargetLength :: "SmoothingOptions \<Rightarrow> real" where
  "filletTargetLength opts = max (radius opts / 12) (3 / 1000)"

definition filletSplit ::
  "Vector3 list \<Rightarrow> face list \<Rightarrow> nat list \<Rightarrow> SeamSegment list \<Rightarrow> SmoothingOptions
     \<Rightarrow> SplitMesh" where
  "filletSplit ps indices seamVs seamSegments opts =
     splitSeamEdges ps indices seamVs seamSegments (radius opts) (filletTargetLength opts) 8"

text \<open>
  Steps 1b to 8c on the merged mesh.  The result is \<open>None\<close> if a \<open>find\<close> loop of the
  welding does not end, an error if the tool geometry cannot be read, \<open>Inr None\<close>
  where the source returns a copy of its input early (no seam vertex), and otherwise
  the final position buffer and index buffer, as they are before de-indexing.
\<close>

definition seamRepair ::
  "Vector3 list \<Rightarrow> face list \<Rightarrow> real \<Rightarrow> BufferGeometry \<Rightarrow> SmoothingOptions
     \<Rightarrow> (error + (Vector3 list \<times> face list) option) option" where
  "seamRepair ps indices meshScale toolGeometry opts =
     (let weldTolerance = max (5 / 10000) (meshScale * (3 / 1000)) in
      case weldPasses 3 ps weldTolerance indices of
        None \<Rightarrow> None
      | Some indices \<Rightarrow>
         (case findSeamVertices ps indices toolGeometry of
            Inl e \<Rightarrow> Some (Inl e)
          | Inr seamVs \<Rightarrow>
             if seamVs = [] then Some (Inr None)
             else
               let seamSegments = collectSeamEdgeSegments ps indices seamVs;
                   seamSegments = (if seamSegments = []
                                   then map (\<lambda>vi. SeamSegment (ps ! vi) (ps ! vi)) seamVs
                                   else seamSegments);
                   minSplitRadius = meshScale * (15 / 100)
               in
               (case (if radius opts < minSplitRadius
                      then
                        let bridgeTarget = max (meshScale * (1 / 100)) (5 / 1000);
                            m = splitSeamEdges ps indices seamVs seamSegments minSplitRadius
                                  bridgeTarget 2
                        in map_option (\<lambda>(merged, welded).
                                 (mesh_positions m, removeDegenerateFaces welded, mesh_seamVerts m))
                             (weldBoundaryVertices (mesh_positions m) (mesh_indices m) weldTolerance)
                      else Some (ps, indices, seamVs)) of
                  None \<Rightarrow> None
                | Some (ps, indices, seamVs) \<Rightarrow>
                    let targetLength = filletTargetLength opts;
                        m = filletSplit ps indices seamVs seamSegments opts;
                        ps = mesh_positions m
                    in (case weldPasses 3 ps weldTolerance (mesh_indices m) of
                          None \<Rightarrow> None
                        | Some indices \<Rightarrow>
                            let pos = laplacianSmoothing ps indices seamSegments opts targetLength;
                                indices = cleanupFaces pos indices []
                            in Some (Inr (Some (closeBoundaryHoles pos indices meshScale)))))))"

text \<open>Step 9: the faces become a triangle soup.\<close>

definition deindex :: "Vector3 list \<Rightarrow> face list \<Rightarrow> Vector3 list" where
  "deindex finalPos indices =
     concat (map (\<lambda>(a, b, c). [finalPos ! a, finalPos ! b, finalPos ! c]) indices)"

text \<open>
  \<open>smoothSeam\<close>.  A mesh without vertices has an empty bounding box and a mesh scale
  of minus infinity; the source then merges nothing, finds no sharp vertex and
  returns a copy of its input, which is what the model answers for it at once.  On
  a mesh without position attribute \<open>mergeVertices\<close>, or the read of the merged
  position attribute after it, throws a \<open>TypeError\<close>.
\<close>

definition smoothSeam ::
  "BufferGeometry \<Rightarrow> BufferGeometry \<Rightarrow> PartialOptions option \<Rightarrow> (error + BufferGeometry) option" where
  "smoothSeam resultGeometry toolGeometry options =
     (let opts = merge_options options in
      if strength opts \<le> 0 then Some (Inr (computeVertexNormals (clone resultGeometry)))
      else
        let posOnly = (clone resultGeometry)\<lparr>normal := None, attributes := []\<rparr> in
        case position posOnly of
          None \<Rightarrow> Some (Inl TypeError)
        | Some rawPositions \<Rightarrow>
           (case setFromBufferAttribute rawPositions of
              None \<Rightarrow> Some (Inr (computeVertexNormals (clone resultGeometry)))
            | Some meshBBox \<Rightarrow>
               let meshScale = max (vx (bmax meshBBox) - vx (bmin meshBBox))
                                 (max (vy (bmax meshBBox) - vy (bmin meshBBox))
                                      (vz (bmax meshBBox) - vz (bmin meshBBox)));
                   mergeTolerance = max (1 / 10000) (meshScale * (2 / 10000))
               in
               (case mergeVertices posOnly mergeTolerance of
                  Inl e \<Rightarrow> Some (Inl e)
                | Inr indexed \<Rightarrow>
                   (case (index indexed, position indexed) of
                      (None, _) \<Rightarrow> Some (Inr (computeVertexNormals (clone resultGeometry)))
                    | (Some indexArr, None) \<Rightarrow> Some (Inl TypeError)
                    | (Some indexArr, Some ps) \<Rightarrow>
                       (case seamRepair ps indexArr meshScale toolGeometry opts of
                          None \<Rightarrow> None
                        | Some (Inl e) \<Rightarrow> Some (Inl e)
                        | Some (Inr None) \<Rightarrow>
                            Some (Inr (computeVertexNormals (clone resultGeometry)))
                        | Some (Inr (Some (finalPos, indices))) \<Rightarrow>
                            Some (Inr (computeVertexNormals
                              \<lparr>position = Some (deindex finalPos indices), index = None,
                               normal = None, attributes = []\<rparr>)))))))"

section \<open>Notions used in the statements about edge splitting\<close>

text \<open>Every index of every face is below \<open>n\<close>, the number of vertices.\<close>

definition valid_faces :: "nat \<Rightarrow> face list \<Rightarrow> bool" where
  "valid_faces n fs \<longleftrightarrow> (\<forall>(a, b, c) \<in> set fs. a < n \<and> b < n \<and> c < n)"

text \<open>
  What holds of an entry of \<open>edgeMidpoints\<close> during a pass that began with the position
  buffer \<open>ps0\<close>: the edge joins two vertices of \<open>ps0\<close>, one of them near the seam, it is
  longer than the target length, and its midpoint is a vertex added by this pass.
\<close>

definition split_entry :: "bool list \<Rightarrow> real \<Rightarrow> Vector3 list \<Rightarrow> nat \<Rightarrow> (edge_key \<times> nat) \<Rightarrow> bool" where
  "split_entry nearSeam targetLength ps0 n e \<longleftrightarrow> (case e of ((a, b), mid) \<Rightarrow>
     a < length ps0 \<and> b < length ps0 \<and> (isNear nearSeam a \<or> isNear nearSeam b)
     \<and> targetLength < distance_v (ps0 ! a) (ps0 ! b) \<and> length ps0 \<le> mid \<and> mid < n)"

text \<open>
  The invariant of the loops that create midpoints: the buffer extends \<open>ps0\<close>, stays
  within the cap unless it began above it, and every entry is as above.
\<close>

definition split_inv :: "Vector3 list \<Rightarrow> bool list \<Rightarrow> real \<Rightarrow> nat \<Rightarrow> SplitState \<Rightarrow> bool" where
  "split_inv ps0 nearSeam targetLength maxVertCount st \<longleftrightarrow>
     take (length ps0) (positions st) = ps0 \<and> length ps0 \<le> length (positions st)
     \<and> length (positions st) \<le> max maxVertCount (length ps0)
     \<and> (\<forall>e \<in> set (edgeMidpoints st).
           split_entry nearSeam targetLength ps0 (length (positions st)) e)"

text \<open>The same of a logged pass, with nearness to the seam written out.\<close>

definition pass_entry ::
  "SeamSegment list \<Rightarrow> real \<Rightarrow> real \<Rightarrow> Vector3 list \<times> (edge_key \<times> nat) list \<Rightarrow> bool" where
  "pass_entry segs splitZone targetLength e \<longleftrightarrow> (case e of (ps0, mids) \<Rightarrow>
     \<forall>((a, b), mid) \<in> set mids.
        a < length ps0 \<and> b < length ps0
        \<and> ((\<exists>seg \<in> set segs. segmentDistance (ps0 ! a) seg < splitZone)
           \<or> (\<exists>seg \<in> set segs. segmentDistance (ps0 ! b) seg < splitZone))
        \<and> targetLength < distance_v (ps0 ! a) (ps0 ! b))"

section \<open>Concrete inputs\<close>

text \<open>A one-triangle mesh with bounding box \<open>[0,2] \<times> [0,4] \<times> [0,6]\<close>.\<close>

definition tri_geometry :: BufferGeometry where
  "tri_geometry = \<lparr>position = Some [Vector3 0 0 0, Vector3 2 4 0, Vector3 0 0 6],
                    index = None, normal = None, attributes = []\<rparr>"

text \<open>A geometry without position data.\<close>

definition no_position_geometry :: BufferGeometry where
  "no_position_geometry = \<lparr>position = None, index = None, normal = None, attributes = []\<rparr>"


text \<open>
  Three vertices on the x axis, the second one closer than \<open>epsilon\<close> times the box
  size to the box face \<open>x = 0\<close>.
\<close>

definition near_face_geometry :: BufferGeometry where
  "near_face_geometry =
     \<lparr>position = Some [Vector3 0 0 0, Vector3 (1 / 2000000) 0 0, Vector3 1 0 0],
      index = None, normal = None, attributes = []\<rparr>"


text \<open>
  A mesh with a vertex strictly inside its bounding box \<open>[0,2] \<times> [0,4] \<times> [0,6]\<close>, and
  settings that ask for 171 subdivisions along the length.
\<close>

definition interior_geometry :: BufferGeometry where
  "interior_geometry = \<lparr>position = Some [Vector3 0 0 0, Vector3 2 4 6, Vector3 1 1 1],
                         index = None, normal = None, attributes = []\<rparr>"

definition overflow_settings :: FFDSettings where
  "overflow_settings = \<lparr>lengthSubdivisions = 171, widthSubdivisions = 2, heightSubdivisions = 2\<rparr>"

text \<open>Options that switch the smoothing off: strength 0, radius 0.1.\<close>

definition zero_strength_options :: PartialOptions where
  "zero_strength_options =
     \<lparr>strength_opt = Some 0, iterations_opt = None, radius_opt = Some (1 / 10)\<rparr>"

text \<open>
  A 4-3-5 right triangle whose edge along the x axis is the seam, with options of
  radius 36: the target length is 3 and the split zone 43.2.
\<close>

definition split_positions :: "Vector3 list" where
  "split_positions = [Vector3 0 0 0, Vector3 4 0 0, Vector3 0 3 0]"

definition split_segments :: "SeamSegment list" where
  "split_segments = [SeamSegment (Vector3 0 0 0) (Vector3 4 0 0)]"

definition split_options :: SmoothingOptions where
  "split_options = \<lparr>strength = 1 / 2, iterations = 1, radius = 36\<rparr>"

section \<open>The bounding box and the constructor\<close>

lemma fold_min_Min: "fold (\<lambda>p m. min m (f p)) qs (a::real) = Min (insert a (f ` set qs))"
proof (induction qs arbitrary: a)
  case Nil show ?case by simp
next
  case (Cons q qs)
  have "Min (insert (min a (f q)) (f ` set qs)) = Min (insert a (insert (f q) (f ` set qs)))"
    by (cases "set qs = {}") (simp_all add: min.assoc)
  then show ?case using Cons by simp
qed

lemma fold_max_Max: "fold (\<lambda>p m. max m (f p)) qs (a::real) = Max (insert a (f ` set qs))"
proof (induction qs arbitrary: a)
  case Nil show ?case by simp
next
  case (Cons q qs)
  have "Max (insert (max a (f q)) (f ` set qs)) = Max (insert a (insert (f q) (f ` set qs)))"
    by (cases "set qs = {}") (simp_all add: max.assoc)
  then show ?case using Cons by simp
qed

lemma fold_expand:
  "fold expandByPoint qs b =
     Box3 (Vector3 (fold (\<lambda>p m. min m (vx p)) qs (vx (bmin b)))
                   (fold (\<lambda>p m. min m (vy p)) qs (vy (bmin b)))
                   (fold (\<lambda>p m. min m (vz p)) qs (vz (bmin b))))
          (Vector3 (fold (\<lambda>p m. max m (vx p)) qs (vx (bmax b)))
                   (fold (\<lambda>p m. max m (vy p)) qs (vy (bmax b)))
                   (fold (\<lambda>p m. max m (vz p)) qs (vz (bmax b))))"
  by (induction qs arbitrary: b) (simp_all add: expandByPoint_def)

lemma setFromBufferAttribute_Some:
  assumes "setFromBufferAttribute ps = Some box"
  shows "ps \<noteq> []"
    and "bmin box = Vector3 (Min (vx ` set ps)) (Min (vy ` set ps)) (Min (vz ` set ps))"
    and "bmax box = Vector3 (Max (vx ` set ps)) (Max (vy ` set ps)) (Max (vz ` set ps))"
  using assms
  by (auto simp: setFromBufferAttribute_def fold_expand fold_min_Min fold_max_Max
           split: list.splits)

lemma setFromBufferAttribute_nonempty:
  "ps \<noteq> [] \<Longrightarrow> \<exists>box. setFromBufferAttribute ps = Some box"
  by (cases ps) (auto simp: setFromBufferAttribute_def)

lemma box_not_empty:
  assumes "setFromBufferAttribute ps = Some box"
  shows "\<not> isEmpty box"
proof -
  have ne: "ps \<noteq> []" using assms by (rule setFromBufferAttribute_Some)
  obtain p where p: "p \<in> set ps" using ne by (cases ps) auto
  have "Min (f ` set ps) \<le> Max (f ` set ps)" for f :: "Vector3 \<Rightarrow> real"
  proof -
    have "Min (f ` set ps) \<le> f p" using p by simp
    also have "f p \<le> Max (f ` set ps)" using p by simp
    finally show ?thesis .
  qed
  thus ?thesis using setFromBufferAttribute_Some(2,3)[OF assms]
    by (simp add: isEmpty_def not_less)
qed

lemma subdivisions_ge2: "2 \<le> subdivisions s"
  by (simp add: subdivisions_def split: option.splits)

lemma subdivisions_Some: "subdivisions (Some c) = nat (max 2 c)"
  by (simp add: subdivisions_def)

text \<open>The state the constructor returns, written out.\<close>

lemma construct_Some:
  assumes "position g = Some ps" "setFromBufferAttribute ps = Some box"
  shows "construct g settings = Inr
     \<lparr>controlPoints = map_grid Some (evenGrid (bmin box) (getSize box)
          (subdivisions (map_option lengthSubdivisions settings))
          (subdivisions (map_option heightSubdivisions settings))
          (subdivisions (map_option widthSubdivisions settings))),
      originalControlPoints = Some (map_grid Some (evenGrid (bmin box) (getSize box)
          (subdivisions (map_option lengthSubdivisions settings))
          (subdivisions (map_option heightSubdivisions settings))
          (subdivisions (map_option widthSubdivisions settings)))),
      initialControlPoints = Some (map_grid Some (evenGrid (bmin box) (getSize box)
          (subdivisions (map_option lengthSubdivisions settings))
          (subdivisions (map_option heightSubdivisions settings))
          (subdivisions (map_option widthSubdivisions settings)))),
      bbox = Some box, geometry = map Some ps, originalPositions = ps,
      ffd_l = subdivisions (map_option lengthSubdivisions settings),
      ffd_m = subdivisions (map_option heightSubdivisions settings),
      ffd_n = subdivisions (map_option widthSubdivisions settings),
      size_v = getSize box, currentTransform = identity4, lastDeformedGeometry = None\<rparr>"
  using assms
  by (simp add: construct_def initializeControlPoints_def evenGrid_def map_grid_def boxSize_def
        Let_def comp_def)

section \<open>Matrices: the inverse undoes the transform\<close>

lemma invert_adjugate: "determinant4 t \<noteq> 0 \<Longrightarrow> invert t = scale4 (1 / determinant4 t) (adjugate t)"
  by (simp add: invert_def determinant4_def adjugate_def scale4_def Let_def)

lemma mul_adjugate:
  "hom t (fst (hom (adjugate t) x y z w)) (fst (snd (hom (adjugate t) x y z w)))
         (fst (snd (snd (hom (adjugate t) x y z w)))) (snd (snd (snd (hom (adjugate t) x y z w))))
   = (determinant4 t * x, determinant4 t * y, determinant4 t * z, determinant4 t * w)"
  apply (cases t)
  apply (simp add: hom_def adjugate_def determinant4_def Let_def)
  apply (intro conjI)
  apply (simp add: algebra_simps)
  apply (simp add: algebra_simps)
  apply (simp add: algebra_simps)
  apply (simp add: algebra_simps)
  done


lemma hom_scale4: "hom (scale4 c t) x y z w =
   (fst (hom t x y z w) * c, fst (snd (hom t x y z w)) * c,
    fst (snd (snd (hom t x y z w))) * c, snd (snd (snd (hom t x y z w))) * c)"
  by (simp add: hom_def scale4_def algebra_simps)

lemma transformed_hom:
  "transformed v t = (case hom t (vx v) (vy v) (vz v) 1 of
      (a, b, c, d) \<Rightarrow> Vector3 (a * (1 / d)) (b * (1 / d)) (c * (1 / d)))"
  by (simp add: transformed_def hom_def Let_def)

lemma hom_div: "hom t (a / c) (b / c) (d / c) (e / c) =
   (fst (hom t a b d e) / c, fst (snd (hom t a b d e)) / c,
    fst (snd (snd (hom t a b d e))) / c, snd (snd (snd (hom t a b d e))) / c)"
  by (simp add: hom_def add_divide_distrib)

lemma roundtrip:
  assumes d: "determinant4 t \<noteq> 0" and w: "finite_image (invert t) p"
  shows "transformed (transformed p (invert t)) t = p"
proof -
  define D where "D = determinant4 t"
  obtain q1 q2 q3 q4 where q: "hom (adjugate t) (vx p) (vy p) (vz p) 1 = (q1, q2, q3, q4)"
    by (metis prod_cases4)
  have D0: "D \<noteq> 0" using d by (simp add: D_def)
  have hi: "hom (invert t) (vx p) (vy p) (vz p) 1 = (q1 / D, q2 / D, q3 / D, q4 / D)"
    using d q by (simp add: invert_adjugate hom_scale4 D_def)
  have "q4 / D \<noteq> 0"
    using w hi by (simp add: finite_image_def hom_def)
  hence q4: "q4 \<noteq> 0" by auto
  have loc: "transformed p (invert t) = Vector3 (q1 / q4) (q2 / q4) (q3 / q4)"
    using D0 q4 by (simp add: transformed_hom hi)
  have m: "hom t q1 q2 q3 q4 = (D * vx p, D * vy p, D * vz p, D)"
    using mul_adjugate[of t "vx p" "vy p" "vz p" 1] q by (simp add: D_def)
  have "hom t (q1 / q4) (q2 / q4) (q3 / q4) 1 = hom t (q1 / q4) (q2 / q4) (q3 / q4) (q4 / q4)"
    using q4 by simp
  also have "\<dots> = (D * vx p / q4, D * vy p / q4, D * vz p / q4, D / q4)"
    by (simp only: hom_div m fst_conv snd_conv)
  finally have h: "hom t (q1 / q4) (q2 / q4) (q3 / q4) 1
      = (D * vx p / q4, D * vy p / q4, D * vz p / q4, D / q4)" .
  have "transformed (transformed p (invert t)) t
      = transformed (Vector3 (q1 / q4) (q2 / q4) (q3 / q4)) t"
    by (simp only: loc)
  also have "\<dots> = Vector3 (vx p) (vy p) (vz p)"
    using D0 q4 by (simp add: transformed_hom h)
  finally show ?thesis by simp
qed

lemma affine_finite_image:
  assumes "affine4 t" "determinant4 t \<noteq> 0"
  shows "finite_image (invert t) p"
proof (cases t)
  case (Matrix4 a0 a1 a2 a3 a4 a5 a6 a7 a8 a9 a10 a11 a12 a13 a14 a15)
  define c where "c = a4 * a9 * a2 - a8 * a5 * a2 + a8 * a1 * a6
                      - a0 * a9 * a6 - a4 * a1 * a10 + a0 * a5 * a10"
  have z: "a3 = 0" "a7 = 0" "a11 = 0" using assms(1) Matrix4 by (simp_all add: affine4_def)
  have d: "determinant4 t = a15 * c"
    by (simp add: Matrix4 z determinant4_def Let_def c_def algebra_simps)
  hence c0: "c \<noteq> 0" using assms(2) by auto
  have "e3 (invert t) = 0" "e7 (invert t) = 0" "e11 (invert t) = 0"
    using assms(2) by (simp_all add: invert_adjugate scale4_def adjugate_def Matrix4 z)
  moreover have "e15 (invert t) = c * (1 / determinant4 t)"
    using assms(2) by (simp add: invert_adjugate scale4_def adjugate_def Matrix4 z c_def)
  ultimately show ?thesis using c0 assms(2) by (simp add: finite_image_def)
qed

lemma affine_roundtrip:
  "affine4 t \<Longrightarrow> determinant4 t \<noteq> 0 \<Longrightarrow> transformed (transformed p (invert t)) t = p"
  by (simp add: roundtrip affine_finite_image)

lemma invert_identity: "invert identity4 = identity4"
  by (simp add: invert_def identity4_def Let_def)

lemma transformed_identity: "transformed p identity4 = p"
  by (cases p) (simp add: transformed_def identity4_def Let_def)


text \<open>\<open>applyMatrix4\<close> in terms of \<open>finite_image\<close> and \<open>transformed\<close>.\<close>

lemma applyMatrix4_Some:
  "finite_image t v \<Longrightarrow> applyMatrix4 (Some v) t = Some (transformed v t)"
  by (simp add: applyMatrix4_def finite_image_def transformed_def Let_def)


lemma applyMatrix4_absorb [simp]: "applyMatrix4 None t = None"
  by (simp add: applyMatrix4_def)

lemma applyMatrix4_identity [simp]: "applyMatrix4 p identity4 = p"
proof (cases p)
  case None
  thus ?thesis by simp
next
  case (Some v)
  have "finite_image identity4 v" by (simp add: finite_image_def identity4_def)
  thus ?thesis using Some by (simp add: applyMatrix4_Some transformed_identity)
qed






section \<open>The Bernstein basis: partition of unity and linear precision\<close>

lemma prod_list_upt: "prod_list [a..<b] = \<Prod>{a..<b}"
proof (induction b)
  case 0
  show ?case by simp
next
  case (Suc b)
  show ?case
  proof (cases "a \<le> b")
    case True
    then show ?thesis using Suc by (simp add: prod.atLeastLessThan_Suc)
  next
    case False
    then show ?thesis by simp
  qed
qed

text \<open>The product loop of \<open>binomial\<close>: the product, or \<open>None\<close> once it exceeds \<open>MAX_VALUE\<close>.\<close>

lemma fold_overflow_None:
  "fold (\<lambda>i coeff. case coeff of None \<Rightarrow> None
          | Some c \<Rightarrow> if c * real i > MAX_VALUE then None else Some (c * real i)) xs None = None"
  by (induction xs) simp_all

lemma prod_list_ge1: "\<forall>x \<in> set xs. 1 \<le> x \<Longrightarrow> 1 \<le> (prod_list xs :: nat)"
  by (induction xs) (auto simp: Suc_le_eq)

lemma fold_overflow:
  assumes "\<forall>x \<in> set xs. 1 \<le> x" and "0 < c" and "c \<le> MAX_VALUE"
  shows "fold (\<lambda>i coeff. case coeff of None \<Rightarrow> None
          | Some c \<Rightarrow> if c * real i > MAX_VALUE then None else Some (c * real i)) xs (Some c)
       = (if c * real (prod_list xs) > MAX_VALUE then None else Some (c * real (prod_list xs)))"
  using assms
proof (induction xs arbitrary: c)
  case Nil
  thus ?case by simp
next
  case (Cons x xs)
  have x1: "1 \<le> real x" using Cons.prems(1) by simp
  have "\<forall>x \<in> set xs. 1 \<le> x" using Cons.prems(1) by simp
  hence "1 \<le> prod_list xs" by (rule prod_list_ge1)
  hence p1: "1 \<le> real (prod_list xs)" by simp
  have cx: "0 < c * real x" using Cons.prems(2) x1 by simp
  show ?case
  proof (cases "c * real x > MAX_VALUE")
    case True
    have "c * real x * 1 \<le> c * real x * real (prod_list xs)"
      using cx p1 by (intro mult_left_mono) simp_all
    hence "MAX_VALUE < c * real (prod_list (x # xs))" using True by (simp add: mult.assoc)
    thus ?thesis using True by (simp add: fold_overflow_None)
  next
    case False
    have "\<forall>x \<in> set xs. 1 \<le> x" using Cons.prems(1) by simp
    moreover have "c * real x \<le> MAX_VALUE" using False by simp
    ultimately show ?thesis using Cons.IH[OF _ cx] False by (simp add: mult.assoc)
  qed
qed

lemma MAX_VALUE_ge1: "1 \<le> MAX_VALUE"
proof -
  have "(1::real) \<le> 2 ^ 1023" by (rule one_le_power) simp
  moreover have "(1::real) \<le> 2 - 1 / 2 ^ 52" by (simp add: field_simps)
  ultimately have "1 * 1 \<le> (2 - 1 / 2 ^ 52) * (2::real) ^ 1023"
    by (intro mult_mono) simp_all
  thus ?thesis by (simp add: MAX_VALUE_def)
qed

lemma fold_div:
  "fold (\<lambda>i coeff. map_option (\<lambda>c. c / real i) coeff) xs v
     = map_option (\<lambda>c. c / real (prod_list xs)) v"
proof (induction xs arbitrary: v)
  case Nil
  show ?case by (cases v) simp_all
next
  case (Cons x xs)
  show ?case by (cases v) (simp_all add: Cons algebra_simps)
qed

lemma fact_prod_upt: "fact m = \<Prod>{1..<Suc m}"
  by (simp add: fact_prod atLeastLessThanSuc_atLeastAtMost)

lemma binomial_product:
  assumes "k \<le> n"
  shows "\<Prod>{n - k + 1..<Suc n} = fact k * (n choose k)"
    and "\<Prod>{n - k + 1..<Suc n} \<le> (fact n :: nat)"
proof -
  have "\<Prod>{1..<n - k + 1} * \<Prod>{n - k + 1..<Suc n} = \<Prod>{1..<Suc n}"
    using assms by (intro prod.atLeastLessThan_concat) auto
  hence f: "fact n = fact (n - k) * \<Prod>{n - k + 1..<Suc n}"
    using fact_prod_upt[of n] fact_prod_upt[of "n - k"] by simp
  moreover have "fact k * fact (n - k) * (n choose k) = (fact n :: nat)"
    using assms by (rule binomial_fact_lemma)
  ultimately have "fact (n - k) * \<Prod>{n - k + 1..<Suc n} = fact (n - k) * (fact k * (n choose k))"
    by (simp add: mult_ac)
  thus "\<Prod>{n - k + 1..<Suc n} = fact k * (n choose k)"
    by simp
  have "1 * \<Prod>{n - k + 1..<Suc n} \<le> fact (n - k) * \<Prod>{n - k + 1..<Suc n}"
    by (intro mult_right_mono) (simp_all add: Suc_leI)
  thus "\<Prod>{n - k + 1..<Suc n} \<le> (fact n :: nat)" using f by simp
qed

lemma upt_ge1: "\<forall>x \<in> set [Suc a..<b]. 1 \<le> x"
  by auto

lemma binomial_choose:
  assumes "k \<le> n" and "real (fact n) \<le> MAX_VALUE"
  shows "binomial n k = Some (real (n choose k))"
proof -
  let ?P = "\<Prod>{n - k + 1..<Suc n}"
  let ?xs = "[n - k + 1..<Suc n]"
  note p = binomial_product[OF assms(1)]
  have "real ?P \<le> real (fact n)" using p(2) by (simp only: of_nat_le_iff)
  hence "real ?P \<le> MAX_VALUE" using assms(2) by linarith
  hence le: "\<not> 1 * real (prod_list ?xs) > MAX_VALUE"
    by (simp only: prod_list_upt mult_1 not_less)
  have ge: "\<forall>x \<in> set ?xs. 1 \<le> x" using upt_ge1[of "n - k" "Suc n"] by (simp only: Suc_eq_plus1)
  have pk: "prod_list [1..<Suc k] = fact k"
    by (simp only: prod_list_upt fact_prod_upt)
  have "fold (\<lambda>i coeff. case coeff of None \<Rightarrow> None
          | Some c \<Rightarrow> if c * real i > MAX_VALUE then None else Some (c * real i))
          ?xs (Some 1) = Some (1 * real (prod_list ?xs))"
    using le by (simp only: fold_overflow[OF ge zero_less_one MAX_VALUE_ge1] if_False)
  hence "binomial n k = Some (1 * real (prod_list ?xs) / real (prod_list [1..<Suc k]))"
    by (simp only: binomial_def fold_div option.map)
  also have "\<dots> = Some (real ?P / real (fact k))"
    unfolding pk by (simp only: prod_list_upt mult_1)
  also have "\<dots> = Some (real (n choose k))"
    unfolding p(1) by simp
  finally show ?thesis .
qed

lemma binomial_overflow:
  assumes "MAX_VALUE < real (fact n)"
  shows "binomial n n = None"
proof -
  let ?xs = "[n - n + 1..<Suc n]"
  have "prod_list ?xs = fact n"
    by (simp only: prod_list_upt fact_prod_upt diff_self_eq_0 add_0)
  hence gt: "1 * real (prod_list ?xs) > MAX_VALUE" using assms by simp
  have ge: "\<forall>x \<in> set ?xs. 1 \<le> x" using upt_ge1[of "n - n" "Suc n"] by (simp only: Suc_eq_plus1)
  have "fold (\<lambda>i coeff. case coeff of None \<Rightarrow> None
          | Some c \<Rightarrow> if c * real i > MAX_VALUE then None else Some (c * real i))
          ?xs (Some 1) = None"
    using gt by (simp only: fold_overflow[OF ge zero_less_one MAX_VALUE_ge1] if_True)
  thus ?thesis by (simp only: binomial_def fold_div option.map)
qed

text \<open>\<open>170! \<le> MAX_VALUE < 171!\<close>\<close>

lemma fact_170: "real (fact 170) \<le> MAX_VALUE"
  by (simp add: MAX_VALUE_def fact_numeral)

lemma fact_171: "MAX_VALUE < real (fact 171)"
  by (simp add: MAX_VALUE_def fact_numeral)

lemma fact_small: "n \<le> MAX_COUNT \<Longrightarrow> real (fact n) \<le> MAX_VALUE"
proof -
  assume "n \<le> MAX_COUNT"
  hence "(fact n :: nat) \<le> fact 170" by (simp add: MAX_COUNT_def fact_mono)
  hence "real (fact n) \<le> real (fact 170)" by (simp only: of_nat_le_iff)
  thus ?thesis using fact_170 by simp
qed

lemma fact_large: "MAX_COUNT < n \<Longrightarrow> MAX_VALUE < real (fact n)"
proof -
  assume "MAX_COUNT < n"
  hence "(fact 171 :: nat) \<le> fact n" by (simp add: MAX_COUNT_def fact_mono)
  hence "real (fact 171) \<le> real (fact n)" by (simp only: of_nat_le_iff)
  thus ?thesis using fact_171 by simp
qed

lemma bernstein_basis:
  assumes "n \<le> MAX_COUNT" and "i \<le> n"
  shows "bernstein n i t = Some (basis n i t)"
  using binomial_choose[OF assms(2) fact_small[OF assms(1)]]
  by (simp add: bernstein_def basis_def)

lemma bernstein_overflow:
  assumes "MAX_COUNT < n"
  shows "bernstein n n t = None"
  using binomial_overflow[OF fact_large[OF assms]] by (simp add: bernstein_def)

lemma basis_sum: "(\<Sum>i\<le>n. basis n i t) = 1"
proof -
  have "(\<Sum>i\<le>n. basis n i t) = (t + (1 - t)) ^ n"
    unfolding basis_def by (rule binomial_ring[symmetric])
  thus ?thesis by simp
qed

lemma basis_linear:
  "(\<Sum>i\<le>Suc n. basis (Suc n) i t * real i) = real (Suc n) * t"
proof -
  have "(\<Sum>i\<le>Suc n. basis (Suc n) i t * real i)
      = (\<Sum>i\<le>n. basis (Suc n) (Suc i) t * real (Suc i))"
    by (simp add: sum.atMost_Suc_shift del: sum.atMost_Suc)
  also have "\<dots> = (\<Sum>i\<le>n. real (Suc n) * t * basis n i t)"
  proof (intro sum.cong refl)
    fix i assume "i \<in> {..n}"
    hence i: "i \<le> n" by simp
    define c where "c = real (Suc n choose Suc i)"
    define r where "r = t ^ i * (1 - t) ^ (n - i)"
    have e: "c * real (Suc i) = real (Suc n) * real (n choose i)"
      unfolding c_def by (metis Suc_times_binomial_eq of_nat_mult mult.commute)
    have b1: "basis (Suc n) (Suc i) t = c * (t * r)"
      using i by (simp add: basis_def c_def r_def del: binomial_Suc_Suc)
    have b2: "basis n i t = real (n choose i) * r"
      using i by (simp add: basis_def r_def)
    have "basis (Suc n) (Suc i) t * real (Suc i) = (c * real (Suc i)) * (t * r)"
      by (simp only: b1 mult_ac)
    also have "\<dots> = real (Suc n) * real (n choose i) * (t * r)"
      by (simp only: e)
    also have "\<dots> = real (Suc n) * t * basis n i t"
      by (simp only: b2 mult_ac)
    finally show "basis (Suc n) (Suc i) t * real (Suc i) = real (Suc n) * t * basis n i t" .
  qed
  also have "\<dots> = real (Suc n) * t * (\<Sum>i\<le>n. basis n i t)"
    by (simp add: sum_distrib_left)
  finally show ?thesis by (simp add: basis_sum)
qed

lemma triple_sum:
  fixes A B C :: "nat \<Rightarrow> real"
  shows "(\<Sum>i<a. \<Sum>j<b. \<Sum>k<c. A i * (B j * C k))
       = (\<Sum>i<a. A i) * (\<Sum>j<b. B j) * (\<Sum>k<c. C k)"
proof -
  have "(\<Sum>i<a. A i) * (\<Sum>j<b. B j) * (\<Sum>k<c. C k)
      = (\<Sum>i<a. A i * ((\<Sum>j<b. B j) * (\<Sum>k<c. C k)))"
    by (simp only: sum_distrib_right mult.assoc)
  also have "\<dots> = (\<Sum>i<a. A i * (\<Sum>j<b. \<Sum>k<c. B j * C k))"
    by (simp only: sum_product)
  also have "\<dots> = (\<Sum>i<a. \<Sum>j<b. \<Sum>k<c. A i * (B j * C k))"
    by (simp only: sum_distrib_left)
  finally show ?thesis by simp
qed

lemma triple_sum_x:
  fixes f X Y Z :: "nat \<Rightarrow> real"
  shows "(\<Sum>i<a. \<Sum>j<b. \<Sum>k<c. f i * (X i * Y j * Z k))
       = (\<Sum>i<a. f i * X i) * (\<Sum>j<b. Y j) * (\<Sum>k<c. Z k)"
  using triple_sum[where A = "\<lambda>i. f i * X i" and B = Y and C = Z and a = a and b = b and c = c]
  by (simp only: mult.assoc)

lemma triple_sum_y:
  fixes f X Y Z :: "nat \<Rightarrow> real"
  shows "(\<Sum>i<a. \<Sum>j<b. \<Sum>k<c. f j * (X i * Y j * Z k))
       = (\<Sum>i<a. X i) * (\<Sum>j<b. f j * Y j) * (\<Sum>k<c. Z k)"
proof -
  have "(\<Sum>i<a. \<Sum>j<b. \<Sum>k<c. f j * (X i * Y j * Z k))
      = (\<Sum>i<a. \<Sum>j<b. \<Sum>k<c. X i * ((f j * Y j) * Z k))"
    by (intro sum.cong refl) (simp add: mult_ac)
  also have "\<dots> = (\<Sum>i<a. X i) * (\<Sum>j<b. f j * Y j) * (\<Sum>k<c. Z k)"
    by (rule triple_sum)
  finally show ?thesis .
qed

lemma triple_sum_z:
  fixes f X Y Z :: "nat \<Rightarrow> real"
  shows "(\<Sum>i<a. \<Sum>j<b. \<Sum>k<c. f k * (X i * Y j * Z k))
       = (\<Sum>i<a. X i) * (\<Sum>j<b. Y j) * (\<Sum>k<c. f k * Z k)"
proof -
  have "(\<Sum>i<a. \<Sum>j<b. \<Sum>k<c. f k * (X i * Y j * Z k))
      = (\<Sum>i<a. \<Sum>j<b. \<Sum>k<c. X i * (Y j * (f k * Z k)))"
    by (intro sum.cong refl) (simp add: mult_ac)
  also have "\<dots> = (\<Sum>i<a. X i) * (\<Sum>j<b. Y j) * (\<Sum>k<c. f k * Z k)"
    by (rule triple_sum)
  finally show ?thesis .
qed

lemma basis_sum_lt: "(\<Sum>i<Suc n. basis n i t) = 1"
  using basis_sum[of n t] by (simp only: lessThan_Suc_atMost)

lemma basis_affine:
  assumes "0 < n"
  shows "(\<Sum>i<Suc n. (lo + real i * (ext / real n)) * basis n i t) = lo + t * ext"
proof -
  obtain n' where n: "n = Suc n'" using assms by (cases n) auto
  have "(\<Sum>i<Suc n. (lo + real i * (ext / real n)) * basis n i t)
      = lo * (\<Sum>i<Suc n. basis n i t) + (ext / real n) * (\<Sum>i<Suc n. basis n i t * real i)"
    by (simp add: sum_distrib_left sum.distrib[symmetric] algebra_simps del: sum.lessThan_Suc)
  also have "(\<Sum>i<Suc n. basis n i t * real i) = real n * t"
    using basis_linear[of n' t] unfolding n by (simp only: lessThan_Suc_atMost)
  finally show ?thesis using assms by (simp add: basis_sum_lt del: sum.lessThan_Suc)
qed

lemma evenGrid_nth:
  "i < Suc L \<Longrightarrow> j < Suc M \<Longrightarrow> k < Suc N \<Longrightarrow>
   evenGrid lo ext L M N ! i ! j ! k =
     Vector3 (vx lo + real i * (vx ext / real L)) (vy lo + real j * (vy ext / real M))
             (vz lo + real k * (vz ext / real N))"
  by (simp add: evenGrid_def del: upt_Suc)

lemma blend_evenGrid:
  assumes pos: "0 < L" "0 < M" "0 < N"
  shows "blend (evenGrid lo ext L M N) L M N s t u =
           Vector3 (vx lo + s * vx ext) (vy lo + t * vy ext) (vz lo + u * vz ext)"
proof -
  let ?cps = "evenGrid lo ext L M N"
  let ?X = "\<lambda>i. basis L i s" and ?Y = "\<lambda>j. basis M j t" and ?Z = "\<lambda>k. basis N k u"
  have tw: "(\<Sum>i<Suc L. \<Sum>j<Suc M. \<Sum>k<Suc N. ?X i * ?Y j * ?Z k) = 1"
    using triple_sum[where A = ?X and B = ?Y and C = ?Z and a = "Suc L" and b = "Suc M"
        and c = "Suc N"]
    by (simp only: basis_sum_lt mult.assoc mult_1)
  have rx: "(\<Sum>i<Suc L. \<Sum>j<Suc M. \<Sum>k<Suc N.
        vx (multiplyScalar (?cps ! i ! j ! k) (?X i * ?Y j * ?Z k))) = vx lo + s * vx ext"
  proof -
    have "(\<Sum>i<Suc L. \<Sum>j<Suc M. \<Sum>k<Suc N.
        vx (multiplyScalar (?cps ! i ! j ! k) (?X i * ?Y j * ?Z k)))
        = (\<Sum>i<Suc L. \<Sum>j<Suc M. \<Sum>k<Suc N.
             (vx lo + real i * (vx ext / real L)) * (?X i * ?Y j * ?Z k))"
      by (intro sum.cong refl) (simp add: evenGrid_nth multiplyScalar_def)
    also have "\<dots> = (\<Sum>i<Suc L. (vx lo + real i * (vx ext / real L)) * ?X i)
                       * (\<Sum>j<Suc M. ?Y j) * (\<Sum>k<Suc N. ?Z k)"
      by (rule triple_sum_x)
    finally show ?thesis
      by (simp only: basis_affine[OF pos(1)] basis_sum_lt mult_1_right)
  qed
  have ry: "(\<Sum>i<Suc L. \<Sum>j<Suc M. \<Sum>k<Suc N.
        vy (multiplyScalar (?cps ! i ! j ! k) (?X i * ?Y j * ?Z k))) = vy lo + t * vy ext"
  proof -
    have "(\<Sum>i<Suc L. \<Sum>j<Suc M. \<Sum>k<Suc N.
        vy (multiplyScalar (?cps ! i ! j ! k) (?X i * ?Y j * ?Z k)))
        = (\<Sum>i<Suc L. \<Sum>j<Suc M. \<Sum>k<Suc N.
             (vy lo + real j * (vy ext / real M)) * (?X i * ?Y j * ?Z k))"
      by (intro sum.cong refl) (simp add: evenGrid_nth multiplyScalar_def)
    also have "\<dots> = (\<Sum>i<Suc L. ?X i)
                       * (\<Sum>j<Suc M. (vy lo + real j * (vy ext / real M)) * ?Y j) * (\<Sum>k<Suc N. ?Z k)"
      by (rule triple_sum_y)
    finally show ?thesis
      by (simp only: basis_affine[OF pos(2)] basis_sum_lt mult_1_right mult_1)
  qed
  have rz: "(\<Sum>i<Suc L. \<Sum>j<Suc M. \<Sum>k<Suc N.
        vz (multiplyScalar (?cps ! i ! j ! k) (?X i * ?Y j * ?Z k))) = vz lo + u * vz ext"
  proof -
    have "(\<Sum>i<Suc L. \<Sum>j<Suc M. \<Sum>k<Suc N.
        vz (multiplyScalar (?cps ! i ! j ! k) (?X i * ?Y j * ?Z k)))
        = (\<Sum>i<Suc L. \<Sum>j<Suc M. \<Sum>k<Suc N.
             (vz lo + real k * (vz ext / real N)) * (?X i * ?Y j * ?Z k))"
      by (intro sum.cong refl) (simp add: evenGrid_nth multiplyScalar_def)
    also have "\<dots> = (\<Sum>i<Suc L. ?X i)
                       * (\<Sum>j<Suc M. ?Y j) * (\<Sum>k<Suc N. (vz lo + real k * (vz ext / real N)) * ?Z k)"
      by (rule triple_sum_z)
    finally show ?thesis
      by (simp only: basis_affine[OF pos(3)] basis_sum_lt mult_1_right mult_1)
  qed
  show ?thesis
    by (simp add: blend_def Let_def sum_v_def tw rx ry rz divideScalar_def
          del: sum.lessThan_Suc)
qed

section \<open>The blend and the deform step\<close>

lemma fold_acc:
  assumes "\<And>k r w. k < n \<Longrightarrow> F k (Some (r, w)) = Some (add_v r (V k), w + W k)"
  shows "fold F [0..<n] (Some (r0, w0)) = Some (add_v r0 (sum_v V n), w0 + (\<Sum>k<n. W k))"
  using assms
proof (induction n)
  case 0
  show ?case by (cases r0) (simp add: sum_v_def add_v_def)
next
  case (Suc n)
  have "fold F [0..<n] (Some (r0, w0)) = Some (add_v r0 (sum_v V n), w0 + (\<Sum>k<n. W k))"
    using Suc by simp
  thus ?case using Suc.prems[of n]
    by (simp add: sum_v_def add_v_def algebra_simps)
qed

lemma fold_absorb: "(\<And>x. F x None = None) \<Longrightarrow> fold F xs None = None"
  by (induction xs) simp_all

lemma fold_hits_None:
  assumes "x0 \<in> set xs" and "\<And>acc. F x0 acc = None" and "\<And>x. F x None = None"
  shows "fold F xs acc = None"
  using assms(1)
proof (induction xs arbitrary: acc)
  case Nil
  thus ?case by simp
next
  case (Cons x xs)
  show ?case
  proof (cases "x = x0")
    case True
    thus ?thesis using assms(2,3) by (simp add: fold_absorb)
  next
    case False
    thus ?thesis using Cons by simp
  qed
qed

text \<open>
  The step of the innermost loop of \<open>calculateDeformedPosition\<close> for given weights of
  the two outer loops.
\<close>

lemma calculateDeformedPosition_folds:
  "calculateDeformedPosition st s t u =
     (case fold (\<lambda>i. fold (\<lambda>j. fold (\<lambda>k acc.
               do {
                 (result, totalWeight) \<leftarrow> acc;
                 w \<leftarrow> do { x \<leftarrow> bernstein (ffd_l st) i s; y \<leftarrow> bernstein (ffd_m st) j t;
                           z \<leftarrow> bernstein (ffd_n st) k u; Some (x * y * z) };
                 c \<leftarrow> controlPoints st ! i ! j ! k;
                 Some (add_v result (multiplyScalar c w), totalWeight + w)
               })
             [0..<Suc (ffd_n st)]) [0..<Suc (ffd_m st)]) [0..<Suc (ffd_l st)]
           (Some (Vector3 0 0 0, 0))
      of None \<Rightarrow> None
       | Some (result, totalWeight) \<Rightarrow>
           Some (if totalWeight > 0 then divideScalar result totalWeight else result))"
  by (simp only: calculateDeformedPosition_def Let_def)

lemma calculateDeformedPosition_blend:
  assumes wx: "\<And>i. i \<le> ffd_l st \<Longrightarrow> bernstein (ffd_l st) i s = Some (basis (ffd_l st) i s)"
    and wy: "\<And>j. j \<le> ffd_m st \<Longrightarrow> bernstein (ffd_m st) j t = Some (basis (ffd_m st) j t)"
    and wz: "\<And>k. k \<le> ffd_n st \<Longrightarrow> bernstein (ffd_n st) k u = Some (basis (ffd_n st) k u)"
    and cp: "\<And>i j k. i \<le> ffd_l st \<Longrightarrow> j \<le> ffd_m st \<Longrightarrow> k \<le> ffd_n st \<Longrightarrow>
                controlPoints st ! i ! j ! k = Some (cps ! i ! j ! k)"
  shows "calculateDeformedPosition st s t u
           = Some (blend cps (ffd_l st) (ffd_m st) (ffd_n st) s t u)"
proof -
  let ?L = "ffd_l st" and ?M = "ffd_m st" and ?N = "ffd_n st"
  let ?W = "\<lambda>i j k. basis ?L i s * basis ?M j t * basis ?N k u"
  let ?P = "\<lambda>i j k. multiplyScalar (cps ! i ! j ! k) (?W i j k)"
  let ?inner = "\<lambda>i j k acc.
               do {
                 (result, totalWeight) \<leftarrow> acc;
                 w \<leftarrow> do { x \<leftarrow> bernstein ?L i s; y \<leftarrow> bernstein ?M j t;
                           z \<leftarrow> bernstein ?N k u; Some (x * y * z) };
                 c \<leftarrow> controlPoints st ! i ! j ! k;
                 Some (add_v result (multiplyScalar c w), totalWeight + w)
               }"
  have inner: "fold (?inner i j) [0..<Suc ?N] (Some (r, w))
        = Some (add_v r (sum_v (?P i j) (Suc ?N)), w + (\<Sum>k<Suc ?N. ?W i j k))"
    if "i \<le> ?L" "j \<le> ?M" for i j r w
    by (rule fold_acc) (simp add: wx wy wz cp that less_Suc_eq_le)
  have middle: "fold (\<lambda>j. fold (?inner i j) [0..<Suc ?N]) [0..<Suc ?M] (Some (r, w))
        = Some (add_v r (sum_v (\<lambda>j. sum_v (?P i j) (Suc ?N)) (Suc ?M)),
           w + (\<Sum>j<Suc ?M. \<Sum>k<Suc ?N. ?W i j k))"
    if "i \<le> ?L" for i r w
    by (rule fold_acc) (simp only: inner[OF that] less_Suc_eq_le)
  have outer: "fold (\<lambda>i. fold (\<lambda>j. fold (?inner i j) [0..<Suc ?N]) [0..<Suc ?M]) [0..<Suc ?L]
          (Some (Vector3 0 0 0, 0))
       = Some (add_v (Vector3 0 0 0)
                 (sum_v (\<lambda>i. sum_v (\<lambda>j. sum_v (?P i j) (Suc ?N)) (Suc ?M)) (Suc ?L)),
           0 + (\<Sum>i<Suc ?L. \<Sum>j<Suc ?M. \<Sum>k<Suc ?N. ?W i j k))"
    by (rule fold_acc) (simp only: middle less_Suc_eq_le)
  have z: "add_v (Vector3 0 0 0) v = v" for v by (cases v) (simp add: add_v_def)
  show ?thesis
    unfolding calculateDeformedPosition_folds outer z blend_def Let_def by simp
qed

lemma calculateDeformedPosition_overflow:
  assumes "MAX_COUNT < ffd_l st \<or> MAX_COUNT < ffd_m st \<or> MAX_COUNT < ffd_n st"
  shows "calculateDeformedPosition st s t u = None"
proof -
  let ?L = "ffd_l st" and ?M = "ffd_m st" and ?N = "ffd_n st"
  let ?inner = "\<lambda>i j k acc.
               do {
                 (result, totalWeight) \<leftarrow> acc;
                 w \<leftarrow> do { x \<leftarrow> bernstein ?L i s; y \<leftarrow> bernstein ?M j t;
                           z \<leftarrow> bernstein ?N k u; Some (x * y * z) };
                 c \<leftarrow> controlPoints st ! i ! j ! k;
                 Some (add_v result (multiplyScalar c w), totalWeight + w)
               }"
  have a1: "?inner i j k None = None" for i j k by simp
  have a2: "fold (?inner i j) [0..<Suc ?N] None = None" for i j
    by (rule fold_absorb) simp
  have a3: "fold (\<lambda>j. fold (?inner i j) [0..<Suc ?N]) [0..<Suc ?M] None = None" for i
    by (rule fold_absorb) (rule a2)
  have hit: "?inner i j k acc = None"
    if "bernstein ?L i s = None \<or> bernstein ?M j t = None \<or> bernstein ?N k u = None"
    for i j k acc
    using that by (cases acc) (auto simp: bind_eq_None_conv split: prod.splits)
  have inner_hit: "fold (?inner i j) [0..<Suc ?N] acc = None"
    if "bernstein ?L i s = None \<or> bernstein ?M j t = None \<or> MAX_COUNT < ?N" for i j acc
  proof (rule fold_hits_None[where ?x0.0 = "?N"])
    show "?N \<in> set [0..<Suc ?N]" by simp
    show "?inner i j ?N acc' = None" for acc'
      using that bernstein_overflow[of ?N u] by (intro hit) auto
    show "?inner i j x None = None" for x by simp
  qed
  have middle_hit: "fold (\<lambda>j. fold (?inner i j) [0..<Suc ?N]) [0..<Suc ?M] acc = None"
    if "bernstein ?L i s = None \<or> MAX_COUNT < ?M \<or> MAX_COUNT < ?N" for i acc
  proof (rule fold_hits_None[where ?x0.0 = "?M"])
    show "?M \<in> set [0..<Suc ?M]" by simp
    show "fold (?inner i ?M) [0..<Suc ?N] acc' = None" for acc'
      using that bernstein_overflow[of ?M t] by (intro inner_hit) auto
    show "fold (?inner i x) [0..<Suc ?N] None = None" for x by (rule a2)
  qed
  have "fold (\<lambda>i. fold (\<lambda>j. fold (?inner i j) [0..<Suc ?N]) [0..<Suc ?M]) [0..<Suc ?L]
          (Some (Vector3 0 0 0, 0)) = None"
  proof (rule fold_hits_None[where ?x0.0 = "?L"])
    show "?L \<in> set [0..<Suc ?L]" by simp
    show "fold (\<lambda>j. fold (?inner ?L j) [0..<Suc ?N]) [0..<Suc ?M] acc' = None" for acc'
      using assms bernstein_overflow[of ?L s] by (intro middle_hit) auto
    show "fold (\<lambda>j. fold (?inner x j) [0..<Suc ?N]) [0..<Suc ?M] None = None" for x by (rule a3)
  qed
  thus ?thesis unfolding calculateDeformedPosition_folds by simp
qed

lemma deform_fields [simp]:
  "controlPoints (deform st) = controlPoints st"
  "originalControlPoints (deform st) = originalControlPoints st"
  "initialControlPoints (deform st) = initialControlPoints st"
  "currentTransform (deform st) = currentTransform st"
  "originalPositions (deform st) = originalPositions st"
  "bbox (deform st) = bbox st"
  "size_v (deform st) = size_v st"
  "ffd_l (deform st) = ffd_l st" "ffd_m (deform st) = ffd_m st" "ffd_n (deform st) = ffd_n st"
  "length (geometry (deform st)) = (if controlPoints st = [] then length (geometry st)
                                   else length (originalPositions st))"
  by (simp_all add: deform_def Let_def)

lemma moveControlPoint_transform [simp]:
  "currentTransform (moveControlPoint i j k p st) = currentTransform st"
  by (simp add: moveControlPoint_def Let_def split: option.splits)

lemma updateTransform_transform [simp]:
  "currentTransform (updateTransform matrix st) = matrix"
  by (simp add: updateTransform_def Let_def split: option.splits)

lemma shape_map_grid [simp]: "shape (map_grid f a) = shape a"
  by (simp add: shape_def map_grid_def comp_def)

lemma in_grid_shape:
  "in_grid a i j k \<longleftrightarrow>
     i < length (shape a) \<and> j < length (shape a ! i) \<and> k < length (shape a ! i ! j)"
  by (auto simp: in_grid_def shape_def)

lemma shape_in_grid: "shape a = shape b \<Longrightarrow> in_grid a i j k = in_grid b i j k"
  by (simp add: in_grid_shape)

lemma map_update_same: "f y = f (xs ! i) \<Longrightarrow> map f (xs[i := y]) = map f xs"
proof (cases "i < length xs")
  case True
  assume "f y = f (xs ! i)"
  with True show ?thesis by (simp add: map_update) (metis list_update_id nth_map)
next
  case False
  show ?thesis using False by (simp add: list_update_beyond not_less)
qed

lemma shape_set_point [simp]: "shape (set_point a i j k p) = shape a"
  unfolding shape_def set_point_def
  by (intro map_update_same) simp

lemma map_grid_set_point:
  assumes "in_grid a i j k"
  shows "map_grid f (set_point a i j k q) = set_point (map_grid f a) i j k (f q)"
  using assms by (simp add: map_grid_def set_point_def in_grid_def map_update)

lemma set_point_nth: "in_grid a i j k \<Longrightarrow> set_point a i j k p ! i ! j ! k = p"
  by (simp add: set_point_def in_grid_def)

lemma map_if_nth:
  "length qs = length xs \<Longrightarrow>
   map (\<lambda>i. if i < length qs then f (xs ! i) else d) [0..<length xs] = map f xs"
  by (rule nth_equalityI) simp_all

lemma deform_geometry:
  assumes "controlPoints st \<noteq> []" "length (geometry st) = length (originalPositions st)"
  shows "geometry (deform st) =
     map (deformVertex st (invert (currentTransform st))) (originalPositions st)"
  unfolding deform_def Let_def
  apply (simp only: assms(1) if_False)
  apply (simp only: map_if_nth[OF assms(2)])
  apply simp
  done

lemma deformVertex_identity:
  assumes cp: "controlPoints st = map_grid Some
      (evenGrid (bmin box) (getSize box) (ffd_l st) (ffd_m st) (ffd_n st))"
    and box: "bbox st = Some box"
    and pos: "0 < ffd_l st" "0 < ffd_m st" "0 < ffd_n st"
    and le: "ffd_l st \<le> MAX_COUNT" "ffd_m st \<le> MAX_COUNT" "ffd_n st \<le> MAX_COUNT"
  shows "deformVertex st identity4 v = Some (snapVertex box v)"
proof -
  let ?g = "evenGrid (bmin box) (getSize box) (ffd_l st) (ffd_m st) (ffd_n st)"
  have g: "controlPoints st ! i ! j ! k = Some (?g ! i ! j ! k)"
    if "i \<le> ffd_l st" "j \<le> ffd_m st" "k \<le> ffd_n st" for i j k
    using that by (simp add: cp map_grid_def evenGrid_def less_Suc_eq_le del: upt_Suc)
  have b: "calculateDeformedPosition st s t u
      = Some (blend ?g (ffd_l st) (ffd_m st) (ffd_n st) s t u)" for s t u
    by (rule calculateDeformedPosition_blend) (simp_all add: bernstein_basis le g)
  show ?thesis
    unfolding deformVertex_def calculateLocalCoordinates_def box option.case Let_def prod.case
      b blend_evenGrid[OF pos] applyMatrix4_identity snapVertex_def snapCoordinate_def sub_v_def
    by simp
qed

lemma deform_identity:
  assumes cp: "controlPoints st = map_grid Some
      (evenGrid (bmin box) (getSize box) (ffd_l st) (ffd_m st) (ffd_n st))"
    and box: "bbox st = Some box"
    and pos: "0 < ffd_l st" "0 < ffd_m st" "0 < ffd_n st"
    and le: "ffd_l st \<le> MAX_COUNT" "ffd_m st \<le> MAX_COUNT" "ffd_n st \<le> MAX_COUNT"
    and t: "currentTransform st = identity4"
    and g: "length (geometry st) = length (originalPositions st)"
  shows "geometry (deform st) = map (\<lambda>v. Some (snapVertex box v)) (originalPositions st)"
proof -
  have ne: "controlPoints st \<noteq> []" by (simp add: cp evenGrid_def map_grid_def)
  have "deformVertex st identity4 = (\<lambda>v. Some (snapVertex box v))"
    by (rule ext) (rule deformVertex_identity[OF cp box pos le])
  thus ?thesis
    by (simp only: deform_geometry[OF ne g] t invert_identity)
qed

lemma deform_overflow:
  assumes "controlPoints st \<noteq> []" "length (geometry st) = length (originalPositions st)"
    and "MAX_COUNT < ffd_l st \<or> MAX_COUNT < ffd_m st \<or> MAX_COUNT < ffd_n st"
  shows "geometry (deform st) = map (\<lambda>v. None) (originalPositions st)"
  unfolding deform_geometry[OF assms(1,2)]
  by (simp add: deformVertex_def calculateDeformedPosition_overflow[OF assms(3)] split: prod.splits)

lemma localCoordinate_cases:
  assumes "ext \<noteq> 0"
  shows "localCoordinate (s * ext) ext =
           (if \<bar>s\<bar> < epsilon then 0 else if \<bar>s - 1\<bar> < epsilon then 1 else s)"
proof -
  have "\<not> \<bar>0 - 1 :: real\<bar> < epsilon" by (simp add: epsilon_def)
  thus ?thesis using assms by (simp add: localCoordinate_def Let_def)
qed

lemma snap_bound:
  assumes "lo \<le> x" "x \<le> lo + ext"
  shows "\<bar>snapCoordinate lo ext x - x\<bar> \<le> epsilon * ext"
proof (cases "ext = 0")
  case True
  then show ?thesis using assms by (simp add: snapCoordinate_def)
next
  case False
  hence e: "0 < ext" using assms by simp
  define s where "s = (x - lo) / ext"
  have x: "x - lo = s * ext" using e by (simp add: s_def)
  have s01: "0 \<le> s" "s \<le> 1" using assms e by (simp_all add: s_def field_simps)
  have eps: "0 < epsilon" by (simp add: epsilon_def)
  have lc: "snapCoordinate lo ext x - x =
      (if \<bar>s\<bar> < epsilon then 0 else if \<bar>s - 1\<bar> < epsilon then 1 else s) * ext - s * ext"
    unfolding snapCoordinate_def x localCoordinate_cases[OF False] using x by linarith
  consider "\<bar>s\<bar> < epsilon" | "\<not> \<bar>s\<bar> < epsilon" "\<bar>s - 1\<bar> < epsilon"
    | "\<not> \<bar>s\<bar> < epsilon" "\<not> \<bar>s - 1\<bar> < epsilon"
    by blast
  then show ?thesis
  proof cases
    case 1
    have "s * ext \<le> epsilon * ext" using 1 e by (intro mult_right_mono) auto
    moreover have "0 \<le> s * ext" using s01 e by simp
    moreover have "snapCoordinate lo ext x - x = - (s * ext)"
      using 1 by (simp only: lc if_True; simp)
    ultimately show ?thesis by simp
  next
    case 2
    have "(1 - s) * ext \<le> epsilon * ext" using 2 e by (intro mult_right_mono) auto
    moreover have "0 \<le> (1 - s) * ext" using s01 e by simp
    moreover have "snapCoordinate lo ext x - x = (1 - s) * ext"
      using 2 by (simp only: lc if_True if_False; simp add: algebra_simps)
    ultimately show ?thesis by simp
  next
    case 3
    have "snapCoordinate lo ext x - x = 0"
      using 3 by (simp only: lc if_False; simp)
    then show ?thesis using e eps by simp
  qed
qed

lemma snap_exact:
  assumes "lo \<le> x" "x \<le> lo + ext"
    and "\<not> (0 < x - lo \<and> x - lo < epsilon * ext)"
    and "\<not> (0 < lo + ext - x \<and> lo + ext - x < epsilon * ext)"
  shows "snapCoordinate lo ext x = x"
proof (cases "ext = 0")
  case True
  then show ?thesis using assms by (simp add: snapCoordinate_def)
next
  case False
  hence e: "0 < ext" using assms by simp
  define s where "s = (x - lo) / ext"
  have x: "x - lo = s * ext" using e by (simp add: s_def)
  have s01: "0 \<le> s" "s \<le> 1" using assms e by (simp_all add: s_def field_simps)
  have a: "s = 0" if "\<bar>s\<bar> < epsilon"
  proof -
    have "s * ext < epsilon * ext" using that e by (intro mult_strict_right_mono) auto
    hence "\<not> 0 < s * ext" using assms(3) x by simp
    hence "s * ext \<le> 0" by simp
    hence "s \<le> 0" using e by (simp add: mult_le_0_iff)
    thus "s = 0" using s01 by simp
  qed
  have b: "s = 1" if "\<bar>s - 1\<bar> < epsilon"
  proof -
    have "(1 - s) * ext < epsilon * ext" using that e by (intro mult_strict_right_mono) auto
    moreover have "lo + ext - x = (1 - s) * ext" using x by (simp add: algebra_simps)
    ultimately have "\<not> 0 < (1 - s) * ext" using assms(4) by simp
    hence "(1 - s) * ext \<le> 0" by simp
    hence "1 - s \<le> 0" using e by (simp add: mult_le_0_iff)
    thus "s = 1" using s01 by simp
  qed
  have "(if \<bar>s\<bar> < epsilon then 0 else if \<bar>s - 1\<bar> < epsilon then 1 else s) = s"
    using a b by auto
  hence "snapCoordinate lo ext x = lo + s * ext"
    unfolding snapCoordinate_def x localCoordinate_cases[OF False] by simp
  then show ?thesis using x by simp
qed

text \<open>The fields of a freshly constructed lattice.\<close>

lemma construct_fields:
  assumes c: "construct g settings = Inr st" and p: "position g = Some ps"
  shows "bbox st = setFromBufferAttribute ps"
    and "initialControlPoints st = Some (controlPoints st)"
    and "originalControlPoints st = Some (controlPoints st)"
    and "ffd_l st = subdivisions (map_option lengthSubdivisions settings)"
    and "ffd_m st = subdivisions (map_option heightSubdivisions settings)"
    and "ffd_n st = subdivisions (map_option widthSubdivisions settings)"
    and "currentTransform st = identity4"
    and "originalPositions st = ps"
    and "geometry st = map Some ps"
    and "lastDeformedGeometry st = None"
    and "controlPoints st \<noteq> []"
    and "size_v st = boxSize (bbox st)"
  using c p by (auto simp: construct_def initializeControlPoints_def Let_def)

lemma construct_grid_fields:
  assumes c: "construct g settings = Inr st" and p: "position g = Some ps"
    and box: "setFromBufferAttribute ps = Some box"
  shows "controlPoints st = map_grid Some
      (evenGrid (bmin box) (getSize box) (ffd_l st) (ffd_m st) (ffd_n st))"
    and "bbox st = Some box"
  using c unfolding construct_Some[OF p box] by auto

lemma construct_counts:
  assumes c: "construct g settings = Inr st"
  shows "0 < ffd_l st" "0 < ffd_m st" "0 < ffd_n st"
proof -
  have pos: "0 < subdivisions x" for x using subdivisions_ge2[of x] by simp
  show "0 < ffd_l st" "0 < ffd_m st" "0 < ffd_n st"
    using c pos by (auto simp: construct_def initializeControlPoints_def Let_def split: option.splits)
qed

lemma construct_total:
  "position g = Some ps \<Longrightarrow> \<exists>st. construct g settings = Inr st"
  by (simp add: construct_def Let_def)

lemma snapVertex_sel:
  "vx (snapVertex box v) = snapCoordinate (vx (bmin box)) (vx (getSize box)) (vx v)"
  "vy (snapVertex box v) = snapCoordinate (vy (bmin box)) (vy (getSize box)) (vy v)"
  "vz (snapVertex box v) = snapCoordinate (vz (bmin box)) (vz (getSize box)) (vz v)"
  by (simp_all add: snapVertex_def)

text \<open>How far the snapped vertex is from the vertex.\<close>

lemma snapped_close:
  assumes box: "setFromBufferAttribute ps = Some box" and i: "i < length ps"
    and c: "c \<in> {vx, vy, vz}"
  shows "\<bar>c (snapVertex box (ps ! i)) - c (ps ! i)\<bar> \<le> epsilon * (Max (c ` set ps) - Min (c ` set ps))"
    and "\<not> (0 < c (ps ! i) - Min (c ` set ps) \<and> c (ps ! i) - Min (c ` set ps) < epsilon * (Max (c ` set ps) - Min (c ` set ps)))
       \<Longrightarrow> \<not> (0 < Max (c ` set ps) - c (ps ! i) \<and> Max (c ` set ps) - c (ps ! i) < epsilon * (Max (c ` set ps) - Min (c ` set ps)))
       \<Longrightarrow> c (snapVertex box (ps ! i)) = c (ps ! i)"
proof -
  note b = setFromBufferAttribute_Some(2,3)[OF box] box_not_empty[OF box]
  have m: "ps ! i \<in> set ps" using i by simp
  have lo: "Min (c ` set ps) \<le> c (ps ! i)" using m by simp
  have hi: "c (ps ! i) \<le> Min (c ` set ps) + (Max (c ` set ps) - Min (c ` set ps))" using m by simp
  have sel: "c (snapVertex box (ps ! i)) = snapCoordinate (Min (c ` set ps)) (Max (c ` set ps) - Min (c ` set ps)) (c (ps ! i))"
    using c b by (auto simp: snapVertex_sel getSize_def sub_v_def)
  show "\<bar>c (snapVertex box (ps ! i)) - c (ps ! i)\<bar> \<le> epsilon * (Max (c ` set ps) - Min (c ` set ps))"
    unfolding sel by (rule snap_bound[OF lo hi])
  show "c (snapVertex box (ps ! i)) = c (ps ! i)"
    if "\<not> (0 < c (ps ! i) - Min (c ` set ps) \<and> c (ps ! i) - Min (c ` set ps) < epsilon * (Max (c ` set ps) - Min (c ` set ps)))"
      "\<not> (0 < Max (c ` set ps) - c (ps ! i) \<and> Max (c ` set ps) - c (ps ! i) < epsilon * (Max (c ` set ps) - Min (c ` set ps)))"
    unfolding sel using that by (intro snap_exact[OF lo hi]) simp_all
qed

lemma deform_constructed:
  assumes c: "construct g settings = Inr st" and p: "position g = Some ps"
    and box: "setFromBufferAttribute ps = Some box"
    and le: "ffd_l st \<le> MAX_COUNT" "ffd_m st \<le> MAX_COUNT" "ffd_n st \<le> MAX_COUNT"
  shows "geometry (deform st) = map (\<lambda>v. Some (snapVertex box v)) ps"
  using deform_identity[OF construct_grid_fields[OF c p box] construct_counts[OF c] le]
    construct_fields(7,8,9)[OF c p] by simp

lemma deform_constructed_overflow:
  assumes c: "construct g settings = Inr st" and p: "position g = Some ps"
    and gt: "MAX_COUNT < ffd_l st \<or> MAX_COUNT < ffd_m st \<or> MAX_COUNT < ffd_n st"
  shows "geometry (deform st) = map (\<lambda>v. None) ps"
  using deform_overflow[OF construct_fields(11)[OF c p] _ gt] construct_fields(8,9)[OF c p]
  by simp

lemma moveControlPoint_frame [simp]:
  "bbox (moveControlPoint i j k p st) = bbox st"
  "size_v (moveControlPoint i j k p st) = size_v st"
  "ffd_l (moveControlPoint i j k p st) = ffd_l st"
  "ffd_m (moveControlPoint i j k p st) = ffd_m st"
  "ffd_n (moveControlPoint i j k p st) = ffd_n st"
  "originalPositions (moveControlPoint i j k p st) = originalPositions st"
  "initialControlPoints (moveControlPoint i j k p st) = initialControlPoints st"
  by (simp_all add: moveControlPoint_def Let_def split: option.splits)

lemma sculpt_frame:
  "bbox (sculpt moves st) = bbox st \<and> size_v (sculpt moves st) = size_v st
   \<and> ffd_l (sculpt moves st) = ffd_l st
   \<and> ffd_m (sculpt moves st) = ffd_m st \<and> ffd_n (sculpt moves st) = ffd_n st
   \<and> originalPositions (sculpt moves st) = originalPositions st
   \<and> initialControlPoints (sculpt moves st) = initialControlPoints st
   \<and> currentTransform (sculpt moves st) = currentTransform st"
  unfolding sculpt_def
  by (induction moves arbitrary: st) (auto simp: split_def)

section \<open>C7: the grid the constructor builds\<close>

text \<open>
  C7, as the code has it.  The constructor raises every subdivision count below 2 to 2
  (\<open>Math.max(2, ...)\<close>).  For a mesh with at least one vertex and requested counts
  \<open>l, m, n\<close>, with \<open>L = max 2 l\<close>, \<open>M = max 2 m\<close>, \<open>N = max 2 n\<close>: the constructor
  succeeds; the local points, the working points and the initial snapshot are one
  grid of exactly \<open>(L+1) \<times> (M+1) \<times> (N+1)\<close> points; point \<open>(i,j,k)\<close> lies at
  \<open>bboxMin + (i\<cdot>size.x/L, j\<cdot>size.y/M, k\<cdot>size.z/N)\<close>, where \<open>bboxMin\<close> and \<open>bboxMax\<close>
  are the componentwise minimum and maximum of the vertices and
  \<open>size = bboxMax - bboxMin\<close>; the corner points \<open>(0,0,0)\<close> and \<open>(L,M,N)\<close> are
  \<open>bboxMin\<close> and \<open>bboxMax\<close>.  The counts are arbitrary integers: there is no
  upper bound.  Every point of the grid is a vector (\<open>Some\<close>: its coordinates are
  finite).
\<close>

theorem construct_grid:
  fixes l m n :: int
  assumes "position g = Some ps" and "ps \<noteq> []"
  defines "L \<equiv> nat (max 2 l)" and "M \<equiv> nat (max 2 m)" and "N \<equiv> nat (max 2 n)"
  defines "lo \<equiv> Vector3 (Min (vx ` set ps)) (Min (vy ` set ps)) (Min (vz ` set ps))"
  defines "hi \<equiv> Vector3 (Max (vx ` set ps)) (Max (vy ` set ps)) (Max (vz ` set ps))"
  shows "\<exists>st cps. construct g (Some \<lparr>lengthSubdivisions = l, widthSubdivisions = n,
                                       heightSubdivisions = m\<rparr>) = Inr st
           \<and> originalControlPoints st = Some (map_grid Some cps)
           \<and> initialControlPoints st = Some (map_grid Some cps)
           \<and> controlPoints st = map_grid Some cps
           \<and> length cps = L + 1
           \<and> (\<forall>i\<le>L. length (cps ! i) = M + 1
                \<and> (\<forall>j\<le>M. length (cps ! i ! j) = N + 1
                     \<and> (\<forall>k\<le>N. cps ! i ! j ! k =
                            Vector3 (vx lo + real i * (vx hi - vx lo) / real L)
                                    (vy lo + real j * (vy hi - vy lo) / real M)
                                    (vz lo + real k * (vz hi - vz lo) / real N))))
           \<and> cps ! 0 ! 0 ! 0 = lo \<and> cps ! L ! M ! N = hi"
proof -
  obtain box where box: "setFromBufferAttribute ps = Some box"
    using assms(2) setFromBufferAttribute_nonempty by blast
  note b = setFromBufferAttribute_Some(2,3)[OF box] box_not_empty[OF box]
  have sz: "getSize box = sub_v hi lo"
    using b by (simp add: getSize_def hi_def lo_def)
  have pos: "0 < L" "0 < M" "0 < N" by (simp_all add: L_def M_def N_def)
  let ?s = "Some \<lparr>lengthSubdivisions = l, widthSubdivisions = n, heightSubdivisions = m\<rparr>"
  let ?cps = "evenGrid lo (sub_v hi lo) L M N"
  let ?st = "\<lparr>controlPoints = map_grid Some ?cps,
      originalControlPoints = Some (map_grid Some ?cps),
      initialControlPoints = Some (map_grid Some ?cps), bbox = Some box,
      geometry = map Some ps, originalPositions = ps,
      ffd_l = L, ffd_m = M, ffd_n = N, size_v = getSize box, currentTransform = identity4,
      lastDeformedGeometry = None\<rparr>"
  have c: "construct g ?s = Inr ?st"
    using construct_Some[OF assms(1) box, of ?s] b(1) sz
    by (simp add: subdivisions_Some L_def M_def N_def lo_def)
  have len: "length ?cps = L + 1" by (simp add: evenGrid_def)
  have pts: "i \<le> L \<Longrightarrow> length (?cps ! i) = M + 1
                \<and> (\<forall>j\<le>M. length (?cps ! i ! j) = N + 1
                     \<and> (\<forall>k\<le>N. ?cps ! i ! j ! k =
                            Vector3 (vx lo + real i * (vx hi - vx lo) / real L)
                                    (vy lo + real j * (vy hi - vy lo) / real M)
                                    (vz lo + real k * (vz hi - vz lo) / real N)))" for i
    by (simp add: evenGrid_def nth_append sub_v_def less_Suc_eq_le del: upt_Suc)
  have c0: "?cps ! 0 ! 0 ! 0 = lo"
    by (simp add: evenGrid_def upt_conv_Cons del: upt_Suc)
  have cL: "?cps ! L ! M ! N = hi"
    using pos by (simp add: evenGrid_def sub_v_def less_Suc_eq_le del: upt_Suc)
  show ?thesis
    apply (rule exI[of _ ?st])
    apply (rule exI[of _ ?cps])
    using c len pts c0 cL by simp
qed

text \<open>
  The theorem at the one-triangle mesh with counts \<open>3, 4, 2\<close>: a grid of
  \<open>4 \<times> 5 \<times> 3\<close> points, point \<open>(1,2,1)\<close> at \<open>(2/3, 2, 3)\<close>.
\<close>

theorem construct_grid_witness:
  "\<exists>st cps. construct tri_geometry (Some \<lparr>lengthSubdivisions = 3, widthSubdivisions = 2,
                                       heightSubdivisions = 4\<rparr>) = Inr st
      \<and> originalControlPoints st = Some (map_grid Some cps)
      \<and> length cps = 4 \<and> length (cps ! 1) = 5
      \<and> length (cps ! 1 ! 2) = 3 \<and> cps ! 1 ! 2 ! 1 = Vector3 (2 / 3) 2 3"
proof -
  from construct_grid[where g = tri_geometry
      and ps = "[Vector3 0 0 0, Vector3 2 4 0, Vector3 0 0 6]" and l = 3 and m = 4 and n = 2]
  obtain st cps where c: "construct tri_geometry (Some \<lparr>lengthSubdivisions = 3,
        widthSubdivisions = 2, heightSubdivisions = 4\<rparr>) = Inr st"
      "originalControlPoints st = Some (map_grid Some cps)" "length cps = 4"
    and pts: "\<forall>i\<le>3. length (cps ! i) = 5 \<and> (\<forall>j\<le>4. length (cps ! i ! j) = 3
       \<and> (\<forall>k\<le>2. cps ! i ! j ! k = Vector3 (real i * 2 / 3) (real j * 4 / 4) (real k * 6 / 2)))"
    by (auto simp: tri_geometry_def)
  from pts have "length (cps ! 1) = 5" "length (cps ! 1 ! 2) = 3"
    "cps ! 1 ! 2 ! 1 = Vector3 (2 / 3) 2 3"
    by (auto dest!: spec[of _ "1::nat"] spec[of _ "2::nat"])
  with c show ?thesis by auto
qed

text \<open>
  The claim as stated fails for a count of 1: with \<open>l = m = n = 1\<close> the grid has
  \<open>3 \<times> 3 \<times> 3\<close> points, not \<open>2 \<times> 2 \<times> 2\<close>.
\<close>

theorem construct_grid_counterexample:
  "map_sum id (\<lambda>st. map_option (map (map length)) (originalControlPoints st))
     (construct tri_geometry (Some \<lparr>lengthSubdivisions = 1, widthSubdivisions = 1,
                                    heightSubdivisions = 1\<rparr>))
   = Inr (Some [[3, 3, 3], [3, 3, 3], [3, 3, 3]])"
  by (simp add: construct_def tri_geometry_def setFromBufferAttribute_def
      initializeControlPoints_def subdivisions_def Let_def numeral_2_eq_2 numeral_3_eq_3)

section \<open>C10: the failures of the core\<close>

text \<open>
  C10, as the code has it.  Constructing a lattice over a geometry without a position
  attribute fails with the \<open>TypeError\<close> of the JavaScript runtime; the error kind
  \<open>InvalidGeometry\<close> is raised nowhere.  That is the constructor's only exception: over
  every geometry with a position attribute, for every settings value, it returns a
  lattice.  It is not the only failure a caller of the core has to handle:
  \<open>smoothSeam\<close> with a positive strength throws the same \<open>TypeError\<close> on a result geometry
  without position attribute.
\<close>

theorem construct_failure:
  "(construct g settings = Inl TypeError \<longleftrightarrow> position g = None)
   \<and> construct g settings \<noteq> Inl InvalidGeometry
   \<and> (position g \<noteq> None \<longrightarrow> (\<exists>st. construct g settings = Inr st))
   \<and> (position resultGeometry = None \<and> 0 < strength (merge_options options) \<longrightarrow>
        smoothSeam resultGeometry toolGeometry options = Some (Inl TypeError))"
  by (auto simp add: construct_def smoothSeam_def clone_def Let_def split: option.splits)

text \<open>
  The theorem at a geometry without position attribute and at the one-triangle mesh.
\<close>

theorem construct_failure_witness:
  "position no_position_geometry = None
   \<and> construct no_position_geometry None = Inl TypeError
   \<and> position tri_geometry \<noteq> None
   \<and> (\<exists>st. construct tri_geometry None = Inr st)
   \<and> 0 < strength (merge_options None)
   \<and> smoothSeam no_position_geometry tri_geometry None = Some (Inl TypeError)"
proof -
  have p: "position no_position_geometry = None" by (simp add: no_position_geometry_def)
  have q: "position tri_geometry \<noteq> None" by (simp add: tri_geometry_def)
  have s: "0 < strength (merge_options None)"
    by (simp add: merge_options_def DEFAULT_OPTIONS_def)
  note a = construct_failure[where g = no_position_geometry and settings = None
      and resultGeometry = no_position_geometry and toolGeometry = tri_geometry and options = None]
  note b = construct_failure[where g = tri_geometry and settings = None
      and resultGeometry = no_position_geometry and toolGeometry = tri_geometry and options = None]
  have 1: "construct no_position_geometry None = Inl TypeError"
    using a[THEN conjunct1] p by simp
  have 2: "\<exists>st. construct tri_geometry None = Inr st"
    using b[THEN conjunct2, THEN conjunct2, THEN conjunct1] q by (rule mp)
  have 3: "smoothSeam no_position_geometry tri_geometry None = Some (Inl TypeError)"
    using a[THEN conjunct2, THEN conjunct2, THEN conjunct2] p s by simp
  show ?thesis using p q s 1 2 3 by (intro conjI)
qed

text \<open>
  The claim as stated fails twice: the failure over a geometry without position data
  is a \<open>TypeError\<close>, not the error kind \<open>InvalidGeometry\<close>, and the constructor is not the
  only place where a caller meets it, as \<open>smoothSeam\<close> over the same geometry throws it
  too.
\<close>

theorem construct_failure_counterexample:
  "construct no_position_geometry None = Inl TypeError
   \<and> construct no_position_geometry None \<noteq> Inl InvalidGeometry
   \<and> smoothSeam no_position_geometry tri_geometry None = Some (Inl TypeError)"
  by (simp add: construct_def smoothSeam_def no_position_geometry_def clone_def Let_def
      merge_options_def DEFAULT_OPTIONS_def)

section \<open>C1: the dual storage of control points\<close>

lemma map_grid_nth:
  "in_grid a i j k \<Longrightarrow> map_grid f a ! i ! j ! k = f (a ! i ! j ! k)"
  by (simp add: map_grid_def in_grid_def)


lemma in_grid_set_point [simp]: "in_grid (set_point a i j k p) i' j' k' = in_grid a i' j' k'"
  using shape_in_grid[OF shape_set_point] .







section \<open>C2: the identity deform\<close>

text \<open>
  C2, as the code has it.  For every mesh with position data and every settings
  value, \<open>deform\<close> called right after construction produces a vertex buffer of the
  same length.  When no subdivision count exceeds 170, every vertex of it is finite
  and every coordinate differs from the original by at most \<open>epsilon\<close> (\<open>10\<^sup>-\<^sup>6\<close>)
  times the size of the bounding box on that axis: this is the linear precision of
  the renormalised Bernstein blend over the evenly spaced grid, followed by the
  inverse of the identity, up to the snap of the parametric coordinates (in exact
  arithmetic; the rounding of the floating-point blend comes on top).  When a count
  exceeds 170, \<open>binomial\<close> overflows and every vertex of the buffer is not finite
  (\<open>NaN\<close> in the source).
\<close>

theorem identity_deform:
  assumes "construct g settings = Inr st" and "position g = Some ps"
  shows "ffd_l st = subdivisions (map_option lengthSubdivisions settings)
     \<and> ffd_m st = subdivisions (map_option heightSubdivisions settings)
     \<and> ffd_n st = subdivisions (map_option widthSubdivisions settings)
     \<and> length (geometry (deform st)) = length ps
     \<and> (ffd_l st \<le> MAX_COUNT \<and> ffd_m st \<le> MAX_COUNT \<and> ffd_n st \<le> MAX_COUNT \<longrightarrow>
          (\<forall>i<length ps. \<exists>v. geometry (deform st) ! i = Some v
              \<and> (\<forall>c\<in>{vx, vy, vz}.
                   \<bar>c v - c (ps ! i)\<bar> \<le> epsilon * (Max (c ` set ps) - Min (c ` set ps)))))
     \<and> (MAX_COUNT < ffd_l st \<or> MAX_COUNT < ffd_m st \<or> MAX_COUNT < ffd_n st \<longrightarrow>
          (\<forall>i<length ps. geometry (deform st) ! i = None))"
proof -
  note f = construct_fields[OF assms]
  have len: "length (geometry (deform st)) = length ps" using f(8,11) by simp
  have small: "\<exists>v. geometry (deform st) ! i = Some v
              \<and> (\<forall>c\<in>{vx, vy, vz}.
                   \<bar>c v - c (ps ! i)\<bar> \<le> epsilon * (Max (c ` set ps) - Min (c ` set ps)))"
    if le: "ffd_l st \<le> MAX_COUNT" "ffd_m st \<le> MAX_COUNT" "ffd_n st \<le> MAX_COUNT"
      and i: "i < length ps" for i
  proof -
    have "ps \<noteq> []" using i by auto
    then obtain box where box: "setFromBufferAttribute ps = Some box"
      using setFromBufferAttribute_nonempty by blast
    have "geometry (deform st) ! i = Some (snapVertex box (ps ! i))"
      using deform_constructed[OF assms box le] i by simp
    thus ?thesis using snapped_close(1)[OF box i] by simp
  qed
  have large: "geometry (deform st) ! i = None"
    if "MAX_COUNT < ffd_l st \<or> MAX_COUNT < ffd_m st \<or> MAX_COUNT < ffd_n st"
      and i: "i < length ps" for i
    using deform_constructed_overflow[OF assms that(1)] i by simp
  show ?thesis using f(4,5,6) len small large by blast
qed

text \<open>
  The theorem at the mesh with an interior vertex: with the default counts the
  interior vertex \<open>(1, 1, 1)\<close> comes back within the tolerance, and with 171
  subdivisions along the length every vertex comes back not finite.
\<close>

theorem identity_deform_witness:
  "(\<exists>st v. construct interior_geometry None = Inr st
       \<and> ffd_l st = 2 \<and> ffd_m st = 2 \<and> ffd_n st = 2
       \<and> geometry (deform st) ! 2 = Some v
       \<and> \<bar>vx v - 1\<bar> \<le> epsilon * 2 \<and> \<bar>vy v - 1\<bar> \<le> epsilon * 4 \<and> \<bar>vz v - 1\<bar> \<le> epsilon * 6)
   \<and> (\<exists>st. construct interior_geometry (Some overflow_settings) = Inr st
       \<and> ffd_l st = 171
       \<and> geometry (deform st) = [None, None, None])"
proof -
  let ?ps = "[Vector3 0 0 0, Vector3 2 4 6, Vector3 1 1 1]"
  have pos: "position interior_geometry = Some ?ps" by (simp add: interior_geometry_def)
  have mm: "Max (vx ` set ?ps) - Min (vx ` set ?ps) = 2"
    "Max (vy ` set ?ps) - Min (vy ` set ?ps) = 4"
    "Max (vz ` set ?ps) - Min (vz ` set ?ps) = 6"
    by simp_all
  obtain st where c: "construct interior_geometry None = Inr st"
    using construct_total[OF pos] by blast
  note d = identity_deform[OF c pos]
  have l: "ffd_l st = 2" "ffd_m st = 2" "ffd_n st = 2"
    using d by (simp_all add: subdivisions_def)
  have le: "ffd_l st \<le> MAX_COUNT \<and> ffd_m st \<le> MAX_COUNT \<and> ffd_n st \<le> MAX_COUNT"
    by (simp add: l MAX_COUNT_def)
  have "\<forall>i<length ?ps. \<exists>v. geometry (deform st) ! i = Some v
              \<and> (\<forall>c\<in>{vx, vy, vz}.
                   \<bar>c v - c (?ps ! i)\<bar> \<le> epsilon * (Max (c ` set ?ps) - Min (c ` set ?ps)))"
    using d[THEN conjunct2, THEN conjunct2, THEN conjunct2, THEN conjunct2, THEN conjunct1] le
    by (rule mp)
  hence "\<exists>v. geometry (deform st) ! 2 = Some v
              \<and> (\<forall>c\<in>{vx, vy, vz}.
                   \<bar>c v - c (?ps ! 2)\<bar> \<le> epsilon * (Max (c ` set ?ps) - Min (c ` set ?ps)))"
    by (rule allE[where x = 2]) simp
  then obtain v where v: "geometry (deform st) ! 2 = Some v"
    "\<forall>c\<in>{vx, vy, vz}. \<bar>c v - c (?ps ! 2)\<bar> \<le> epsilon * (Max (c ` set ?ps) - Min (c ` set ?ps))"
    by blast
  have vb: "\<bar>vx v - 1\<bar> \<le> epsilon * 2" "\<bar>vy v - 1\<bar> \<le> epsilon * 4" "\<bar>vz v - 1\<bar> \<le> epsilon * 6"
    using v(2)[rule_format, of vx] v(2)[rule_format, of vy] v(2)[rule_format, of vz]
    unfolding mm by simp_all
  have first: "\<exists>st v. construct interior_geometry None = Inr st
       \<and> ffd_l st = 2 \<and> ffd_m st = 2 \<and> ffd_n st = 2
       \<and> geometry (deform st) ! 2 = Some v
       \<and> \<bar>vx v - 1\<bar> \<le> epsilon * 2 \<and> \<bar>vy v - 1\<bar> \<le> epsilon * 4 \<and> \<bar>vz v - 1\<bar> \<le> epsilon * 6"
    using c l v(1) vb by blast
  obtain st' where c': "construct interior_geometry (Some overflow_settings) = Inr st'"
    using construct_total[OF pos] by blast
  note d' = identity_deform[OF c' pos]
  have l': "ffd_l st' = 171"
    using d' by (simp add: subdivisions_def overflow_settings_def)
  have gt: "MAX_COUNT < ffd_l st' \<or> MAX_COUNT < ffd_m st' \<or> MAX_COUNT < ffd_n st'"
    by (simp add: l' MAX_COUNT_def)
  have n: "\<forall>i<length ?ps. geometry (deform st') ! i = None"
    using d'[THEN conjunct2, THEN conjunct2, THEN conjunct2, THEN conjunct2, THEN conjunct2] gt
    by (rule mp)
  have len: "length (geometry (deform st')) = length ?ps"
    using d'[THEN conjunct2, THEN conjunct2, THEN conjunct2, THEN conjunct1] .
  have "geometry (deform st') = [None, None, None]"
    using n len by (intro nth_equalityI) (auto simp: less_Suc_eq numeral_3_eq_3)
  hence second: "\<exists>st. construct interior_geometry (Some overflow_settings) = Inr st
       \<and> ffd_l st = 171 \<and> geometry (deform st) = [None, None, None]"
    using c' l' by blast
  show ?thesis using first second by (rule conjI)
qed

section \<open>C3: reset after sculpting\<close>

text \<open>At the parameter 0 only the first Bernstein polynomial is not 0.\<close>

lemma basis_zero: "basis n i 0 = (if i = 0 then 1 else 0)"
  by (simp add: basis_def)

lemma sum_first:
  fixes f :: "nat \<Rightarrow> real"
  shows "(\<Sum>i<Suc n. f i * (if i = 0 then c else 0)) = f 0 * c"
proof -
  have "(\<Sum>i<Suc n. f i * (if i = 0 then c else 0))
      = (\<Sum>i\<in>{..<Suc n}. if i = 0 then f 0 * c else 0)"
    by (intro sum.cong refl) simp
  also have "\<dots> = (if 0 \<in> {..<Suc n} then f 0 * c else 0)"
    by (rule sum.delta) simp
  finally show ?thesis by simp
qed

lemma in_grid_evenGrid:
  "i \<le> L \<Longrightarrow> j \<le> M \<Longrightarrow> k \<le> N \<Longrightarrow> in_grid (evenGrid lo ext L M N) i j k"
  by (simp add: in_grid_def evenGrid_def less_Suc_eq_le del: upt_Suc)

lemma blend_corner: "blend cps L M N 0 0 0 = cps ! 0 ! 0 ! 0"
proof -
  have w: "basis L i 0 * basis M j 0 * basis N k 0
      = (if i = 0 then 1 else 0) * ((if j = 0 then 1 else 0) * (if k = 0 then 1 else 0))" for i j k
    by (simp add: basis_zero)
  have s: "(\<Sum>i<Suc L. \<Sum>j<Suc M. \<Sum>k<Suc N.
              f i j k * (basis L i 0 * basis M j 0 * basis N k 0)) = f 0 0 0"
    for f :: "nat \<Rightarrow> nat \<Rightarrow> nat \<Rightarrow> real"
  proof -
    have "(\<Sum>i<Suc L. \<Sum>j<Suc M. \<Sum>k<Suc N.
              f i j k * (basis L i 0 * basis M j 0 * basis N k 0))
        = (\<Sum>i<Suc L. \<Sum>j<Suc M. (\<Sum>k<Suc N.
              (f i j k * ((if i = 0 then 1 else 0) * (if j = 0 then 1 else 0)))
                 * (if k = 0 then 1 else 0)))"
      by (intro sum.cong refl) (simp add: w)
    also have "\<dots> = (\<Sum>i<Suc L. \<Sum>j<Suc M.
              (f i j 0 * (if i = 0 then 1 else 0)) * (if j = 0 then 1 else 0))"
    proof (intro sum.cong refl)
      fix i j
      show "(\<Sum>k<Suc N. (f i j k * ((if i = 0 then 1 else 0) * (if j = 0 then 1 else 0)))
                 * (if k = 0 then 1 else 0))
          = (f i j 0 * (if i = 0 then 1 else 0)) * (if j = 0 then 1 else 0)"
        using sum_first[where f = "\<lambda>k. f i j k * ((if i = 0 then 1 else 0) * (if j = 0 then 1 else 0))"
            and n = N and c = 1]
        by (simp del: sum.lessThan_Suc)
    qed
    also have "\<dots> = (\<Sum>i<Suc L. f i 0 0 * (if i = 0 then 1 else 0))"
    proof (intro sum.cong refl)
      fix i
      show "(\<Sum>j<Suc M. (f i j 0 * (if i = 0 then 1 else 0)) * (if j = 0 then 1 else 0))
          = f i 0 0 * (if i = 0 then 1 else 0)"
        using sum_first[where f = "\<lambda>j. f i j 0 * (if i = 0 then 1 else 0)" and n = M and c = 1]
        by (simp del: sum.lessThan_Suc)
    qed
    also have "\<dots> = f 0 0 0"
      using sum_first[where f = "\<lambda>i. f i 0 0" and n = L and c = 1]
      by (simp del: sum.lessThan_Suc)
    finally show ?thesis .
  qed
  have tw: "(\<Sum>i<Suc L. \<Sum>j<Suc M. \<Sum>k<Suc N. basis L i 0 * basis M j 0 * basis N k 0) = 1"
    using s[of "\<lambda>i j k. 1"] by simp
  have c: "(\<Sum>i<Suc L. \<Sum>j<Suc M. \<Sum>k<Suc N.
              sel (multiplyScalar (cps ! i ! j ! k) (basis L i 0 * basis M j 0 * basis N k 0)))
           = sel (cps ! 0 ! 0 ! 0)" if "sel \<in> {vx, vy, vz}" for sel
    using that s[of "\<lambda>i j k. sel (cps ! i ! j ! k)"] by (auto simp: multiplyScalar_def)
  show ?thesis
    by (simp add: blend_def Let_def sum_v_def tw c divideScalar_def del: sum.lessThan_Suc)
qed

text \<open>
  \<open>reset\<close> after any sequence of sculpting calls leaves the state that \<open>deform\<close> leaves
  on the freshly constructed lattice.
\<close>

lemma sculpt_geometry_length:
  assumes "controlPoints st \<noteq> []" "length (geometry st) = length (originalPositions st)"
  shows "controlPoints (sculpt moves st) \<noteq> []
     \<and> length (geometry (sculpt moves st)) = length (originalPositions (sculpt moves st))"
  using assms unfolding sculpt_def
proof (induction moves arbitrary: st)
  case Nil
  thus ?case by simp
next
  case (Cons mv moves)
  obtain i j k p where mv: "mv = (i, j, k, p)" by (cases mv)
  have "controlPoints (moveControlPoint i j k p st) \<noteq> []
      \<and> length (geometry (moveControlPoint i j k p st))
          = length (originalPositions (moveControlPoint i j k p st))"
    using Cons.prems
    by (auto simp: moveControlPoint_def Let_def set_point_def split: option.splits)
  thus ?case using Cons.IH mv by simp
qed

text \<open>
  C3, as the code has it.  For every mesh over which a lattice is constructed and every
  finite sequence of \<open>moveControlPoint\<close> calls, \<open>reset\<close> restores the working and
  the local point set from the initial snapshot (the grid of the constructor), leaves
  the snapshot in place and resets the current transform to the identity.  It writes
  the cached original positions into the vertex buffer, but then deforms again: the
  state it leaves is the one \<open>deform\<close> leaves on the freshly constructed lattice, and
  its vertex buffer is that of the identity deform, not the cached originals.
\<close>

theorem reset_after_sculpt:
  assumes "construct g settings = Inr st0" and "position g = Some ps"
  shows "reset (sculpt moves st0) = deform st0
     \<and> controlPoints (reset (sculpt moves st0)) = controlPoints st0
     \<and> originalControlPoints (reset (sculpt moves st0)) = Some (controlPoints st0)
     \<and> initialControlPoints (reset (sculpt moves st0)) = Some (controlPoints st0)
     \<and> currentTransform (reset (sculpt moves st0)) = identity4
     \<and> originalPositions (reset (sculpt moves st0)) = ps
     \<and> geometry (reset (sculpt moves st0)) = geometry (deform st0)"
proof -
  note f = construct_fields[OF assms]
  let ?st = "sculpt moves st0"
  note fr = sculpt_frame[of moves st0]
  have ini: "initialControlPoints ?st = Some (controlPoints st0)"
    using fr f(2) by simp
  let ?X = "?st\<lparr>geometry := map Some (originalPositions ?st),
                     controlPoints := controlPoints st0,
                     originalControlPoints := Some (controlPoints st0),
                     currentTransform := identity4,
                     lastDeformedGeometry := None\<rparr>"
  have r: "reset ?st = deform ?X"
    by (simp add: reset_def ini)
  have "?X = st0"
    using fr f by (intro FFD.equality) simp_all
  hence e: "reset ?st = deform st0" using r by simp
  show ?thesis unfolding e using f by simp
qed

text \<open>
  The theorem at the mesh with vertices \<open>(0,0,0)\<close>, \<open>(1/2000000,0,0)\<close>, \<open>(1,0,0)\<close>.
  Sculpting control point \<open>(0,0,0)\<close> to \<open>(-1,0,0)\<close> moves the first vertex there;
  \<open>reset\<close> then leaves the second vertex at \<open>(0,0,0)\<close>, not at its original position.
\<close>

theorem reset_after_sculpt_witness:
  "\<exists>st0. construct near_face_geometry None = Inr st0
      \<and> originalPositions st0 = [Vector3 0 0 0, Vector3 (1 / 2000000) 0 0, Vector3 1 0 0]
      \<and> geometry (sculpt [(0, 0, 0, Vector3 (- 1) 0 0)] st0) ! 0 = Some (Vector3 (- 1) 0 0)
      \<and> reset (sculpt [(0, 0, 0, Vector3 (- 1) 0 0)] st0) = deform st0
      \<and> currentTransform (reset (sculpt [(0, 0, 0, Vector3 (- 1) 0 0)] st0)) = identity4
      \<and> geometry (reset (sculpt [(0, 0, 0, Vector3 (- 1) 0 0)] st0))
           = [Some (Vector3 0 0 0), Some (Vector3 0 0 0), Some (Vector3 1 0 0)]"
proof -
  let ?ps = "[Vector3 0 0 0, Vector3 (1 / 2000000) 0 0, Vector3 1 0 0]"
  let ?mv = "[(0, 0, 0, Vector3 (- 1) 0 0)] :: (nat \<times> nat \<times> nat \<times> Vector3) list"
  have pos: "position near_face_geometry = Some ?ps" by (simp add: near_face_geometry_def)
  obtain st0 where c: "construct near_face_geometry None = Inr st0"
    using construct_total[OF pos] by blast
  note f = construct_fields[OF c pos]
  have box: "setFromBufferAttribute ?ps = Some (Box3 (Vector3 0 0 0) (Vector3 1 0 0))"
    by (simp add: setFromBufferAttribute_def expandByPoint_def)
  let ?box = "Box3 (Vector3 0 0 0) (Vector3 1 0 0)"
  note gf = construct_grid_fields[OF c pos box]
  have l: "ffd_l st0 = 2" "ffd_m st0 = 2" "ffd_n st0 = 2"
    using f(4,5,6) by (simp_all add: subdivisions_def)
  have le: "ffd_l st0 \<le> MAX_COUNT" "ffd_m st0 \<le> MAX_COUNT" "ffd_n st0 \<le> MAX_COUNT"
    by (simp_all add: l MAX_COUNT_def)
  note r = reset_after_sculpt[OF c pos, of ?mv]
  have g: "geometry (deform st0) = map (\<lambda>v. Some (snapVertex ?box v)) ?ps"
    by (rule deform_constructed[OF c pos box le])
  have snapped: "map (\<lambda>v. Some (snapVertex ?box v)) ?ps
      = [Some (Vector3 0 0 0), Some (Vector3 0 0 0), Some (Vector3 1 0 0)]"
    by (simp add: snapVertex_def snapCoordinate_def localCoordinate_def getSize_def
        isEmpty_def sub_v_def epsilon_def Let_def)
  let ?grid = "evenGrid (bmin ?box) (getSize ?box) 2 2 2"
  let ?st1 = "st0\<lparr>controlPoints := set_point (controlPoints st0) 0 0 0 (Some (Vector3 (- 1) 0 0)),
                  originalControlPoints :=
                    Some (set_point (controlPoints st0) 0 0 0 (Some (Vector3 (- 1) 0 0)))\<rparr>"
  have ig: "in_grid (controlPoints st0) 0 0 0"
    by (simp add: gf l in_grid_def map_grid_def evenGrid_def del: upt_Suc)
  have ig': "in_grid ?grid 0 0 0"
    by (simp add: in_grid_def evenGrid_def del: upt_Suc)
  have s: "sculpt ?mv st0 = deform ?st1"
    using ig f(3,7)
    by (simp add: sculpt_def moveControlPoint_def Let_def equals4_def)
  have cp1: "controlPoints ?st1 = map_grid Some (set_point ?grid 0 0 0 (Vector3 (- 1) 0 0))"
    using ig' by (simp add: gf l map_grid_set_point)
  have cpn: "controlPoints ?st1 ! i ! j ! k
      = Some (set_point ?grid 0 0 0 (Vector3 (- 1) 0 0) ! i ! j ! k)"
    if "i \<le> 2" "j \<le> 2" "k \<le> 2" for i j k
    unfolding cp1 using in_grid_evenGrid[OF that] by (intro map_grid_nth) simp
  have b: "calculateDeformedPosition ?st1 0 0 0
      = Some (blend (set_point ?grid 0 0 0 (Vector3 (- 1) 0 0))
                (ffd_l ?st1) (ffd_m ?st1) (ffd_n ?st1) 0 0 0)"
  proof (rule calculateDeformedPosition_blend)
    show "bernstein (ffd_l ?st1) i 0 = Some (basis (ffd_l ?st1) i 0)" if "i \<le> ffd_l ?st1" for i
      using that le by (intro bernstein_basis) simp_all
    show "bernstein (ffd_m ?st1) i 0 = Some (basis (ffd_m ?st1) i 0)" if "i \<le> ffd_m ?st1" for i
      using that le by (intro bernstein_basis) simp_all
    show "bernstein (ffd_n ?st1) i 0 = Some (basis (ffd_n ?st1) i 0)" if "i \<le> ffd_n ?st1" for i
      using that le by (intro bernstein_basis) simp_all
    show "controlPoints ?st1 ! i ! j ! k
        = Some (set_point ?grid 0 0 0 (Vector3 (- 1) 0 0) ! i ! j ! k)"
      if "i \<le> ffd_l ?st1" "j \<le> ffd_m ?st1" "k \<le> ffd_n ?st1" for i j k
      using that l by (intro cpn) simp_all
  qed
  have bb: "bbox ?st1 = Some ?box" by (simp add: gf(2))
  have lc: "calculateLocalCoordinates ?st1 (Vector3 0 0 0) = (0, 0, 0)"
    unfolding calculateLocalCoordinates_def bb
    by (simp add: localCoordinate_def getSize_def isEmpty_def sub_v_def epsilon_def Let_def)
  have v0: "deformVertex ?st1 identity4 (Vector3 0 0 0) = Some (Vector3 (- 1) 0 0)"
    unfolding deformVertex_def lc prod.case b blend_corner
    using ig' by (simp add: set_point_nth)
  have "geometry (deform ?st1) ! 0 = Some (Vector3 (- 1) 0 0)"
    using deform_geometry[of ?st1] f(7,8,9,11) v0
    by (simp add: invert_identity set_point_def)
  hence moved: "geometry (sculpt ?mv st0) ! 0 = Some (Vector3 (- 1) 0 0)" by (simp only: s)
  have "construct near_face_geometry None = Inr st0
      \<and> originalPositions st0 = ?ps
      \<and> geometry (sculpt ?mv st0) ! 0 = Some (Vector3 (- 1) 0 0)
      \<and> reset (sculpt ?mv st0) = deform st0
      \<and> currentTransform (reset (sculpt ?mv st0)) = identity4
      \<and> geometry (reset (sculpt ?mv st0))
           = [Some (Vector3 0 0 0), Some (Vector3 0 0 0), Some (Vector3 1 0 0)]"
    using c f(8) moved r[THEN conjunct1] r[THEN conjunct2, THEN conjunct2, THEN conjunct2,
        THEN conjunct2, THEN conjunct1] g snapped
    by simp
  thus ?thesis by blast
qed

section \<open>C8: the zero-strength short-circuit\<close>

text \<open>
  C8.  For every pair of input geometries and every options value whose strength is
  at most 0, \<open>smoothSeam\<close> returns, without error, the clone of the result geometry
  with recomputed vertex normals: its position buffer (hence its vertex count), its
  index buffer and its other attributes are those of the input, and it differs from
  the input in the normal attribute at most.  The inputs themselves are values that
  \<open>smoothSeam\<close> only reads: the source works on \<open>resultGeometry.clone()\<close> and does not
  touch the tool geometry on this path.
\<close>

theorem zero_strength:
  assumes "options = Some opts" and "strength_opt opts = Some s" and "s \<le> 0"
  shows "\<exists>g. smoothSeam resultGeometry toolGeometry options = Some (Inr g)
           \<and> g = computeVertexNormals resultGeometry
           \<and> position g = position resultGeometry
           \<and> map_option length (position g) = map_option length (position resultGeometry)
           \<and> index g = index resultGeometry
           \<and> attributes g = attributes resultGeometry
           \<and> g\<lparr>normal := normal resultGeometry\<rparr> = resultGeometry"
  using assms
  by (simp add: smoothSeam_def merge_options_def clone_def Let_def computeVertexNormals_def
        split: option.splits)

text \<open>The theorem at the one-triangle mesh with strength 0.\<close>

theorem zero_strength_witness:
  "strength_opt zero_strength_options = Some 0 \<and> (0::real) \<le> 0
   \<and> smoothSeam tri_geometry no_position_geometry (Some zero_strength_options)
       = Some (Inr (computeVertexNormals tri_geometry))
   \<and> position (computeVertexNormals tri_geometry)
       = Some [Vector3 0 0 0, Vector3 2 4 0, Vector3 0 0 6]"
  using zero_strength[where options = "Some zero_strength_options" and opts = zero_strength_options
      and s = 0 and resultGeometry = tri_geometry and toolGeometry = no_position_geometry]
  by (simp add: zero_strength_options_def tri_geometry_def)

section \<open>Edge splitting: invariants\<close>

lemma distance_v_commute: "distance_v a b = distance_v b a"
  by (simp add: distance_v_def length_v_def sub_v_def power2_eq_square[symmetric] power2_commute)

lemma split_entry_key:
  assumes "a < length ps0" "b < length ps0" "isNear nearSeam a \<or> isNear nearSeam b"
    "targetLength < distance_v (ps0 ! a) (ps0 ! b)" "length ps0 \<le> mid" "mid < n"
  shows "split_entry nearSeam targetLength ps0 n (edge_key a b, mid)"
proof (cases "a \<le> b")
  case True thus ?thesis using assms by (simp add: split_entry_def edge_key_def min_def max_def)
next
  case False thus ?thesis using assms distance_v_commute[of "ps0 ! a" "ps0 ! b"]
    by (auto simp add: split_entry_def edge_key_def min_def max_def)
qed

lemma split_entry_mono: "split_entry ns t ps0 n e \<Longrightarrow> n \<le> n' \<Longrightarrow> split_entry ns t ps0 n' e"
  by (auto simp add: split_entry_def)

lemma splitFaceEdges_inv:
  assumes "split_inv ps0 nearSeam targetLength maxVertCount st"
    and "\<forall>(a, b) \<in> set es. a < length ps0 \<and> b < length ps0"
  shows "split_inv ps0 nearSeam targetLength maxVertCount
           (splitFaceEdges nearSeam targetLength maxVertCount es st)"
  using assms
proof (induction es arbitrary: st)
  case Nil thus ?case by simp
next
  case (Cons e es)
  obtain a b where e: "e = (a, b)" by (cases e)
  have ab: "a < length ps0" "b < length ps0" using Cons.prems(2) e by auto
  have rest: "\<forall>(a, b) \<in> set es. a < length ps0 \<and> b < length ps0" using Cons.prems(2) by auto
  note inv = Cons.prems(1)[unfolded split_inv_def]
  have nth: "positions st ! a = ps0 ! a" "positions st ! b = ps0 ! b"
    using inv ab by (metis nth_take)+
  show ?case
  proof (cases "(\<not> isNear nearSeam a \<and> \<not> isNear nearSeam b)
      \<or> edge_key a b \<in> fst ` set (edgeMidpoints st)
      \<or> distance_v (positions st ! a) (positions st ! b) \<le> targetLength")
    case True
    thus ?thesis using Cons.IH[OF Cons.prems(1) rest] e by auto
  next
    case skip: False
    show ?thesis
    proof (cases "length (positions st) \<ge> maxVertCount")
      case True
      thus ?thesis using skip e Cons.prems(1) by auto
    next
      case False
      define st1 where "st1 = st\<lparr>positions := positions st @ [midpoint (positions st ! a) (positions st ! b)],
                    edgeMidpoints := map_set (edge_key a b) (length (positions st)) (edgeMidpoints st)\<rparr>"
      define st2 where "st2 = (if a \<in> set (seamVerts st1) \<and> b \<in> set (seamVerts st1)
                  then st1\<lparr>seamVerts := set_add (length (positions st)) (seamVerts st1)\<rparr> else st1)"
      have step: "splitFaceEdges nearSeam targetLength maxVertCount (e # es) st
          = splitFaceEdges nearSeam targetLength maxVertCount es st2"
        using skip False e by (auto simp add: st1_def st2_def Let_def)
      have pos2: "positions st2 = positions st @ [midpoint (positions st ! a) (positions st ! b)]"
        and mids2: "edgeMidpoints st2 = edgeMidpoints st @ [(edge_key a b, length (positions st))]"
        using skip by (auto simp add: st1_def st2_def map_set_def)
      have new: "split_entry nearSeam targetLength ps0 (Suc (length (positions st)))
                   (edge_key a b, length (positions st))"
        using skip ab nth inv by (intro split_entry_key) auto
      have "split_inv ps0 nearSeam targetLength maxVertCount st2"
        unfolding split_inv_def pos2 mids2
        using inv False new by (auto intro: split_entry_mono)
      from Cons.IH[OF this rest] show ?thesis by (simp only: step)
    qed
  qed
qed

lemma fold_splitFaceEdges_inv:
  assumes "split_inv ps0 nearSeam targetLength maxVertCount st"
    and "valid_faces (length ps0) fs"
  shows "split_inv ps0 nearSeam targetLength maxVertCount
           (fold (\<lambda>f. splitFaceEdges nearSeam targetLength maxVertCount (face_edges f)) fs st)"
  using assms
proof (induction fs arbitrary: st)
  case Nil thus ?case by simp
next
  case (Cons f fs)
  obtain a b c where f: "f = (a, b, c)" by (cases f)
  have "\<forall>(a, b) \<in> set (face_edges f). a < length ps0 \<and> b < length ps0"
    using Cons.prems(2) f by (simp add: valid_faces_def face_edges_def)
  from splitFaceEdges_inv[OF Cons.prems(1) this]
  have "split_inv ps0 nearSeam targetLength maxVertCount
          (splitFaceEdges nearSeam targetLength maxVertCount (face_edges f) st)" .
  moreover have "valid_faces (length ps0) fs" using Cons.prems(2) by (simp add: valid_faces_def)
  ultimately show ?case using Cons.IH by simp
qed

lemma split_inv_init:
  "split_inv ps0 nearSeam targetLength maxVertCount
     \<lparr>positions = ps0, seamVerts = sv, edgeMidpoints = []\<rparr>"
  by (simp add: split_inv_def)

lemma rebuildFace_valid:
  assumes "\<forall>e \<in> set mids. snd e < n" and "a < n" "b < n" "c < n"
  shows "valid_faces n (rebuildFace mids (a, b, c))"
proof -
  have m: "\<And>k v. map_of mids k = Some v \<Longrightarrow> v < n"
    using assms(1) by (auto dest!: map_of_SomeD)
  show ?thesis using assms(2-4)
    by (auto simp add: valid_faces_def rebuildFace_def split: option.splits dest: m)
qed

lemma valid_faces_concat:
  assumes "\<forall>e \<in> set mids. snd e < n" and "valid_faces n0 fs" and "n0 \<le> n"
  shows "valid_faces n (concat (map (rebuildFace mids) fs))"
proof -
  have "\<And>f. f \<in> set fs \<Longrightarrow> valid_faces n (rebuildFace mids f)"
  proof -
    fix f assume f: "f \<in> set fs"
    obtain a b c where abc: "f = (a, b, c)" by (cases f)
    have "a < n" "b < n" "c < n" using assms(2,3) f abc by (auto simp add: valid_faces_def)
    thus "valid_faces n (rebuildFace mids f)" unfolding abc by (rule rebuildFace_valid[OF assms(1)])
  qed
  thus ?thesis by (auto simp add: valid_faces_def)
qed

lemma isNear_computeNearSeam:
  "isNear (computeNearSeam ps segs zone) a
     \<longleftrightarrow> a < length ps \<and> (\<exists>seg \<in> set segs. segmentDistance (ps ! a) seg < zone)"
  by (auto simp add: isNear_def computeNearSeam_def)

lemma split_inv_pass_entry:
  assumes "split_inv ps0 (computeNearSeam ps0 segs zone) targetLength maxVertCount st"
  shows "pass_entry segs zone targetLength (ps0, edgeMidpoints st)"
  using assms
  by (fastforce simp add: split_inv_def split_entry_def pass_entry_def isNear_computeNearSeam)

lemma split_inv_mids:
  assumes "split_inv ps0 ns targetLength maxVertCount st"
  shows "\<forall>e \<in> set (edgeMidpoints st). snd e < length (positions st)"
  using assms by (auto simp add: split_inv_def split_entry_def)

lemma splitPasses_inv:
  assumes "valid_faces (length (mesh_positions m)) (mesh_indices m)"
    and "passes m = length (created m)"
    and "\<forall>e \<in> set (created m). pass_entry segs zone targetLength e \<and> snd e \<noteq> []"
  shows "passes (splitPasses segs zone targetLength maxVertCount left m) \<le> passes m + left
    \<and> passes (splitPasses segs zone targetLength maxVertCount left m)
        = length (created (splitPasses segs zone targetLength maxVertCount left m))
    \<and> length (mesh_positions m)
        \<le> length (mesh_positions (splitPasses segs zone targetLength maxVertCount left m))
    \<and> length (mesh_positions (splitPasses segs zone targetLength maxVertCount left m))
        \<le> max maxVertCount (length (mesh_positions m))
    \<and> (\<forall>e \<in> set (created (splitPasses segs zone targetLength maxVertCount left m)).
          pass_entry segs zone targetLength e)
    \<and> (\<forall>e \<in> set (butlast (created (splitPasses segs zone targetLength maxVertCount left m))).
          snd e \<noteq> [])"
  using assms
proof (induction left arbitrary: m)
  case 0
  thus ?case by (auto dest: in_set_butlastD)
next
  case (Suc left)
  show ?case
  proof (cases "length (mesh_positions m) \<ge> maxVertCount")
    case True
    thus ?thesis using Suc.prems by (auto dest: in_set_butlastD)
  next
    case False
    define ns where "ns = computeNearSeam (mesh_positions m) segs zone"
    define st where "st = fold (\<lambda>f. splitFaceEdges ns targetLength maxVertCount (face_edges f))
                   (mesh_indices m)
                   \<lparr>positions = mesh_positions m, seamVerts = mesh_seamVerts m,
                    edgeMidpoints = []\<rparr>"
    define m2 where "m2 = m\<lparr>passes := Suc (passes m),
                          created := created m @ [(mesh_positions m, edgeMidpoints st)]\<rparr>"
    define m3 where "m3 = m2\<lparr>mesh_positions := positions st,
                     mesh_indices := concat (map (rebuildFace (edgeMidpoints st)) (mesh_indices m)),
                     mesh_seamVerts := seamVerts st\<rparr>"
    have inv: "split_inv (mesh_positions m) ns targetLength maxVertCount st"
      unfolding st_def by (rule fold_splitFaceEdges_inv[OF split_inv_init Suc.prems(1)])
    have entry: "pass_entry segs zone targetLength (mesh_positions m, edgeMidpoints st)"
      using inv unfolding ns_def by (rule split_inv_pass_entry)
    have len: "length (mesh_positions m) \<le> length (positions st)"
      "length (positions st) \<le> max maxVertCount (length (mesh_positions m))"
      using inv by (simp_all add: split_inv_def)
    show ?thesis
    proof (cases "edgeMidpoints st = []")
      case True
      have r: "splitPasses segs zone targetLength maxVertCount (Suc left) m = m2"
        using False True by (simp add: Let_def ns_def[symmetric] st_def[symmetric] m2_def)
      show ?thesis unfolding r using Suc.prems entry by (auto simp add: m2_def)
    next
      case nonempty: False
      have r: "splitPasses segs zone targetLength maxVertCount (Suc left) m
                = splitPasses segs zone targetLength maxVertCount left m3"
        using False nonempty
        by (simp add: Let_def ns_def[symmetric] st_def[symmetric] m2_def m3_def)
      have v3: "valid_faces (length (mesh_positions m3)) (mesh_indices m3)"
        using valid_faces_concat[OF split_inv_mids[OF inv] Suc.prems(1) len(1)]
        by (simp add: m3_def m2_def)
      have p3: "passes m3 = length (created m3)" using Suc.prems(2) by (simp add: m3_def m2_def)
      have c3: "\<forall>e \<in> set (created m3). pass_entry segs zone targetLength e \<and> snd e \<noteq> []"
        using Suc.prems(3) entry nonempty by (auto simp add: m3_def m2_def)
      have f3: "passes m3 = Suc (passes m)" "mesh_positions m3 = positions st"
        by (simp_all add: m3_def m2_def)
      from Suc.IH[OF v3 p3 c3] show ?thesis unfolding r f3 using len by auto
    qed
  qed
qed

lemma sqrt_le_bound: "0 \<le> c \<Longrightarrow> sqrt x \<le> c \<longleftrightarrow> x \<le> c\<^sup>2"
  using real_sqrt_le_iff[of x "c\<^sup>2"] by simp

lemma sqrt_less_bound: "0 \<le> c \<Longrightarrow> sqrt x < c \<longleftrightarrow> x < c\<^sup>2"
  using real_sqrt_less_iff[of x "c\<^sup>2"] by simp

lemma butlast_nonempty_last:
  assumes "\<forall>e \<in> set (butlast xs). snd e \<noteq> []" and "i < length xs" and "snd (xs ! i) = []"
  shows "Suc i = length xs"
proof (rule ccontr)
  assume "Suc i \<noteq> length xs"
  hence "i < length (butlast xs)" using assms(2) by simp
  hence "butlast xs ! i \<in> set (butlast xs)" by (rule nth_mem)
  moreover have "butlast xs ! i = xs ! i" using \<open>i < length (butlast xs)\<close> by (rule nth_butlast)
  ultimately show False using assms(1,3) by auto
qed

lemma sqrt_greater_bound: "0 \<le> c \<Longrightarrow> c < sqrt x \<longleftrightarrow> c\<^sup>2 < x"
  using sqrt_le_bound[of c x] by auto

text \<open>A run of the fillet-zone call: the first pass splits two edges, the second none.\<close>

lemma split_run:
  "filletSplit split_positions [(0, 1, 2)] [0, 1] split_segments split_options
     = \<lparr>mesh_positions = split_positions @ [Vector3 2 0 0, Vector3 2 (3 / 2) 0],
        mesh_indices = [(0, 3, 4), (0, 4, 2), (3, 1, 4)],
        mesh_seamVerts = [0, 1, 3],
        passes = 2,
        created = [(split_positions, [((0, 1), 3), ((1, 2), 4)]),
                   (split_positions @ [Vector3 2 0 0, Vector3 2 (3 / 2) 0], [])]\<rparr>"
  by (simp add: filletSplit_def filletTargetLength_def splitSeamEdges_def split_positions_def
      split_segments_def split_options_def Let_def numeral_eq_Suc computeNearSeam_def
      segmentDistance_def pointToSegmentDistance_def face_edges_def isNear_def edge_key_def
      distance_v_def length_v_def sub_v_def sqrt_le_bound sqrt_less_bound midpoint_def
      map_set_def set_add_def rebuildFace_def)

section \<open>C9: fillet-zone splitting is bounded\<close>

text \<open>
  C9.  For every mesh whose faces index existing vertices, every call of
  \<open>splitSeamEdges\<close> begins at most \<open>maxPasses\<close> passes, returns a position buffer that
  extends the one at entry to at most 5 times its vertex count, and stops as soon as a
  pass creates no midpoint: only the last pass begun can be one that created none.
  Every midpoint a pass creates is that of an edge between two vertices of the buffer
  the pass began with, of which at least one is closer than \<open>1.2 \<cdot> radius\<close> to some seam
  segment, and which is longer than the target length.  The main fillet-zone call
  \<open>filletSplit\<close> of \<open>smoothSeam\<close> (step 4) is the call with the radius of the options,
  the target length \<open>max(radius / 12, 0.003)\<close> and 8 passes.
\<close>

theorem split_bounded:
  assumes "\<forall>(a, b, c) \<in> set indices. a < length ps \<and> b < length ps \<and> c < length ps"
  shows "(let m = splitSeamEdges ps indices seamVs segs rad targetLength maxPasses in
       passes m \<le> maxPasses
     \<and> length ps \<le> length (mesh_positions m) \<and> length (mesh_positions m) \<le> 5 * length ps
     \<and> length (created m) = passes m
     \<and> (\<forall>i < length (created m). snd (created m ! i) = [] \<longrightarrow> Suc i = length (created m))
     \<and> (\<forall>(ps0, mids) \<in> set (created m). \<forall>((a, b), mid) \<in> set mids.
           a < length ps0 \<and> b < length ps0
         \<and> ((\<exists>seg \<in> set segs. segmentDistance (ps0 ! a) seg < rad * (12 / 10))
            \<or> (\<exists>seg \<in> set segs. segmentDistance (ps0 ! b) seg < rad * (12 / 10)))
         \<and> targetLength < distance_v (ps0 ! a) (ps0 ! b)))
   \<and> filletSplit ps indices seamVs segs opts
       = splitSeamEdges ps indices seamVs segs (radius opts) (max (radius opts / 12) (3 / 1000)) 8"
proof -
  define m0 where "m0 = \<lparr>mesh_positions = ps, mesh_indices = indices, mesh_seamVerts = seamVs,
            passes = 0, created = []\<rparr>"
  define m where "m = splitPasses segs (rad * (12 / 10)) targetLength (length ps * 5) maxPasses m0"
  have m: "splitSeamEdges ps indices seamVs segs rad targetLength maxPasses = m"
    by (simp add: splitSeamEdges_def m_def m0_def)
  have v: "valid_faces (length (mesh_positions m0)) (mesh_indices m0)"
    using assms by (simp add: m0_def valid_faces_def)
  have p: "passes m0 = length (created m0)" by (simp add: m0_def)
  have c: "\<forall>e \<in> set (created m0). pass_entry segs (rad * (12 / 10)) targetLength e \<and> snd e \<noteq> []"
    by (simp add: m0_def)
  note inv = splitPasses_inv[OF v p c, of "length ps * 5" maxPasses, folded m_def]
  have 1: "passes m \<le> maxPasses" using inv[THEN conjunct1] by (simp add: m0_def)
  have 2: "length (created m) = passes m" using inv[THEN conjunct2, THEN conjunct1] by simp
  have 3: "length ps \<le> length (mesh_positions m)"
    using inv[THEN conjunct2, THEN conjunct2, THEN conjunct1] by (simp add: m0_def)
  have 4: "length (mesh_positions m) \<le> 5 * length ps"
    using inv[THEN conjunct2, THEN conjunct2, THEN conjunct2, THEN conjunct1]
    by (simp add: m0_def)
  have 5: "\<forall>e \<in> set (created m). pass_entry segs (rad * (12 / 10)) targetLength e"
    using inv[THEN conjunct2, THEN conjunct2, THEN conjunct2, THEN conjunct2, THEN conjunct1] .
  have 6: "\<forall>e \<in> set (butlast (created m)). snd e \<noteq> []"
    using inv[THEN conjunct2, THEN conjunct2, THEN conjunct2, THEN conjunct2, THEN conjunct2] .
  have 7: "\<forall>i < length (created m). snd (created m ! i) = [] \<longrightarrow> Suc i = length (created m)"
    using butlast_nonempty_last[OF 6] by blast
  have 8: "\<forall>(ps0, mids) \<in> set (created m). \<forall>((a, b), mid) \<in> set mids.
           a < length ps0 \<and> b < length ps0
         \<and> ((\<exists>seg \<in> set segs. segmentDistance (ps0 ! a) seg < rad * (12 / 10))
            \<or> (\<exists>seg \<in> set segs. segmentDistance (ps0 ! b) seg < rad * (12 / 10)))
         \<and> targetLength < distance_v (ps0 ! a) (ps0 ! b)"
    using 5 unfolding pass_entry_def by fast
  have 9: "filletSplit ps indices seamVs segs opts
       = splitSeamEdges ps indices seamVs segs (radius opts) (max (radius opts / 12) (3 / 1000)) 8"
    by (simp add: filletSplit_def filletTargetLength_def)
  show ?thesis unfolding m Let_def using 1 2 3 4 7 8 9 by (intro conjI)
qed

text \<open>
  The theorem at the 4-3-5 triangle with radius 36: two passes are begun, the first
  splits the two edges longer than 3 and the second creates nothing.
\<close>

theorem split_bounded_witness:
  "list_all (\<lambda>(a, b, c). a < length split_positions \<and> b < length split_positions
              \<and> c < length split_positions) [(0, 1, 2)]
   \<and> passes (filletSplit split_positions [(0, 1, 2)] [0, 1] split_segments split_options) \<le> 8
   \<and> passes (filletSplit split_positions [(0, 1, 2)] [0, 1] split_segments split_options) = 2
   \<and> length (mesh_positions
        (filletSplit split_positions [(0, 1, 2)] [0, 1] split_segments split_options))
       \<le> 5 * length split_positions
   \<and> length (mesh_positions
        (filletSplit split_positions [(0, 1, 2)] [0, 1] split_segments split_options)) = 5
   \<and> created (filletSplit split_positions [(0, 1, 2)] [0, 1] split_segments split_options)
       = [(split_positions, [((0, 1), 3), ((1, 2), 4)]),
          (split_positions @ [Vector3 2 0 0, Vector3 2 (3 / 2) 0], [])]
   \<and> max (radius split_options / 12) (3 / 1000) = 3
   \<and> 3 < distance_v (split_positions ! 0) (split_positions ! 1)
   \<and> 3 < distance_v (split_positions ! 1) (split_positions ! 2)"
proof -
  let ?m = "filletSplit split_positions [(0, 1, 2)] [0, 1] split_segments split_options"
  have valid: "\<forall>(a, b, c) \<in> set [(0, 1, 2)].
      a < length split_positions \<and> b < length split_positions \<and> c < length split_positions"
    by (simp add: split_positions_def)
  note sb = split_bounded[OF valid, where rad = "radius split_options"
      and targetLength = "max (radius split_options / 12) (3 / 1000)" and maxPasses = 8
      and seamVs = "[0, 1]" and segs = split_segments and opts = split_options]
  have eq: "?m = splitSeamEdges split_positions [(0, 1, 2)] [0, 1] split_segments
      (radius split_options) (max (radius split_options / 12) (3 / 1000)) 8"
    using sb by (rule conjunct2)
  have bound: "passes ?m \<le> 8" "length (mesh_positions ?m) \<le> 5 * length split_positions"
    using sb[THEN conjunct1, unfolded Let_def eq[symmetric], THEN conjunct1]
      sb[THEN conjunct1, unfolded Let_def eq[symmetric], THEN conjunct2, THEN conjunct2,
         THEN conjunct1]
    by - assumption+
  have a: "list_all (\<lambda>(a, b, c). a < length split_positions \<and> b < length split_positions
              \<and> c < length split_positions) [(0, 1, 2)]"
    by (simp add: split_positions_def)
  have r: "passes ?m = 2" "length (mesh_positions ?m) = 5"
    "created ?m = [(split_positions, [((0, 1), 3), ((1, 2), 4)]),
          (split_positions @ [Vector3 2 0 0, Vector3 2 (3 / 2) 0], [])]"
    unfolding split_run by (simp_all add: split_positions_def)
  have c: "max (radius split_options / 12) (3 / 1000) = 3" by (simp add: split_options_def)
  have d: "3 < distance_v (split_positions ! 0) (split_positions ! 1)"
    "3 < distance_v (split_positions ! 1) (split_positions ! 2)"
    by (simp_all add: split_positions_def distance_v_def length_v_def sub_v_def
        sqrt_greater_bound)
  show ?thesis using a bound r c d by (intro conjI)
qed

end
